(* ===== verification/Hv_Prelude.thy ===== *)
theory Hv_Prelude
  imports Main "HOL-Library.Word" "HOL-Library.Monad_Syntax"
begin

text \<open>
  Shared vocabulary of the development: the machine integer types of the C++ sources, byte
  blocks with bounded loads and stores (an access outside a block is \<^const>\<open>None\<close>, the
  development's value for a computation the C++ language gives no meaning to), the
  little-endian object representation that \<^verbatim>\<open>std::memcpy\<close> moves around on x86-64, and the
  interfaces \<open>byte_store\<close>, \<open>le_codec\<close>, \<open>callback_table\<close> and \<open>rw_tables\<close> that the components
  provide to one another.
\<close>

unbundle bit_operations_syntax

section \<open>Machine integers\<close>

type_synonym byte = "8 word"
type_synonym u8 = "8 word"
type_synonym u16 = "16 word"
type_synonym u32 = "32 word"
type_synonym u64 = "64 word"

named_theorems byte_simps \<open>loads, stores and object representations\<close>

lemma unat_add_no_wrap:
  fixes a b :: "'a::len word"
  shows "unat a + unat b < 2 ^ LENGTH('a) \<Longrightarrow> unat (a + b) = unat a + unat b"
  by (simp add: unat_word_ariths)

lemma unat_add_le_sum: "unat (a + b :: 'a::len word) \<le> unat a + unat b"
  by (simp add: unat_word_ariths)

lemma unat_of_nat_id: "n < 2 ^ LENGTH('a) \<Longrightarrow> unat (of_nat n :: 'a::len word) = n"
  by (simp add: unat_of_nat)

text \<open>A 32-bit value zero-extended to a 64-bit register.\<close>

lemma u32_in_u64: "ucast (ucast (w :: u32) :: u64) = w"
  by (rule bit_word_eqI) (simp add: bit_ucast_iff)

section \<open>Byte blocks\<close>

definition load_at :: "byte list \<Rightarrow> nat \<Rightarrow> nat \<Rightarrow> byte list option" where
  "load_at blk off n = (if off + n \<le> length blk then Some (take n (drop off blk)) else None)"

definition store_at :: "byte list \<Rightarrow> nat \<Rightarrow> byte list \<Rightarrow> byte list option" where
  "store_at blk off bs =
     (if off + length bs \<le> length blk
      then Some (take off blk @ bs @ drop (off + length bs) blk) else None)"

definition memcpy :: "byte list \<Rightarrow> byte list \<Rightarrow> nat \<Rightarrow> byte list" where
  "memcpy dst src n = take n src @ drop n dst"

lemma length_memcpy [simp]: "n \<le> length src \<Longrightarrow> n \<le> length dst \<Longrightarrow> length (memcpy dst src n) = length dst"
  by (simp add: memcpy_def)

lemma memcpy_all: "length src = length dst \<Longrightarrow> memcpy dst src (length dst) = src"
  by (simp add: memcpy_def)

lemma take_memcpy: "n \<le> length src \<Longrightarrow> take n (memcpy dst src n) = take n src"
  by (simp add: memcpy_def)

lemma drop_memcpy: "n \<le> length src \<Longrightarrow> drop n (memcpy dst src n) = drop n dst"
  by (simp add: memcpy_def)

text \<open>
  The contract of a readable and writable byte store: accesses are defined exactly inside the
  store, a read sees the last write, bytes outside the written range keep their value.
\<close>

locale byte_store =
  fixes ld :: "'b \<Rightarrow> nat \<Rightarrow> nat \<Rightarrow> byte list option"
    and st :: "'b \<Rightarrow> nat \<Rightarrow> byte list \<Rightarrow> 'b option"
    and sz :: "'b \<Rightarrow> nat"
  assumes ld_iff: "(\<exists>bs. ld b off n = Some bs) \<longleftrightarrow> off + n \<le> sz b"
    and ld_length: "ld b off n = Some bs \<Longrightarrow> length bs = n"
    and ld_nth: "ld b off n = Some bs \<Longrightarrow> i < n \<Longrightarrow> ld b (off + i) (Suc 0) = Some [bs ! i]"
    and st_iff: "(\<exists>b'. st b off bs = Some b') \<longleftrightarrow> off + length bs \<le> sz b"
    and st_size: "st b off bs = Some b' \<Longrightarrow> sz b' = sz b"
    and st_byte: "st b off bs = Some b' \<Longrightarrow> i < sz b \<Longrightarrow>
      ld b' i (Suc 0) = (if off \<le> i \<and> i < off + length bs then Some [bs ! (i - off)] else ld b i (Suc 0))"
begin

lemma ld_eqI:
  assumes "off + n \<le> sz b" and "off' + n \<le> sz b'"
    and "\<And>i. i < n \<Longrightarrow> ld b (off + i) (Suc 0) = ld b' (off' + i) (Suc 0)"
  shows "ld b off n = ld b' off' n"
proof -
  obtain xs ys where xs: "ld b off n = Some xs" and ys: "ld b' off' n = Some ys"
    using assms(1,2) [THEN ld_iff [THEN iffD2]] by (elim exE)
  have "xs = ys"
  proof (rule nth_equalityI)
    show "length xs = length ys"
      using ld_length [OF xs] ld_length [OF ys] by simp
    fix i assume "i < length xs"
    then have i: "i < n" using ld_length [OF xs] by simp
    show "xs ! i = ys ! i"
      using ld_nth [OF xs i] ld_nth [OF ys i] assms(3) [OF i] by simp
  qed
  with xs ys show ?thesis by simp
qed

lemma ld_st_same:
  assumes st: "st b off bs = Some b'"
  shows "ld b' off (length bs) = Some bs"
proof -
  have in_b: "off + length bs \<le> sz b" by (rule st_iff [THEN iffD1, OF exI, OF st])
  then have "off + length bs \<le> sz b'" by (simp add: st_size [OF st])
  then obtain xs where xs: "ld b' off (length bs) = Some xs"
    by (rule ld_iff [THEN iffD2, THEN exE])
  have "xs = bs"
  proof (rule nth_equalityI)
    show len: "length xs = length bs" by (rule ld_length [OF xs])
    fix i assume "i < length xs"
    with len have i: "i < length bs" by simp
    with in_b have "ld b' (off + i) (Suc 0) = Some [bs ! i]"
      by (simp add: st_byte [OF st])
    with ld_nth [OF xs i] show "xs ! i = bs ! i" by simp
  qed
  with xs show ?thesis by simp
qed

text \<open>A part of what was read.\<close>

lemma ld_sub:
  assumes ld: "ld b off n = Some bs" and "m + k \<le> n"
  shows "ld b (off + m) k = Some (take k (drop m bs))"
proof -
  have "off + n \<le> sz b" by (rule ld_iff [THEN iffD1, OF exI, OF ld])
  with assms(2) have "off + m + k \<le> sz b" by simp
  then obtain xs where xs: "ld b (off + m) k = Some xs"
    by (rule ld_iff [THEN iffD2, THEN exE])
  have "xs = take k (drop m bs)"
  proof (rule nth_equalityI)
    show "length xs = length (take k (drop m bs))"
      using ld_length [OF xs] ld_length [OF ld] assms(2) by simp
    fix i assume "i < length xs"
    then have i: "i < k" using ld_length [OF xs] by simp
    then have "ld b (off + (m + i)) (Suc 0) = Some [bs ! (m + i)]"
      using assms(2) by (intro ld_nth [OF ld]) simp
    with ld_nth [OF xs i] i ld_length [OF ld] assms(2) show "xs ! i = take k (drop m bs) ! i"
      by (simp add: add.assoc)
  qed
  with xs show ?thesis by simp
qed

lemma ld_st_disjoint:
  assumes st: "st b off bs = Some b'"
    and disj: "off' + n \<le> off \<or> off + length bs \<le> off'"
    and in_b: "off' + n \<le> sz b"
  shows "ld b' off' n = ld b off' n"
proof (rule ld_eqI)
  show "off' + n \<le> sz b'" using in_b by (simp add: st_size [OF st])
  fix i assume "i < n"
  then show "ld b' (off' + i) (Suc 0) = ld b (off' + i) (Suc 0)"
    using disj in_b by (subst st_byte [OF st]) auto
qed (rule in_b)

lemma ld_none_iff: "ld b off n = None \<longleftrightarrow> sz b < off + n"
  using ld_iff [of b off n] by (cases "ld b off n") auto

lemma st_none_iff: "st b off bs = None \<longleftrightarrow> sz b < off + length bs"
  using st_iff [of b off bs] by (cases "st b off bs") auto

end

lemma load_at_byte: "load_at blk i (Suc 0) = (if i < length blk then Some [blk ! i] else None)"
  by (auto simp: load_at_def Suc_le_eq take_Suc hd_drop_conv_nth)

lemma store_at_nth:
  assumes "store_at blk off bs = Some blk'" and "i < length blk"
  shows "blk' ! i = (if off \<le> i \<and> i < off + length bs then bs ! (i - off) else blk ! i)"
  using assms by (auto simp: store_at_def nth_append min_def split: if_splits)

lemma store_at_length: "store_at blk off bs = Some blk' \<Longrightarrow> length blk' = length blk"
  by (auto simp: store_at_def split: if_splits)

interpretation blk: byte_store load_at store_at length
proof unfold_locales
  fix b off n bs i
  assume "load_at b off n = Some bs" and "i < n"
  then show "load_at b (off + i) (Suc 0) = Some [bs ! i]"
    unfolding load_at_byte by (auto simp: load_at_def split: if_splits)
next
  fix b off bs b' i
  assume st: "store_at b off bs = Some b'" and i: "i < length b"
  then show "load_at b' i (Suc 0) =
      (if off \<le> i \<and> i < off + length bs then Some [bs ! (i - off)] else load_at b i (Suc 0))"
    by (simp add: load_at_byte store_at_length [OF st] store_at_nth [OF st])
qed (auto simp: load_at_def store_at_def split: if_splits)

section \<open>Little-endian object representation\<close>

primrec le_bytes :: "nat \<Rightarrow> 'a::len word \<Rightarrow> byte list" where
  "le_bytes 0 w = []"
| "le_bytes (Suc n) w = ucast w # le_bytes n (drop_bit 8 w)"

primrec le_word :: "byte list \<Rightarrow> 'a::len word" where
  "le_word [] = 0"
| "le_word (b # bs) = ucast b OR push_bit 8 (le_word bs)"

lemma length_le_bytes [simp]: "length (le_bytes n w) = n"
  by (induction n arbitrary: w) simp_all

lemma le_bytes_nth: "i < n \<Longrightarrow> le_bytes n w ! i = ucast (drop_bit (8 * i) w)"
proof (induction n arbitrary: w i)
  case (Suc n)
  then show ?case by (cases i) (simp_all add: drop_bit_drop_bit add.commute)
qed simp

lemma bit_le_word:
  "bit (le_word bs :: 'a::len word) i \<longleftrightarrow>
     i < LENGTH('a) \<and> i < 8 * length bs \<and> bit (bs ! (i div 8)) (i mod 8)"
proof (induction bs arbitrary: i)
  case (Cons b bs)
  show ?case
  proof (cases "i < 8")
    case True
    then show ?thesis by (auto simp: bit_or_iff bit_push_bit_iff bit_ucast_iff)
  next
    case False
    then obtain j where j: "i = 8 + j" using le_Suc_ex by (metis not_less)
    have "(8 + j) div 8 = Suc (j div 8)" by presburger
    then show ?thesis
      by (auto simp: j bit_or_iff bit_push_bit_iff bit_ucast_iff Cons.IH
          dest: bit_imp_le_length)
  qed
qed simp

lemma le_word_bytes [byte_simps]: "le_word (le_bytes n w) = take_bit (8 * n) (w :: 'a::len word)"
proof (rule bit_word_eqI)
  fix i assume i: "i < LENGTH('a)"
  have "i < 8 * n \<Longrightarrow> i div 8 < n" by simp
  then show "bit (le_word (le_bytes n w) :: 'a word) i = bit (take_bit (8 * n) w) i"
    using i by (auto simp: bit_le_word le_bytes_nth bit_ucast_iff bit_drop_bit_eq bit_take_bit_iff)
qed

lemma le_bytes_word [byte_simps]:
  assumes "length bs = n" and "8 * n \<le> LENGTH('a)"
  shows "le_bytes n (le_word bs :: 'a::len word) = bs"
proof (rule nth_equalityI)
  show "length (le_bytes n (le_word bs :: 'a word)) = length bs"
    using assms by simp
  fix i assume "i < length (le_bytes n (le_word bs :: 'a word))"
  then have i: "i < n" by simp
  show "le_bytes n (le_word bs :: 'a word) ! i = bs ! i"
  proof (rule bit_word_eqI)
    fix j assume "j < LENGTH(8)"
    then have j: "j < 8" by simp
    moreover have "8 * i + j < 8 * n" using i j by simp
    ultimately show "bit (le_bytes n (le_word bs :: 'a word) ! i) j = bit (bs ! i) j"
      using assms i by (simp add: le_bytes_nth bit_ucast_iff bit_drop_bit_eq bit_le_word)
  qed
qed

lemma le_word_take_zero:
  "n \<le> length bs \<Longrightarrow> n \<le> k \<Longrightarrow>
     (le_word (memcpy (le_bytes k (0 :: 'a::len word)) bs n) :: 'b::len word) = le_word (take n bs)"
proof (rule bit_word_eqI)
  fix i :: nat
  assume n: "n \<le> length bs" "n \<le> k"
  show "bit (le_word (memcpy (le_bytes k 0) bs n) :: 'b::len word) i = bit (le_word (take n bs) :: 'b word) i"
  proof (cases "i < 8 * n")
    case True
    then have "i div 8 < n" by simp
    with True n show ?thesis by (simp add: bit_le_word memcpy_def nth_append)
  next
    case False
    then have "n \<le> i div 8" by simp
    moreover have "i < 8 * k \<Longrightarrow> i div 8 < k" by simp
    ultimately show ?thesis
      using False n by (auto simp: bit_le_word memcpy_def nth_append le_bytes_nth)
  qed
qed

lemma take_le_bytes: "n \<le> k \<Longrightarrow> take n (le_bytes k w) = le_bytes n w"
  by (rule nth_equalityI) (auto simp: le_bytes_nth)

text \<open>A fixed-width integer type and the bytes of its objects.\<close>

locale le_codec =
  fixes enc :: "'w \<Rightarrow> byte list"
    and dec :: "byte list \<Rightarrow> 'w"
    and width :: nat
  assumes enc_length: "length (enc w) = width"
    and dec_enc: "dec (enc w) = w"
    and enc_dec: "length bs = width \<Longrightarrow> enc (dec bs) = bs"
begin

lemma enc_inj: "enc v = enc w \<longleftrightarrow> v = w"
  by (metis dec_enc)

lemma dec_inj: "length xs = width \<Longrightarrow> length ys = width \<Longrightarrow> dec xs = dec ys \<longleftrightarrow> xs = ys"
  by (metis enc_dec)

text \<open>Copying a whole object into another makes it equal; a shorter copy sets its low bytes only.\<close>

lemma memcpy_object: "dec (memcpy (enc v) (enc w) width) = w"
  using memcpy_all [of "enc w" "enc v"] by (simp add: enc_length dec_enc)

lemma enc_memcpy:
  assumes "n \<le> length src" and "n \<le> width"
  shows "enc (dec (memcpy (enc v) src n)) = take n src @ drop n (enc v)"
proof -
  have "length (memcpy (enc v) src n) = width" using assms by (simp add: enc_length)
  then show ?thesis by (simp add: enc_dec) (simp add: memcpy_def)
qed

end

interpretation c32: le_codec "le_bytes 4 :: u32 \<Rightarrow> byte list" le_word 4
  by unfold_locales (simp_all add: byte_simps take_bit_word_eq_self)

interpretation c64: le_codec "le_bytes 8 :: u64 \<Rightarrow> byte list" le_word 8
  by unfold_locales (simp_all add: byte_simps take_bit_word_eq_self)

section \<open>Callback tables\<close>

text \<open>
  The handlers keep their callbacks in \<^verbatim>\<open>std::unordered_map\<close>s and register with
  \<^verbatim>\<open>m[key] = std::move(cb)\<close>: the last registration for a key is the one a lookup finds.
\<close>

locale callback_table =
  fixes reg :: "'k \<Rightarrow> 'c \<Rightarrow> 'h \<Rightarrow> 'h"
    and look :: "'h \<Rightarrow> 'k \<rightharpoonup> 'c"
  assumes look_reg: "look (reg k c h) = (look h)(k \<mapsto> c)"
begin

lemma look_reg_same: "look (reg k c h) k = Some c"
  by (simp add: look_reg)

lemma look_reg_other: "k' \<noteq> k \<Longrightarrow> look (reg k c h) k' = look h k'"
  by (simp add: look_reg)

lemma look_reg_twice: "look (reg k c (reg k c' h)) = look (reg k c h)"
  by (simp add: look_reg)

lemma look_reg_commute: "k \<noteq> k' \<Longrightarrow> look (reg k c (reg k' c' h)) = look (reg k' c' (reg k c h))"
  by (simp add: look_reg fun_upd_twist)

lemma look_reg_all: "look (fold (\<lambda>(k, c). reg k c) kcs h) = look h ++ map_of (rev kcs)"
proof (induction kcs arbitrary: h)
  case (Cons kc kcs)
  then show ?case by (cases kc) (simp add: look_reg fun_eq_iff map_add_def split: option.splits)
qed simp

end

text \<open>Two tables in one object, as the I/O, MMIO and MSR handlers have, do not disturb each other.\<close>

locale rw_tables =
  rd: callback_table regR lookR + wr: callback_table regW lookW
  for regR :: "'k \<Rightarrow> 'c \<Rightarrow> 'h \<Rightarrow> 'h" and lookR :: "'h \<Rightarrow> 'k \<rightharpoonup> 'c"
    and regW :: "'k \<Rightarrow> 'd \<Rightarrow> 'h \<Rightarrow> 'h" and lookW :: "'h \<Rightarrow> 'k \<rightharpoonup> 'd" +
  assumes lookR_regW: "lookR (regW k d h) = lookR h"
    and lookW_regR: "lookW (regR k c h) = lookW h"
begin

text \<open>Any interleaving of registrations ends in the tables the two subsequences build alone.\<close>

lemma look_interleaved:
  defines "step \<equiv> (\<lambda>r. case r of Inl (k, c) \<Rightarrow> regR k c | Inr (k, d) \<Rightarrow> regW k d)"
  shows "lookR (fold step rs h) = lookR h ++ map_of (rev [kc. Inl kc \<leftarrow> rs])"
    and "lookW (fold step rs h) = lookW h ++ map_of (rev [kd. Inr kd \<leftarrow> rs])"
proof (induction rs arbitrary: h)
  case (Cons r rs)
  {
    case 1
    show ?case using Cons.IH(1)
      by (cases r) (auto simp: step_def lookR_regW rd.look_reg fun_eq_iff map_add_def
          split: option.splits)
  next
    case 2
    show ?case using Cons.IH(2)
      by (cases r) (auto simp: step_def lookW_regR wr.look_reg fun_eq_iff map_add_def
          split: option.splits)
  }
qed simp_all

end

end
