(* ===== verification/Kvm_Abi.thy ===== *)
theory Kvm_Abi
  imports Hv_Prelude
begin

text \<open>
  The part of the Linux user-space interface that the sources name: the structures and numeric
  constants of \<^verbatim>\<open><linux/kvm.h>\<close> and the \<^verbatim>\<open>errno\<close> values, as that interface documents them. They
  are data only; the kernel's behaviour is a parameter (theory \<open>Host_Kernel\<close>). Padding fields are
  left out. The exit information of \<^verbatim>\<open>struct kvm_run\<close> is a C union of which exactly the member
  that belongs to the exit reason is read: the model keeps the members side by side.
\<close>

section \<open>Error codes\<close>

type_synonym error_code = int

abbreviation (input) ok_code :: error_code where "ok_code \<equiv> 0"

definition EINTR :: int where "EINTR = 4"
definition EBADF :: int where "EBADF = 9"
definition ENOMEM :: int where "ENOMEM = 12"
definition ENONET :: int where "ENONET = 64"
definition ENOTSUP :: int where "ENOTSUP = 95"

lemmas errno_defs = EINTR_def EBADF_def ENOMEM_def ENONET_def ENOTSUP_def

definition MAP_FAILED :: u64 where "MAP_FAILED = - 1"

section \<open>Constants of the KVM interface\<close>

definition KVM_API_VERSION :: int where "KVM_API_VERSION = 12"
definition KVM_EXIT_IO_OUT :: u8 where "KVM_EXIT_IO_OUT = 1"
definition KVM_INTERNAL_ERROR_EMULATION :: u32 where "KVM_INTERNAL_ERROR_EMULATION = 1"
definition KVM_MSR_EXIT_REASON_VALID_MASK :: u32 where "KVM_MSR_EXIT_REASON_VALID_MASK = 7"
definition KVM_MSR_FILTER_READ :: u32 where "KVM_MSR_FILTER_READ = 1"
definition KVM_MSR_FILTER_WRITE :: u32 where "KVM_MSR_FILTER_WRITE = 2"
definition KVM_MSR_FILTER_DEFAULT_ALLOW :: u32 where "KVM_MSR_FILTER_DEFAULT_ALLOW = 0"
definition KVM_MSR_FILTER_MAX_RANGES :: nat where "KVM_MSR_FILTER_MAX_RANGES = 16"
definition KVM_GUESTDBG_ENABLE :: u32 where "KVM_GUESTDBG_ENABLE = 1"
definition KVM_GUESTDBG_SINGLESTEP :: u32 where "KVM_GUESTDBG_SINGLESTEP = 2"
definition KVM_CAP_EXIT_ON_EMULATION_FAILURE :: int where "KVM_CAP_EXIT_ON_EMULATION_FAILURE = 204"

lemmas kvm_consts = KVM_API_VERSION_def KVM_EXIT_IO_OUT_def KVM_INTERNAL_ERROR_EMULATION_def
  KVM_MSR_EXIT_REASON_VALID_MASK_def KVM_MSR_FILTER_READ_def KVM_MSR_FILTER_WRITE_def
  KVM_MSR_FILTER_DEFAULT_ALLOW_def KVM_MSR_FILTER_MAX_RANGES_def KVM_GUESTDBG_ENABLE_def
  KVM_GUESTDBG_SINGLESTEP_def KVM_CAP_EXIT_ON_EMULATION_FAILURE_def

section \<open>Register files\<close>

record kvm_regs =
  rax :: u64
  rbx :: u64
  rcx :: u64
  rdx :: u64
  rsi :: u64
  rdi :: u64
  rsp :: u64
  rbp :: u64
  r8 :: u64
  r9 :: u64
  r10 :: u64
  r11 :: u64
  r12 :: u64
  r13 :: u64
  r14 :: u64
  r15 :: u64
  rip :: u64
  rflags :: u64

definition kvm_regs0 :: kvm_regs where
  "kvm_regs0 = \<lparr>rax = 0, rbx = 0, rcx = 0, rdx = 0, rsi = 0, rdi = 0, rsp = 0, rbp = 0,
     r8 = 0, r9 = 0, r10 = 0, r11 = 0, r12 = 0, r13 = 0, r14 = 0, r15 = 0, rip = 0, rflags = 0\<rparr>"

record kvm_segment =
  seg_base :: u64
  seg_limit :: u32
  seg_selector :: u16
  seg_type :: u8
  seg_present :: u8
  seg_dpl :: u8
  seg_db :: u8
  seg_s :: u8
  seg_l :: u8
  seg_g :: u8
  seg_avl :: u8
  seg_unusable :: u8

definition kvm_segment0 :: kvm_segment where
  "kvm_segment0 = \<lparr>seg_base = 0, seg_limit = 0, seg_selector = 0, seg_type = 0, seg_present = 0,
     seg_dpl = 0, seg_db = 0, seg_s = 0, seg_l = 0, seg_g = 0, seg_avl = 0, seg_unusable = 0\<rparr>"

record kvm_dtable =
  dt_base :: u64
  dt_limit :: u16

record kvm_sregs =
  sr_cs :: kvm_segment
  sr_ds :: kvm_segment
  sr_es :: kvm_segment
  sr_fs :: kvm_segment
  sr_gs :: kvm_segment
  sr_ss :: kvm_segment
  sr_tr :: kvm_segment
  sr_ldt :: kvm_segment
  sr_gdt :: kvm_dtable
  sr_idt :: kvm_dtable
  sr_cr0 :: u64
  sr_cr2 :: u64
  sr_cr3 :: u64
  sr_cr4 :: u64
  sr_cr8 :: u64
  sr_efer :: u64
  sr_apic_base :: u64
  sr_interrupt_bitmap :: "u64 list"

definition kvm_sregs0 :: kvm_sregs where
  "kvm_sregs0 = \<lparr>sr_cs = kvm_segment0, sr_ds = kvm_segment0, sr_es = kvm_segment0,
     sr_fs = kvm_segment0, sr_gs = kvm_segment0, sr_ss = kvm_segment0, sr_tr = kvm_segment0,
     sr_ldt = kvm_segment0, sr_gdt = \<lparr>dt_base = 0, dt_limit = 0\<rparr>,
     sr_idt = \<lparr>dt_base = 0, dt_limit = 0\<rparr>, sr_cr0 = 0, sr_cr2 = 0, sr_cr3 = 0, sr_cr4 = 0,
     sr_cr8 = 0, sr_efer = 0, sr_apic_base = 0, sr_interrupt_bitmap = [0, 0, 0, 0]\<rparr>"

section \<open>The shared \<open>kvm_run\<close> page\<close>

record kvm_io =
  io_direction :: u8
  io_size :: u8
  io_port :: u16
  io_count :: u32
  io_data_offset :: u64

record kvm_mmio =
  mmio_phys_addr :: u64
  mmio_data :: "byte list"
  mmio_len :: u32
  mmio_is_write :: u8

record kvm_msr =
  msr_reason :: u32
  msr_index :: u32
  msr_data :: u64

record kvm_run =
  exit_reason :: u32
  hw_exit_reason :: u64
  run_io :: kvm_io
  run_mmio :: kvm_mmio
  run_msr :: kvm_msr
  internal_suberror :: u32
  run_bytes :: "byte list" \<comment> \<open>the mapping as bytes, which \<^verbatim>\<open>io.data_offset\<close> indexes\<close>

text \<open>\<^verbatim>\<open>mmio.data\<close> is an array of eight bytes.\<close>

definition run_wf :: "kvm_run \<Rightarrow> bool" where
  "run_wf r \<longleftrightarrow> length (mmio_data (run_mmio r)) = 8"

text \<open>
  The bytes of an I/O access that the program transfers, and a page whose I/O data lies inside the
  mapping.
\<close>

definition io_width :: "kvm_run \<Rightarrow> nat" where
  "io_width run = unat (min (io_size (run_io run)) 4)"

lemma io_width_le: "io_width run \<le> 4"
  by (simp add: io_width_def min_def word_le_nat_alt)

definition run_fits :: "kvm_run \<Rightarrow> bool" where
  "run_fits r \<longleftrightarrow> run_wf r \<and> unat (io_data_offset (run_io r)) + io_width r \<le> length (run_bytes r)"

definition kvm_run0 :: kvm_run where
  "kvm_run0 = \<lparr>exit_reason = 0, hw_exit_reason = 0,
     run_io = \<lparr>io_direction = 0, io_size = 0, io_port = 0, io_count = 0, io_data_offset = 0\<rparr>,
     run_mmio = \<lparr>mmio_phys_addr = 0, mmio_data = replicate 8 0, mmio_len = 0, mmio_is_write = 0\<rparr>,
     run_msr = \<lparr>msr_reason = 0, msr_index = 0, msr_data = 0\<rparr>,
     internal_suberror = 0, run_bytes = replicate 16 0\<rparr>"

lemma run_wf_kvm_run0 [simp]: "run_wf kvm_run0"
  by (simp add: run_wf_def kvm_run0_def)

section \<open>Arguments of the ioctl requests\<close>

record kvm_userspace_memory_region =
  umr_slot :: u32
  umr_flags :: u32
  umr_guest_phys_addr :: u64
  umr_memory_size :: u64
  umr_userspace_addr :: u64

record kvm_cpuid_entry2 =
  ce_function :: u32
  ce_index :: u32
  ce_flags :: u32
  ce_eax :: u32
  ce_ebx :: u32
  ce_ecx :: u32
  ce_edx :: u32

record kvm_cpuid2 =
  c2_nent :: u32
  c2_entries :: "kvm_cpuid_entry2 list"

record kvm_msr_filter_range =
  fr_flags :: u32
  fr_nmsrs :: u32
  fr_base :: u32
  fr_bitmap :: "u64 list"

record kvm_msr_filter =
  mf_flags :: u32
  mf_ranges :: "kvm_msr_filter_range list" \<comment> \<open>the ranges written; the rest are zero\<close>

datatype kvm_request =
    KVM_GET_API_VERSION
  | KVM_CREATE_VM
  | KVM_CHECK_EXTENSION int
  | KVM_GET_VCPU_MMAP_SIZE
  | KVM_SET_USER_MEMORY_REGION kvm_userspace_memory_region
  | KVM_CREATE_VCPU u64
  | KVM_RUN
  | KVM_SET_REGS kvm_regs
  | KVM_SET_SREGS kvm_sregs
  | KVM_SET_GUEST_DEBUG u32
  | KVM_SET_CPUID2 kvm_cpuid2
  | KVM_IRQ_LINE u32 u32
  | KVM_CREATE_IRQCHIP
  | KVM_CREATE_PIT2 u32
  | KVM_ENABLE_CAP int u64
  | KVM_X86_SET_MSR_FILTER kvm_msr_filter

end
