(* ===== verification/Host_Kernel.thy ===== *)
theory Host_Kernel
  imports Kvm_Abi
begin

text \<open>
  The world the hypervisor runs in. \<open>'k host\<close> is what the process can see and change: \<^verbatim>\<open>errno\<close>,
  the anonymous mappings (guest RAM, by the address \<^verbatim>\<open>mmap\<close> returned), the mapped \<^verbatim>\<open>kvm_run\<close>
  pages, and the kernel's own state of the arbitrary type \<open>'k\<close>. The system calls, the KVM ioctls,
  the clock, the CPU's CPUID instruction and the file system are not part of the sources: they are
  the record \<open>'k kernel\<close> of arbitrary functions, an argument of every definition that calls them.
  What a theorem needs of them is one of the predicates below, each a documented behaviour. As in C,
  a failing call returns a negative number (or \<^const>\<open>MAP_FAILED\<close>) and leaves its reason in
  \<^verbatim>\<open>errno\<close>.
\<close>

section \<open>Host state\<close>

record 'k host =
  h_errno :: int
  h_heap :: "u64 \<rightharpoonup> byte list"
  h_runs :: "u64 \<rightharpoonup> kvm_run"
  h_kern :: 'k

record 'k kernel =
  sys_open :: "string \<Rightarrow> 'k host \<Rightarrow> int \<times> 'k host"
  sys_close :: "int \<Rightarrow> 'k host \<Rightarrow> int \<times> 'k host"
  sys_mmap :: "u64 \<Rightarrow> 'k host \<Rightarrow> u64 \<times> 'k host"
  sys_mmap_vcpu :: "int \<Rightarrow> u64 \<Rightarrow> 'k host \<Rightarrow> u64 \<times> 'k host"
  sys_munmap :: "u64 \<Rightarrow> u64 \<Rightarrow> 'k host \<Rightarrow> int \<times> 'k host"
  sys_madvise :: "u64 \<Rightarrow> u64 \<Rightarrow> 'k host \<Rightarrow> int \<times> 'k host"
  sys_ioctl :: "int \<Rightarrow> kvm_request \<Rightarrow> 'k host \<Rightarrow> int \<times> 'k host"
  sys_get_regs :: "int \<Rightarrow> 'k host \<Rightarrow> int \<times> kvm_regs \<times> 'k host"
  sys_get_sregs :: "int \<Rightarrow> 'k host \<Rightarrow> int \<times> kvm_sregs \<times> 'k host"
  clock_now :: "'k host \<Rightarrow> int \<times> 'k host"
  cpu_cpuid :: "u32 \<Rightarrow> u32 \<Rightarrow> 'k host \<Rightarrow> u32 \<times> u32 \<times> u32 \<times> u32"
  file_bytes :: "string \<Rightarrow> 'k host \<Rightarrow> byte list option" \<comment> \<open>\<^const>\<open>None\<close>: the file cannot be opened\<close>

text \<open>
  The environment of the callbacks the hypervisor calls: the host and the application's own objects.
\<close>

record ('k, 'a) env =
  e_host :: "'k host"
  e_app :: 'a

definition on_host :: "('k host \<Rightarrow> 'r \<times> 'k host) \<Rightarrow> ('k, 'a) env \<Rightarrow> 'r \<times> ('k, 'a) env" where
  "on_host f e = (let (r, h) = f (e_host e) in (r, e\<lparr>e_host := h\<rparr>))"

text \<open>
  A handler gets the \<^verbatim>\<open>kvm_run\<close> page by reference, here by its address, and may write to it. Its
  header fields and the data area that \<^verbatim>\<open>io.data_offset\<close> points to are disjoint parts of the page.
\<close>

definition set_run :: "u64 \<Rightarrow> kvm_run \<Rightarrow> ('k, 'a) env \<Rightarrow> ('k, 'a) env" where
  "set_run p r e = e\<lparr>e_host := (e_host e)\<lparr>h_runs := (h_runs (e_host e))(p \<mapsto> r)\<rparr>\<rparr>"

lemma set_run_simps [simp]:
  "e_app (set_run p r e) = e_app e"
  "h_runs (e_host (set_run p r e)) = (h_runs (e_host e))(p \<mapsto> r)"
  "h_heap (e_host (set_run p r e)) = h_heap (e_host e)"
  "h_errno (e_host (set_run p r e)) = h_errno (e_host e)"
  "h_kern (e_host (set_run p r e)) = h_kern (e_host e)"
  by (simp_all add: set_run_def)

lemma on_hostD:
  assumes "on_host f e = (r, e')"
  shows "f (e_host e) = (r, e_host e')" and "e_app e' = e_app e"
  using assms by (auto simp: on_host_def split: prod.splits)

section \<open>Mapped memory\<close>

definition block :: "'k host \<Rightarrow> u64 \<Rightarrow> byte list" where
  "block h p = (case h_heap h p of None \<Rightarrow> [] | Some b \<Rightarrow> b)"

definition heap_load :: "'k host \<Rightarrow> u64 \<Rightarrow> nat \<Rightarrow> nat \<Rightarrow> byte list option" where
  "heap_load h p off n = load_at (block h p) off n"

definition heap_store :: "'k host \<Rightarrow> u64 \<Rightarrow> nat \<Rightarrow> byte list \<Rightarrow> 'k host option" where
  "heap_store h p off bs =
     map_option (\<lambda>b. h\<lparr>h_heap := (h_heap h)(p := map_option (\<lambda>_. b) (h_heap h p))\<rparr>)
       (store_at (block h p) off bs)"

lemma heap_store_block:
  assumes "heap_store h p off bs = Some h'"
  shows "store_at (block h p) off bs = Some (block h' p)"
    and "q \<noteq> p \<Longrightarrow> h_heap h' q = h_heap h q"
    and "h_runs h' = h_runs h" and "h_kern h' = h_kern h" and "h_errno h' = h_errno h"
  using assms
  by (auto simp: heap_store_def block_def store_at_def split: option.splits if_splits)

interpretation hb: byte_store "\<lambda>h. heap_load h p" "\<lambda>h. heap_store h p" "\<lambda>h. length (block h p)"
  for p
proof unfold_locales
  fix b :: "'a host" and off n bs i
  assume "heap_load b p off n = Some bs" and "i < n"
  then show "heap_load b p (off + i) (Suc 0) = Some [bs ! i]"
    by (simp add: heap_load_def blk.ld_nth)
next
  fix b :: "'a host" and off bs b' i
  assume "heap_store b p off bs = Some b'" and "i < length (block b p)"
  then show "heap_load b' p i (Suc 0) =
      (if off \<le> i \<and> i < off + length bs then Some [bs ! (i - off)] else heap_load b p i (Suc 0))"
    by (simp add: heap_load_def blk.st_byte [OF heap_store_block(1)])
next
  fix b :: "'a host" and off bs b'
  assume "heap_store b p off bs = Some b'"
  then show "length (block b' p) = length (block b p)"
    by (rule store_at_length [OF heap_store_block(1)])
next
  fix b :: "'a host" and off bs
  show "(\<exists>b'. heap_store b p off bs = Some b') \<longleftrightarrow> off + length bs \<le> length (block b p)"
    using blk.st_iff [of "block b p" off bs] by (auto simp: heap_store_def)
qed (simp_all add: heap_load_def blk.ld_iff blk.ld_length)

section \<open>What \<open>KVM_GET_REGS\<close> and \<open>KVM_GET_SREGS\<close> would report\<close>

definition kregs :: "'k kernel \<Rightarrow> int \<Rightarrow> 'k host \<Rightarrow> kvm_regs option" where
  "kregs K fd h = (case sys_get_regs K fd h of (rc, r, _) \<Rightarrow> if rc < 0 then None else Some r)"

definition ksregs :: "'k kernel \<Rightarrow> int \<Rightarrow> 'k host \<Rightarrow> kvm_sregs option" where
  "ksregs K fd h = (case sys_get_sregs K fd h of (rc, r, _) \<Rightarrow> if rc < 0 then None else Some r)"

section \<open>Documented behaviour, as named hypotheses\<close>

text \<open>
  Reading a register file changes neither register file nor any mapping.
\<close>

definition get_frame :: "'k kernel \<Rightarrow> bool" where
  "get_frame K \<longleftrightarrow>
     (\<forall>fd h rc r h'. sys_get_regs K fd h = (rc, r, h') \<longrightarrow>
        h_heap h' = h_heap h \<and> h_runs h' = h_runs h \<and>
        (\<forall>fd'. kregs K fd' h' = kregs K fd' h \<and> ksregs K fd' h' = ksregs K fd' h)) \<and>
     (\<forall>fd h rc r h'. sys_get_sregs K fd h = (rc, r, h') \<longrightarrow>
        h_heap h' = h_heap h \<and> h_runs h' = h_runs h \<and>
        (\<forall>fd'. kregs K fd' h' = kregs K fd' h \<and> ksregs K fd' h' = ksregs K fd' h))"

text \<open>
  A successful \<^verbatim>\<open>KVM_SET_REGS\<close> (\<^verbatim>\<open>KVM_SET_SREGS\<close>) is seen by the next \<^verbatim>\<open>KVM_GET_REGS\<close>
  (\<^verbatim>\<open>KVM_GET_SREGS\<close>) and leaves the other register file and the mappings alone. Bit 1 of
  \<^verbatim>\<open>rflags\<close> is always set on x86; the law is about register values that have it set.
\<close>

definition set_regs_law :: "'k kernel \<Rightarrow> bool" where
  "set_regs_law K \<longleftrightarrow>
     (\<forall>fd r h rc h'. sys_ioctl K fd (KVM_SET_REGS r) h = (rc, h') \<longrightarrow>
        h_heap h' = h_heap h \<and> h_runs h' = h_runs h \<and> ksregs K fd h' = ksregs K fd h \<and>
        (0 \<le> rc \<longrightarrow> bit (rflags r) 1 \<longrightarrow> kregs K fd h' = Some r))"

definition set_sregs_law :: "'k kernel \<Rightarrow> bool" where
  "set_sregs_law K \<longleftrightarrow>
     (\<forall>fd r h rc h'. sys_ioctl K fd (KVM_SET_SREGS r) h = (rc, h') \<longrightarrow>
        h_heap h' = h_heap h \<and> h_runs h' = h_runs h \<and> kregs K fd h' = kregs K fd h \<and>
        (0 \<le> rc \<longrightarrow> ksregs K fd h' = Some r))"

text \<open>
  An anonymous mapping is fresh, zero-filled and not at address 0; a failed one changes nothing.
  Advice does not change contents. Unmapping a whole mapping removes it and only it.
\<close>

definition mmap_law :: "'k kernel \<Rightarrow> bool" where
  "mmap_law K \<longleftrightarrow>
     (\<forall>n h p h'. sys_mmap K n h = (p, h') \<longrightarrow>
        h_runs h' = h_runs h \<and>
        (if p = MAP_FAILED then h_heap h' = h_heap h
         else p \<noteq> 0 \<and> h_heap h p = None \<and> h_heap h' = (h_heap h)(p \<mapsto> replicate (unat n) 0)))"

definition madvise_law :: "'k kernel \<Rightarrow> bool" where
  "madvise_law K \<longleftrightarrow>
     (\<forall>p n h rc h'. sys_madvise K p n h = (rc, h') \<longrightarrow> h_heap h' = h_heap h \<and> h_runs h' = h_runs h)"

definition munmap_law :: "'k kernel \<Rightarrow> bool" where
  "munmap_law K \<longleftrightarrow>
     (\<forall>p n h rc h' b. sys_munmap K p n h = (rc, h') \<longrightarrow> h_heap h p = Some b \<longrightarrow>
        length b = unat n \<longrightarrow> h_heap h' = (h_heap h)(p := None) \<and> h_runs h' = h_runs h) \<and>
     (\<forall>p n h rc h'. sys_munmap K p n h = (rc, h') \<longrightarrow> h_heap h p = None \<longrightarrow> h_heap h' = h_heap h)"

text \<open>Only running the guest changes mappings: every other request leaves them alone.\<close>

definition ioctl_frame :: "'k kernel \<Rightarrow> bool" where
  "ioctl_frame K \<longleftrightarrow>
     (\<forall>fd q h rc h'. sys_ioctl K fd q h = (rc, h') \<longrightarrow> q \<noteq> KVM_RUN \<longrightarrow>
        h_heap h' = h_heap h \<and> h_runs h' = h_runs h)"

text \<open>Closing a descriptor does not unmap anything.\<close>

definition close_frame :: "'k kernel \<Rightarrow> bool" where
  "close_frame K \<longleftrightarrow>
     (\<forall>fd h rc h'. sys_close K fd h = (rc, h') \<longrightarrow> h_heap h' = h_heap h \<and> h_runs h' = h_runs h)"

text \<open>
  The process's descriptor table \<open>F\<close>: \<^verbatim>\<open>open\<close> and the two creating requests return a descriptor that
  was not in use, \<^verbatim>\<open>close\<close> frees one (whatever it returns), nothing else changes the table, and a
  request on a descriptor that is not in it fails.
\<close>

definition creates_fd :: "kvm_request \<Rightarrow> bool" where
  "creates_fd q \<longleftrightarrow> (case q of KVM_CREATE_VM \<Rightarrow> True | KVM_CREATE_VCPU _ \<Rightarrow> True | _ \<Rightarrow> False)"

definition fd_open_law :: "'k kernel \<Rightarrow> ('k host \<Rightarrow> int set) \<Rightarrow> bool" where
  "fd_open_law K F \<longleftrightarrow>
     (\<forall>path h fd h'. sys_open K path h = (fd, h') \<longrightarrow>
        (if fd < 0 then F h' = F h else fd \<notin> F h \<and> F h' = insert fd (F h)))"

definition fd_close_law :: "'k kernel \<Rightarrow> ('k host \<Rightarrow> int set) \<Rightarrow> bool" where
  "fd_close_law K F \<longleftrightarrow> (\<forall>fd h rc h'. sys_close K fd h = (rc, h') \<longrightarrow> F h' = F h - {fd})"

definition fd_ioctl_law :: "'k kernel \<Rightarrow> ('k host \<Rightarrow> int set) \<Rightarrow> bool" where
  "fd_ioctl_law K F \<longleftrightarrow>
     (\<forall>fd q h rc h'. sys_ioctl K fd q h = (rc, h') \<longrightarrow>
        (fd \<notin> F h \<longrightarrow> rc < 0) \<and>
        (if creates_fd q \<and> 0 \<le> rc then rc \<notin> F h \<and> F h' = insert rc (F h) else F h' = F h))"

definition fd_map_law :: "'k kernel \<Rightarrow> ('k host \<Rightarrow> int set) \<Rightarrow> bool" where
  "fd_map_law K F \<longleftrightarrow>
     (\<forall>fd n h p h'. sys_mmap_vcpu K fd n h = (p, h') \<longrightarrow> F h' = F h) \<and>
     (\<forall>p n h rc h'. sys_munmap K p n h = (rc, h') \<longrightarrow> F h' = F h)"

definition fd_law :: "'k kernel \<Rightarrow> ('k host \<Rightarrow> int set) \<Rightarrow> bool" where
  "fd_law K F \<longleftrightarrow> fd_open_law K F \<and> fd_close_law K F \<and> fd_ioctl_law K F \<and> fd_map_law K F"

text \<open>
  Nothing else opens or closes a descriptor: not the calls that read the clock, read registers or
  map memory, and not a write of the process to its own mappings.
\<close>

definition fd_frame :: "'k kernel \<Rightarrow> ('k host \<Rightarrow> int set) \<Rightarrow> bool" where
  "fd_frame K F \<longleftrightarrow>
     (\<forall>h now h'. clock_now K h = (now, h') \<longrightarrow> F h' = F h) \<and>
     (\<forall>fd h rc r h'. sys_get_regs K fd h = (rc, r, h') \<longrightarrow> F h' = F h) \<and>
     (\<forall>fd h rc r h'. sys_get_sregs K fd h = (rc, r, h') \<longrightarrow> F h' = F h) \<and>
     (\<forall>n h p h'. sys_mmap K n h = (p, h') \<longrightarrow> F h' = F h) \<and>
     (\<forall>p n h rc h'. sys_madvise K p n h = (rc, h') \<longrightarrow> F h' = F h) \<and>
     (\<forall>h m. F (h\<lparr>h_heap := m\<rparr>) = F h) \<and> (\<forall>h m. F (h\<lparr>h_runs := m\<rparr>) = F h)"

text \<open>
  The \<^verbatim>\<open>kvm_run\<close> pages: mapping one gives an address where nothing is mapped, unmapping it
  removes it and only it, running the guest maps and unmaps none, memory is never mapped over one,
  and opening a file maps nothing.
\<close>

definition page_law :: "'k kernel \<Rightarrow> bool" where
  "page_law K \<longleftrightarrow>
     (\<forall>fd n h p h'. sys_mmap_vcpu K fd n h = (p, h') \<longrightarrow>
        (if p = MAP_FAILED then dom (h_runs h') = dom (h_runs h)
         else p \<noteq> 0 \<and> h_heap h p = None \<and> h_runs h p = None \<and> dom (h_runs h') = insert p (dom (h_runs h)))) \<and>
     (\<forall>p n h rc h'. sys_munmap K p n h = (rc, h') \<longrightarrow> h_heap h p = None \<longrightarrow>
        dom (h_runs h') = dom (h_runs h) - {p}) \<and>
     (\<forall>fd h rc h'. sys_ioctl K fd KVM_RUN h = (rc, h') \<longrightarrow> dom (h_runs h') = dom (h_runs h)) \<and>
     (\<forall>n h p h'. sys_mmap K n h = (p, h') \<longrightarrow> p \<noteq> MAP_FAILED \<longrightarrow> h_runs h p = None) \<and>
     (\<forall>path h fd h'. sys_open K path h = (fd, h') \<longrightarrow> h_heap h' = h_heap h \<and> h_runs h' = h_runs h)"

text \<open>
  A failing ioctl leaves a nonzero \<^verbatim>\<open>errno\<close>, so a reported code \<^term>\<open>ok_code\<close> means success.
\<close>

definition errno_law :: "'k kernel \<Rightarrow> bool" where
  "errno_law K \<longleftrightarrow> (\<forall>fd q h rc h'. sys_ioctl K fd q h = (rc, h') \<longrightarrow> rc < 0 \<longrightarrow> h_errno h' \<noteq> 0)"

definition get_errno_law :: "'k kernel \<Rightarrow> bool" where
  "get_errno_law K \<longleftrightarrow>
     (\<forall>fd h rc r h'. sys_get_regs K fd h = (rc, r, h') \<longrightarrow> rc < 0 \<longrightarrow> h_errno h' \<noteq> 0) \<and>
     (\<forall>fd h rc r h'. sys_get_sregs K fd h = (rc, r, h') \<longrightarrow> rc < 0 \<longrightarrow> h_errno h' \<noteq> 0)"

text \<open>
  Running the guest leaves a well-formed exit in a mapped \<^verbatim>\<open>kvm_run\<close> page, its I/O data inside the
  mapping, and may write guest memory, but maps and unmaps nothing. Reading the clock changes no mapping and no register.
\<close>

definition page_ready :: "u64 \<Rightarrow> 'k host \<Rightarrow> bool" where
  "page_ready p h \<longleftrightarrow> (\<exists>r. h_runs h p = Some r \<and> run_fits r)"

text \<open>Which addresses are mapped, with the sizes of the mappings.\<close>

definition heap_shape :: "'k host \<Rightarrow> u64 \<rightharpoonup> nat" where
  "heap_shape h = (\<lambda>p. map_option length (h_heap h p))"

definition run_law :: "'k kernel \<Rightarrow> bool" where
  "run_law K \<longleftrightarrow>
     (\<forall>fd h rc h'. sys_ioctl K fd KVM_RUN h = (rc, h') \<longrightarrow>
        heap_shape h' = heap_shape h \<and> (\<forall>p. page_ready p h \<longrightarrow> page_ready p h'))"

definition clock_frame :: "'k kernel \<Rightarrow> bool" where
  "clock_frame K \<longleftrightarrow>
     (\<forall>h now h'. clock_now K h = (now, h') \<longrightarrow>
        h_heap h' = h_heap h \<and> h_runs h' = h_runs h \<and>
        (\<forall>fd. kregs K fd h' = kregs K fd h \<and> ksregs K fd h' = ksregs K fd h))"

text \<open>
  Mapping a vCPU's page adds a \<^verbatim>\<open>kvm_run\<close> page and touches no guest memory; a failing \<^verbatim>\<open>mmap\<close> leaves a
  nonzero \<^verbatim>\<open>errno\<close>.
\<close>

definition mapping_law :: "'k kernel \<Rightarrow> bool" where
  "mapping_law K \<longleftrightarrow>
     (\<forall>fd n h p h'. sys_mmap_vcpu K fd n h = (p, h') \<longrightarrow> h_heap h' = h_heap h \<and>
        (if p = MAP_FAILED then h_errno h' \<noteq> 0 else page_ready p h')) \<and>
     (\<forall>n h h'. sys_mmap K n h = (MAP_FAILED, h') \<longrightarrow> h_errno h' \<noteq> 0)"

text \<open>The guest's registers are the kernel's: a process writing to its mappings does not change them.\<close>

definition regs_not_in_heap :: "'k kernel \<Rightarrow> bool" where
  "regs_not_in_heap K \<longleftrightarrow>
     (\<forall>fd h m. kregs K fd (h\<lparr>h_heap := m\<rparr>) = kregs K fd h \<and> ksregs K fd (h\<lparr>h_heap := m\<rparr>) = ksregs K fd h)"

definition mem_laws :: "'k kernel \<Rightarrow> bool" where
  "mem_laws K \<longleftrightarrow> mmap_law K \<and> madvise_law K \<and> munmap_law K \<and> ioctl_frame K \<and> close_frame K"

definition reg_laws :: "'k kernel \<Rightarrow> bool" where
  "reg_laws K \<longleftrightarrow> get_frame K \<and> set_regs_law K \<and> set_sregs_law K \<and> regs_not_in_heap K"

lemmas kernel_laws = close_frame_def regs_not_in_heap_def get_frame_def set_regs_law_def set_sregs_law_def mmap_law_def madvise_law_def
  munmap_law_def ioctl_frame_def mem_laws_def reg_laws_def

lemma heap_shape_cong: "h_heap h' = h_heap h \<Longrightarrow> heap_shape h' = heap_shape h"
  by (simp add: heap_shape_def)

lemma heap_shape_store:
  assumes "heap_store h p off bs = Some h'"
  shows "heap_shape h' = heap_shape h"
  using assms by (auto simp: heap_store_def heap_shape_def store_at_def block_def split: option.splits if_splits)

lemma get_regs_frameD:
  assumes "reg_laws K" and "sys_get_regs K fd h = (rc, r, h')"
  shows "h_heap h' = h_heap h" and "h_runs h' = h_runs h"
    and "kregs K fd' h' = kregs K fd' h" and "ksregs K fd' h' = ksregs K fd' h"
  using assms unfolding reg_laws_def get_frame_def by blast+

lemma get_sregs_frameD:
  assumes "reg_laws K" and "sys_get_sregs K fd h = (rc, r, h')"
  shows "h_heap h' = h_heap h" and "h_runs h' = h_runs h"
    and "kregs K fd' h' = kregs K fd' h" and "ksregs K fd' h' = ksregs K fd' h"
  using assms unfolding reg_laws_def get_frame_def by blast+

lemma set_regsD:
  assumes "reg_laws K" and "sys_ioctl K fd (KVM_SET_REGS r) h = (rc, h')"
  shows "h_heap h' = h_heap h" and "h_runs h' = h_runs h" and "ksregs K fd h' = ksregs K fd h"
    and "0 \<le> rc \<Longrightarrow> bit (rflags r) 1 \<Longrightarrow> kregs K fd h' = Some r"
  using assms unfolding reg_laws_def set_regs_law_def by blast+

lemma set_sregsD:
  assumes "reg_laws K" and "sys_ioctl K fd (KVM_SET_SREGS r) h = (rc, h')"
  shows "h_heap h' = h_heap h" and "h_runs h' = h_runs h" and "kregs K fd h' = kregs K fd h"
    and "0 \<le> rc \<Longrightarrow> ksregs K fd h' = Some r"
  using assms unfolding reg_laws_def set_sregs_law_def by blast+

lemma heap_store_regs:
  assumes "reg_laws K" and "heap_store h p off bs = Some h'"
  shows "kregs K fd h' = kregs K fd h" and "ksregs K fd h' = ksregs K fd h"
  using assms by (auto simp: heap_store_def reg_laws_def regs_not_in_heap_def)

lemma mmapD:
  assumes "mem_laws K" and "sys_mmap K n h = (p, h')"
  shows "h_runs h' = h_runs h"
    and "p = MAP_FAILED \<Longrightarrow> h_heap h' = h_heap h"
    and "p \<noteq> MAP_FAILED \<Longrightarrow> p \<noteq> 0"
    and "p \<noteq> MAP_FAILED \<Longrightarrow> h_heap h p = None"
    and "p \<noteq> MAP_FAILED \<Longrightarrow> h_heap h' = (h_heap h)(p \<mapsto> replicate (unat n) 0)"
  using assms unfolding mem_laws_def mmap_law_def by (simp_all split: if_splits)

lemma madviseD:
  assumes "mem_laws K" and "sys_madvise K p n h = (rc, h')"
  shows "h_heap h' = h_heap h" and "h_runs h' = h_runs h"
  using assms unfolding mem_laws_def madvise_law_def by blast+

lemma munmapD:
  assumes "mem_laws K" and "sys_munmap K p n h = (rc, h')"
    and "h_heap h p = Some b" and "length b = unat n"
  shows "h_heap h' = (h_heap h)(p := None)" and "h_runs h' = h_runs h"
  using assms unfolding mem_laws_def munmap_law_def by blast+

lemma ioctlD:
  assumes "mem_laws K" and "sys_ioctl K fd q h = (rc, h')" and "q \<noteq> KVM_RUN"
  shows "h_heap h' = h_heap h" and "h_runs h' = h_runs h"
  using assms unfolding mem_laws_def ioctl_frame_def by blast+

lemma munmap_noneD:
  assumes "mem_laws K" and "sys_munmap K p n h = (rc, h')" and "h_heap h p = None"
  shows "h_heap h' = h_heap h"
  using assms unfolding mem_laws_def munmap_law_def by blast

lemma closeD:
  assumes "mem_laws K" and "sys_close K fd h = (rc, h')"
  shows "h_heap h' = h_heap h" and "h_runs h' = h_runs h"
  using assms unfolding mem_laws_def close_frame_def by blast+

lemma fd_openD:
  assumes "fd_law K F" and "sys_open K path h = (fd, h')"
  shows "fd < 0 \<Longrightarrow> F h' = F h" and "\<not> fd < 0 \<Longrightarrow> fd \<notin> F h" and "\<not> fd < 0 \<Longrightarrow> F h' = insert fd (F h)"
proof -
  have "fd_open_law K F" using assms(1) by (simp add: fd_law_def)
  from this [unfolded fd_open_law_def, rule_format, OF assms(2)]
  show "fd < 0 \<Longrightarrow> F h' = F h" and "\<not> fd < 0 \<Longrightarrow> fd \<notin> F h" and "\<not> fd < 0 \<Longrightarrow> F h' = insert fd (F h)"
    by simp_all
qed

lemma fd_closeD:
  assumes "fd_law K F" and "sys_close K fd h = (rc, h')"
  shows "F h' = F h - {fd}"
proof -
  have "fd_close_law K F" using assms(1) by (simp add: fd_law_def)
  from this [unfolded fd_close_law_def, rule_format, OF assms(2)] show ?thesis .
qed

lemma fd_ioctlD:
  assumes "fd_law K F" and "sys_ioctl K fd q h = (rc, h')"
  shows "fd \<notin> F h \<Longrightarrow> rc < 0"
    and "\<not> creates_fd q \<Longrightarrow> F h' = F h" and "rc < 0 \<Longrightarrow> F h' = F h"
    and "creates_fd q \<Longrightarrow> \<not> rc < 0 \<Longrightarrow> rc \<notin> F h" and "creates_fd q \<Longrightarrow> \<not> rc < 0 \<Longrightarrow> F h' = insert rc (F h)"
proof -
  have "fd_ioctl_law K F" using assms(1) by (simp add: fd_law_def)
  note this [unfolded fd_ioctl_law_def, rule_format, OF assms(2)]
  then show "fd \<notin> F h \<Longrightarrow> rc < 0"
    and "\<not> creates_fd q \<Longrightarrow> F h' = F h" and "rc < 0 \<Longrightarrow> F h' = F h"
    and "creates_fd q \<Longrightarrow> \<not> rc < 0 \<Longrightarrow> rc \<notin> F h" and "creates_fd q \<Longrightarrow> \<not> rc < 0 \<Longrightarrow> F h' = insert rc (F h)"
    by simp_all
qed

lemma fd_mapD:
  assumes "fd_law K F"
  shows "sys_mmap_vcpu K fd n h = (p, h') \<Longrightarrow> F h' = F h"
    and "sys_munmap K q n h = (rc, h') \<Longrightarrow> F h' = F h"
proof -
  have "fd_map_law K F" using assms by (simp add: fd_law_def)
  then have m: "\<forall>fd n h p h'. sys_mmap_vcpu K fd n h = (p, h') \<longrightarrow> F h' = F h"
    and u: "\<forall>p n h rc h'. sys_munmap K p n h = (rc, h') \<longrightarrow> F h' = F h"
    unfolding fd_map_law_def by (rule conjunct1, rule conjunct2)
  show "sys_mmap_vcpu K fd n h = (p, h') \<Longrightarrow> F h' = F h" by (rule m [rule_format])
  show "sys_munmap K q n h = (rc, h') \<Longrightarrow> F h' = F h" by (rule u [rule_format])
qed

lemma fd_frameD:
  assumes "fd_frame K F"
  shows "clock_now K h = (now, h') \<Longrightarrow> F h' = F h"
    and "sys_get_regs K fd h = (rc, r, h') \<Longrightarrow> F h' = F h"
    and "sys_get_sregs K fd h = (rc, s, h') \<Longrightarrow> F h' = F h"
    and "sys_mmap K n h = (p, h') \<Longrightarrow> F h' = F h"
    and "sys_madvise K p n h = (rc, h') \<Longrightarrow> F h' = F h"
    and "F (h\<lparr>h_heap := m\<rparr>) = F h" and "F (h\<lparr>h_runs := m'\<rparr>) = F h"
  using assms unfolding fd_frame_def by metis+

lemma page_lawD:
  assumes "page_law K"
  shows "sys_mmap_vcpu K fd n h = (p, h') \<Longrightarrow> p = MAP_FAILED \<Longrightarrow> dom (h_runs h') = dom (h_runs h)"
    and "sys_mmap_vcpu K fd n h = (p, h') \<Longrightarrow> p \<noteq> MAP_FAILED \<Longrightarrow>
      p \<noteq> 0 \<and> h_heap h p = None \<and> h_runs h p = None \<and> dom (h_runs h') = insert p (dom (h_runs h))"
    and "sys_munmap K p n h = (rc, h') \<Longrightarrow> h_heap h p = None \<Longrightarrow> dom (h_runs h') = dom (h_runs h) - {p}"
    and "sys_ioctl K fd KVM_RUN h = (rc, h') \<Longrightarrow> dom (h_runs h') = dom (h_runs h)"
    and "sys_mmap K n h = (p, h') \<Longrightarrow> p \<noteq> MAP_FAILED \<Longrightarrow> h_runs h p = None"
    and "sys_open K path h = (fd, h') \<Longrightarrow> h_heap h' = h_heap h \<and> h_runs h' = h_runs h"
  using assms unfolding page_law_def by metis+

end
