(* ===== verification/Sim_Kernel.thy ===== *)
theory Sim_Kernel
  imports Host_Kernel
begin

text \<open>
  One concrete instance of the kernel parameter, for the closed instances of the theorems: an
  executable kernel with one guest register file, descriptors and mapping addresses handed out in
  order, and a script of guest exits that \<^verbatim>\<open>KVM_RUN\<close> plays. It satisfies every law of theory
  \<open>Host_Kernel\<close>. It models no source file.
\<close>

record sim =
  sim_regs :: kvm_regs
  sim_sregs :: kvm_sregs
  sim_exits :: "(kvm_run \<times> kvm_regs) list"
  sim_run_page :: u64
  sim_next_addr :: u64
  sim_next_fd :: nat
  sim_fds :: "int list"
  sim_time :: int
  sim_cpuid :: "kvm_cpuid2"

definition sim0 :: sim where
  "sim0 = \<lparr>sim_regs = kvm_regs0\<lparr>rflags := 2\<rparr>, sim_sregs = kvm_sregs0, sim_exits = [],
     sim_run_page = 0, sim_next_addr = 0x10000000, sim_next_fd = 3, sim_fds = [], sim_time = 0,
     sim_cpuid = \<lparr>c2_nent = 0, c2_entries = []\<rparr>\<rparr>"

definition sim_host :: "sim \<Rightarrow> sim host" where
  "sim_host s = \<lparr>h_errno = 0, h_heap = Map.empty, h_runs = Map.empty, h_kern = s\<rparr>"

abbreviation set_kern :: "'k \<Rightarrow> 'k host \<Rightarrow> 'k host" where
  "set_kern k h \<equiv> h\<lparr>h_kern := k\<rparr>"

definition sim_new_fd :: "sim host \<Rightarrow> int \<times> sim host" where
  "sim_new_fd h = (let s = h_kern h in
     if int (sim_next_fd s) \<in> set (sim_fds s) then (- 1, h\<lparr>h_errno := 24\<rparr>) else
     (int (sim_next_fd s), set_kern (s\<lparr>sim_next_fd := sim_next_fd s + 1,
        sim_fds := int (sim_next_fd s) # sim_fds s\<rparr>) h))"

definition sim_fail :: "int \<Rightarrow> sim host \<Rightarrow> int \<times> sim host" where
  "sim_fail e h = (- 1, h\<lparr>h_errno := e\<rparr>)"

definition sim_ioctl :: "int \<Rightarrow> kvm_request \<Rightarrow> sim host \<Rightarrow> int \<times> sim host" where
  "sim_ioctl fd q h = (let s = h_kern h in
     if fd \<notin> set (sim_fds s) then sim_fail EBADF h
     else case q of
       KVM_GET_API_VERSION \<Rightarrow> (KVM_API_VERSION, h)
     | KVM_CREATE_VM \<Rightarrow> sim_new_fd h
     | KVM_CHECK_EXTENSION _ \<Rightarrow> (1, h)
     | KVM_GET_VCPU_MMAP_SIZE \<Rightarrow> (16, h)
     | KVM_CREATE_VCPU _ \<Rightarrow> sim_new_fd h
     | KVM_SET_REGS r \<Rightarrow> (0, set_kern (s\<lparr>sim_regs := r\<rparr>) h)
     | KVM_SET_SREGS r \<Rightarrow> (0, set_kern (s\<lparr>sim_sregs := r\<rparr>) h)
     | KVM_SET_CPUID2 c \<Rightarrow> (0, set_kern (s\<lparr>sim_cpuid := c\<rparr>) h)
     | KVM_RUN \<Rightarrow> (case sim_exits s of
           [] \<Rightarrow> sim_fail EINTR h
         | (r, g) # es \<Rightarrow>
             if run_fits r \<and> h_runs h (sim_run_page s) \<noteq> None
             then (0, h\<lparr>h_runs := (h_runs h)(sim_run_page s \<mapsto> r), h_kern := s\<lparr>sim_exits := es, sim_regs := g\<rparr>\<rparr>)
             else sim_fail EINTR h)
     | _ \<Rightarrow> (0, h))"

definition sim_mmap :: "u64 \<Rightarrow> sim host \<Rightarrow> u64 \<times> sim host" where
  "sim_mmap n h = (let s = h_kern h; p = sim_next_addr s in
     if p = 0 \<or> p = MAP_FAILED \<or> h_heap h p \<noteq> None \<or> h_runs h p \<noteq> None then (MAP_FAILED, h\<lparr>h_errno := ENOMEM\<rparr>)
     else (p, h\<lparr>h_heap := (h_heap h)(p \<mapsto> replicate (unat n) 0),
                h_kern := s\<lparr>sim_next_addr := p + 0x10000000\<rparr>\<rparr>))"

definition sim_mmap_vcpu :: "int \<Rightarrow> u64 \<Rightarrow> sim host \<Rightarrow> u64 \<times> sim host" where
  "sim_mmap_vcpu fd n h = (let s = h_kern h; p = sim_next_addr s in
     if p = 0 \<or> p = MAP_FAILED \<or> h_heap h p \<noteq> None \<or> h_runs h p \<noteq> None then (MAP_FAILED, h\<lparr>h_errno := ENOMEM\<rparr>)
     else (p, h\<lparr>h_runs := (h_runs h)(p \<mapsto> kvm_run0),
           h_kern := s\<lparr>sim_next_addr := p + 0x10000000, sim_run_page := p\<rparr>\<rparr>))"

definition sim_munmap :: "u64 \<Rightarrow> u64 \<Rightarrow> sim host \<Rightarrow> int \<times> sim host" where
  "sim_munmap p n h =
     (0, if h_heap h p = None then h\<lparr>h_runs := (h_runs h)(p := None)\<rparr> else h\<lparr>h_heap := (h_heap h)(p := None)\<rparr>)"

definition sim_kernel :: "sim kernel" where
  "sim_kernel =
     \<lparr>sys_open = (\<lambda>path h. sim_new_fd h),
      sys_close = (\<lambda>fd h. (0, set_kern ((h_kern h)\<lparr>sim_fds := removeAll fd (sim_fds (h_kern h))\<rparr>) h)),
      sys_mmap = sim_mmap,
      sys_mmap_vcpu = sim_mmap_vcpu,
      sys_munmap = sim_munmap,
      sys_madvise = (\<lambda>p n h. (0, h)),
      sys_ioctl = sim_ioctl,
      sys_get_regs = (\<lambda>fd h. if fd \<in> set (sim_fds (h_kern h)) then (0, sim_regs (h_kern h), h)
         else (- 1, kvm_regs0, h\<lparr>h_errno := EBADF\<rparr>)),
      sys_get_sregs = (\<lambda>fd h. if fd \<in> set (sim_fds (h_kern h)) then (0, sim_sregs (h_kern h), h)
         else (- 1, kvm_sregs0, h\<lparr>h_errno := EBADF\<rparr>)),
      clock_now = (\<lambda>h. (sim_time (h_kern h),
         set_kern ((h_kern h)\<lparr>sim_time := sim_time (h_kern h) + 1\<rparr>) h)),
      cpu_cpuid = (\<lambda>leaf sub h. (leaf + 0xD, 0x756E6547, 0x80000001, 0x49656E69)),
      file_bytes = (\<lambda>path h. (if path \<in> {''guest.bin'', ''simpleGuest.bin''}
         then Some [0xE4, 0x60, 0x31, 0xC0, 0x0F, 0xA2, 0xF4, 0x00] else None))\<rparr>"

lemma sim_kernel_simps [simp]:
  "sys_open sim_kernel path h = sim_new_fd h"
  "sys_close sim_kernel fd h =
     (0, set_kern ((h_kern h)\<lparr>sim_fds := removeAll fd (sim_fds (h_kern h))\<rparr>) h)"
  "sys_mmap sim_kernel n h = sim_mmap n h"
  "sys_mmap_vcpu sim_kernel fd n h = sim_mmap_vcpu fd n h"
  "sys_munmap sim_kernel p n h = sim_munmap p n h"
  "sys_madvise sim_kernel p n h = (0, h)"
  "sys_ioctl sim_kernel fd q h = sim_ioctl fd q h"
  "sys_get_regs sim_kernel fd h = (if fd \<in> set (sim_fds (h_kern h)) then (0, sim_regs (h_kern h), h)
     else (- 1, kvm_regs0, h\<lparr>h_errno := EBADF\<rparr>))"
  "sys_get_sregs sim_kernel fd h = (if fd \<in> set (sim_fds (h_kern h)) then (0, sim_sregs (h_kern h), h)
     else (- 1, kvm_sregs0, h\<lparr>h_errno := EBADF\<rparr>))"
  "clock_now sim_kernel h = (sim_time (h_kern h),
     set_kern ((h_kern h)\<lparr>sim_time := sim_time (h_kern h) + 1\<rparr>) h)"
  "cpu_cpuid sim_kernel leaf sub h = (leaf + 0xD, 0x756E6547, 0x80000001, 0x49656E69)"
  "file_bytes sim_kernel path h = (if path \<in> {''guest.bin'', ''simpleGuest.bin''}
         then Some [0xE4, 0x60, 0x31, 0xC0, 0x0F, 0xA2, 0xF4, 0x00] else None)"
  by (simp_all add: sim_kernel_def)

lemmas sim_defs = sim_ioctl_def sim_mmap_def sim_mmap_vcpu_def sim_munmap_def sim_new_fd_def
  sim_fail_def Let_def

lemma sim_reg_laws [simp]: "reg_laws sim_kernel"
  by (auto simp: kernel_laws kregs_def ksregs_def sim_defs split: if_splits)

lemma sim_mem_laws [simp]: "mem_laws sim_kernel"
  unfolding mem_laws_def
proof (intro conjI)
  show "mmap_law sim_kernel" by (auto simp: mmap_law_def sim_defs split: if_splits)
  show "madvise_law sim_kernel" by (auto simp: madvise_law_def sim_defs)
  show "munmap_law sim_kernel" by (auto simp: munmap_law_def sim_defs)
  show "close_frame sim_kernel" by (auto simp: close_frame_def sim_defs)
  show "ioctl_frame sim_kernel"
    by (auto simp: ioctl_frame_def sim_defs split: kvm_request.splits if_splits)
qed

lemma sim_run_law [simp]: "run_law sim_kernel"
  by (auto simp: run_law_def page_ready_def heap_shape_def sim_defs split: if_splits list.splits)

lemma sim_clock_frame [simp]: "clock_frame sim_kernel"
  by (auto simp: clock_frame_def kregs_def ksregs_def)

lemma sim_get_errno_law [simp]: "get_errno_law sim_kernel"
  by (auto simp: get_errno_law_def EBADF_def split: if_splits)

lemma sim_mapping_law [simp]: "mapping_law sim_kernel"
  by (auto simp: mapping_law_def page_ready_def run_fits_def run_wf_def io_width_def kvm_run0_def sim_defs errno_defs
      split: if_splits)

lemma sim_errno_law [simp]: "errno_law sim_kernel"
  by (auto simp: errno_law_def sim_defs errno_defs KVM_API_VERSION_def
      split: kvm_request.splits if_splits list.splits)

lemma sim_fd_law [simp]: "fd_law sim_kernel (\<lambda>h. set (sim_fds (h_kern h)))"
  unfolding fd_law_def
proof (intro conjI)
  show "fd_ioctl_law sim_kernel (\<lambda>h. set (sim_fds (h_kern h)))"
    by (auto simp: fd_ioctl_law_def sim_defs creates_fd_def
        split: kvm_request.splits if_splits list.splits)
qed (auto simp: fd_open_law_def fd_close_law_def fd_map_law_def sim_defs split: if_splits)

lemma sim_fd_frame [simp]: "fd_frame sim_kernel (\<lambda>h. set (sim_fds (h_kern h)))"
  by (auto simp: fd_frame_def sim_defs split: if_splits)

lemma sim_page_law [simp]: "page_law sim_kernel"
  unfolding page_law_def
proof (intro conjI)
  show "\<forall>fd h rc h'. sys_ioctl sim_kernel fd KVM_RUN h = (rc, h') \<longrightarrow> dom (h_runs h') = dom (h_runs h)"
    by (auto simp: sim_defs split: if_splits list.splits)
qed (auto simp: sim_defs split: if_splits)

text \<open>
  A process with descriptors 3 (device), 4 (machine) and 5 (vCPU), one mapping of four bytes and one
  \<^verbatim>\<open>kvm_run\<close> page, and a guest that will exit as \<open>exits\<close> says.
\<close>

definition demo_host :: "(kvm_run \<times> kvm_regs) list \<Rightarrow> sim host" where
  "demo_host exits =
     \<lparr>h_errno = 0, h_heap = [0x10000000 \<mapsto> [1, 2, 3, 4]], h_runs = [0x20000000 \<mapsto> kvm_run0],
      h_kern = sim0\<lparr>sim_exits := exits, sim_run_page := 0x20000000, sim_next_addr := 0x30000000,
                    sim_next_fd := 6, sim_fds := [5, 4, 3]\<rparr>\<rparr>"

lemmas demo_host_defs = demo_host_def sim0_def

text \<open>That host with another page in front of the vCPU, and an application state.\<close>

definition demo_env :: "kvm_run \<Rightarrow> 'a \<Rightarrow> (sim, 'a) env" where
  "demo_env run a = \<lparr>e_host = (demo_host [])\<lparr>h_runs := [0x20000000 \<mapsto> run]\<rparr>, e_app = a\<rparr>"

end
