(* ===== verification/Memory_Region.thy ===== *)
theory Memory_Region
  imports Sim_Kernel
begin

text \<open>
  \<^verbatim>\<open>class MemoryRegion\<close> (include/hv/MemoryRegion.h, src/MemoryRegion.cpp): one slot of guest RAM,
  backed by an anonymous mapping of the host. Creation, destruction, move construction and
  assignment, and the byte accessors \<^verbatim>\<open>read\<close> and \<^verbatim>\<open>write\<close>. The interface \<open>raii\<close> states what the
  owning classes of the program promise \<^verbatim>\<open>std::vector\<close> and \<^verbatim>\<open>std::expected\<close> when objects are moved.
\<close>

section \<open>Owning objects\<close>

text \<open>
  A move-only owner of a resource: a moved-from object has nothing to release, and the object
  moved to releases exactly what the source would have.
\<close>

locale raii =
  fixes destroy :: "'o \<Rightarrow> 'w \<Rightarrow> 'w"
    and move :: "'o \<Rightarrow> 'o \<times> 'o" \<comment> \<open>the new object and what is left of the source\<close>
  assumes destroy_moved_from: "destroy (snd (move x)) w = w"
    and destroy_moved_to: "destroy (fst (move x)) w = destroy x w"
begin

text \<open>Returning an owner through a temporary releases nothing and keeps its release.\<close>

lemma destroy_source_then_target:
  "destroy (fst (move x)) (destroy (snd (move x)) w) = destroy x w"
  by (simp add: destroy_moved_from destroy_moved_to)

text \<open>
  Growing a vector moves every element into new storage and destroys the sources: the world does
  not change, and destroying the new vector is destroying the old one.
\<close>

lemma relocate_sources: "fold destroy (map (snd \<circ> move) xs) w = w"
  by (induction xs) (simp_all add: destroy_moved_from)

lemma relocate_targets: "fold destroy (map (fst \<circ> move) xs) w = fold destroy xs w"
  by (induction xs arbitrary: w) (simp_all add: destroy_moved_to)

lemma moved_twice: "destroy (fst (move (fst (move x)))) w = destroy x w"
  by (simp add: destroy_moved_to)

end

section \<open>The class\<close>

record MemoryRegion =
  m_vmFd :: int
  m_slot :: u32
  m_guestPhysAddr :: u64
  m_size :: u64
  m_hostAddr :: u64

definition MemoryRegion_create ::
  "'k kernel \<Rightarrow> int \<Rightarrow> u32 \<Rightarrow> u64 \<Rightarrow> u64 \<Rightarrow> u32 \<Rightarrow> 'k host \<Rightarrow> (error_code + MemoryRegion) \<times> 'k host" where
  "MemoryRegion_create K vm_fd slot guest_phys_addr size_bytes flags h =
     (let (host_name, h1) = sys_mmap K size_bytes h in
      if host_name = MAP_FAILED then (Inl (h_errno h1), h1)
      else
        let (_, h2) = sys_madvise K host_name size_bytes h1;
            region = \<lparr>umr_slot = slot, umr_flags = flags, umr_guest_phys_addr = guest_phys_addr,
                      umr_memory_size = size_bytes, umr_userspace_addr = host_name\<rparr>;
            (rc, h3) = sys_ioctl K vm_fd (KVM_SET_USER_MEMORY_REGION region) h2
        in if rc < 0 then
             let err = h_errno h3; (_, h4) = sys_munmap K host_name size_bytes h3
             in (Inl err, h4)
           else (Inr \<lparr>m_vmFd = vm_fd, m_slot = slot, m_guestPhysAddr = guest_phys_addr,
                      m_size = size_bytes, m_hostAddr = host_name\<rparr>, h3))"

text \<open>Unregister the slot (a region of size 0), then unmap: the destructor's body.\<close>

definition MemoryRegion_release :: "'k kernel \<Rightarrow> MemoryRegion \<Rightarrow> 'k host \<Rightarrow> 'k host" where
  "MemoryRegion_release K r h =
     (if m_hostAddr r \<noteq> 0 \<and> m_hostAddr r \<noteq> MAP_FAILED then
        let region = \<lparr>umr_slot = m_slot r, umr_flags = 0, umr_guest_phys_addr = 0,
                      umr_memory_size = 0, umr_userspace_addr = 0\<rparr>;
            (_, h1) = sys_ioctl K (m_vmFd r) (KVM_SET_USER_MEMORY_REGION region) h;
            (_, h2) = sys_munmap K (m_hostAddr r) (m_size r) h1
        in h2
      else h)"

definition MemoryRegion_move :: "MemoryRegion \<Rightarrow> MemoryRegion \<times> MemoryRegion" where
  "MemoryRegion_move other =
     (\<lparr>m_vmFd = m_vmFd other, m_slot = m_slot other, m_guestPhysAddr = m_guestPhysAddr other,
       m_size = m_size other, m_hostAddr = m_hostAddr other\<rparr>,
      other\<lparr>m_hostAddr := 0\<rparr>)"

text \<open>\<open>self\<close> says that both operands are the same object, the test \<^verbatim>\<open>this != &other\<close>.\<close>

definition MemoryRegion_assign ::
  "'k kernel \<Rightarrow> bool \<Rightarrow> MemoryRegion \<Rightarrow> MemoryRegion \<Rightarrow> 'k host \<Rightarrow> MemoryRegion \<times> MemoryRegion \<times> 'k host" where
  "MemoryRegion_assign K self this other h =
     (if \<not> self then
        let h1 = (if m_hostAddr this \<noteq> 0 \<and> m_hostAddr this \<noteq> MAP_FAILED then
              let region = \<lparr>umr_slot = m_slot this, umr_flags = 0, umr_guest_phys_addr = 0,
                            umr_memory_size = 0, umr_userspace_addr = 0\<rparr>;
                  (_, h') = sys_ioctl K (m_vmFd this) (KVM_SET_USER_MEMORY_REGION region) h;
                  (_, h'') = sys_munmap K (m_hostAddr this) (m_size this) h'
              in h''
            else h)
        in (this\<lparr>m_vmFd := m_vmFd other, m_slot := m_slot other,
                 m_guestPhysAddr := m_guestPhysAddr other, m_size := m_size other,
                 m_hostAddr := m_hostAddr other\<rparr>,
            other\<lparr>m_hostAddr := 0\<rparr>, h1)
      else (this, other, h))"

text \<open>
  The accessors. \<^verbatim>\<open>assert\<close> compares the wrapped 64-bit sum; a failed assertion aborts, an access
  outside the mapping is undefined: both are \<^const>\<open>None\<close>.
\<close>

definition MemoryRegion_write :: "MemoryRegion \<Rightarrow> u64 \<Rightarrow> byte list \<Rightarrow> 'k host \<Rightarrow> 'k host option" where
  "MemoryRegion_write r guest_offset data h =
     (if guest_offset + of_nat (length data) \<le> m_size r
      then heap_store h (m_hostAddr r) (unat guest_offset) data else None)"

definition MemoryRegion_read :: "MemoryRegion \<Rightarrow> u64 \<Rightarrow> nat \<Rightarrow> 'k host \<Rightarrow> byte list option" where
  "MemoryRegion_read r guest_offset n h =
     (if guest_offset + of_nat n \<le> m_size r
      then heap_load h (m_hostAddr r) (unat guest_offset) n else None)"

text \<open>A live region: its mapping exists and has the region's size.\<close>

definition region_live :: "'k host \<Rightarrow> MemoryRegion \<Rightarrow> bool" where
  "region_live h r \<longleftrightarrow> m_hostAddr r \<noteq> 0 \<and> m_hostAddr r \<noteq> MAP_FAILED \<and>
     (\<exists>b. h_heap h (m_hostAddr r) = Some b \<and> length b = unat (m_size r))"

definition region_bytes :: "'k host \<Rightarrow> MemoryRegion \<Rightarrow> byte list" where
  "region_bytes h r = block h (m_hostAddr r)"

section \<open>Ownership\<close>

interpretation region: raii "MemoryRegion_release K" MemoryRegion_move for K
  by unfold_locales (simp_all add: MemoryRegion_release_def MemoryRegion_move_def)

lemma region_live_length: "region_live h r \<Longrightarrow> length (region_bytes h r) = unat (m_size r)"
  by (auto simp: region_live_def region_bytes_def block_def)

lemma region_release_frees:
  assumes "mem_laws K" and "region_live h r"
  shows "h_heap (MemoryRegion_release K r h) = (h_heap h)(m_hostAddr r := None)"
    and "h_runs (MemoryRegion_release K r h) = h_runs h"
  using assms
  by (auto simp: MemoryRegion_release_def region_live_def kernel_laws Let_def split: prod.split)

lemma region_assign_release:
  "\<not> self \<Longrightarrow> MemoryRegion_assign K self this other h =
     (fst (MemoryRegion_move other), snd (MemoryRegion_move other), MemoryRegion_release K this h)"
  by (simp add: MemoryRegion_assign_def MemoryRegion_release_def MemoryRegion_move_def Let_def)

section \<open>Creation\<close>

lemma region_create_split:
  assumes laws: "mem_laws K"
    and "MemoryRegion_create K fd slot gpa n flags h = (res, h')"
  shows "(\<exists>e. res = Inl e \<and> h_heap h' = h_heap h \<and> h_runs h' = h_runs h) \<or>
         (\<exists>r. res = Inr r \<and> m_vmFd r = fd \<and> m_slot r = slot \<and> m_guestPhysAddr r = gpa \<and> m_size r = n \<and>
            region_live h' r \<and> h_heap h (m_hostAddr r) = None \<and> h_runs h' = h_runs h \<and>
            h_heap h' = (h_heap h)(m_hostAddr r \<mapsto> replicate (unat n) 0))"
proof -
  obtain p h1 where mm: "sys_mmap K n h = (p, h1)" by fastforce
  show ?thesis
  proof (cases "p = MAP_FAILED")
    case True
    with assms(2) mm mmapD(1,2) [OF laws mm] show ?thesis
      by (auto simp: MemoryRegion_create_def)
  next
    case False
    note h1 = mmapD(1) [OF laws mm] mmapD(3-5) [OF laws mm False]
    obtain rc2 h2 where adv: "sys_madvise K p n h1 = (rc2, h2)" by fastforce
    obtain rc h3 where io: "sys_ioctl K fd (KVM_SET_USER_MEMORY_REGION
        \<lparr>umr_slot = slot, umr_flags = flags, umr_guest_phys_addr = gpa,
         umr_memory_size = n, umr_userspace_addr = p\<rparr>) h2 = (rc, h3)" by fastforce
    have h3: "h_heap h3 = h_heap h1" "h_runs h3 = h_runs h1"
      using ioctlD [OF laws io] madviseD [OF laws adv] by simp_all
    obtain rc4 h4 where un: "sys_munmap K p n h3 = (rc4, h4)" by fastforce
    have h4: "h_heap h4 = (h_heap h3)(p := None)" "h_runs h4 = h_runs h3"
      using munmapD [OF laws un] h1 h3 by simp_all
    show ?thesis
    proof (cases "rc < 0")
      case True
      with assms(2) mm False adv io un h1 h3 h4 show ?thesis
        by (auto simp: MemoryRegion_create_def fun_upd_idem)
    next
      case rc: False
      with assms(2) mm False adv io have "h' = h3" and
        "res = Inr \<lparr>m_vmFd = fd, m_slot = slot, m_guestPhysAddr = gpa, m_size = n, m_hostAddr = p\<rparr>"
        by (simp_all add: MemoryRegion_create_def)
      with False h1 h3 show ?thesis by (intro disjI2) (simp add: region_live_def)
    qed
  qed
qed



section \<open>Byte access\<close>

lemma region_write_in_bounds:
  assumes "region_live h r" and "unat off + length data \<le> unat (m_size r)"
  shows "\<exists>h'. MemoryRegion_write r off data h = Some h'"
proof -
  have "unat off + length data < 2 ^ LENGTH(64)"
    using assms(2) unsigned_less [of "m_size r", where ?'a = nat] by linarith
  then have "unat (off + of_nat (length data)) = unat off + length data"
    by (simp add: unat_word_ariths unat_of_nat)
  with assms(2) have "off + of_nat (length data) \<le> m_size r"
    by (simp add: word_le_nat_alt)
  with assms show ?thesis
    by (simp add: MemoryRegion_write_def hb.st_iff region_live_length [unfolded region_bytes_def])
qed

lemma region_write_heap:
  assumes "MemoryRegion_write r off data h = Some h'"
  shows "heap_store h (m_hostAddr r) (unat off) data = Some h'"
  using assms by (simp add: MemoryRegion_write_def split: if_splits)

lemma region_write_live:
  assumes w: "MemoryRegion_write r off data h = Some h'"
  shows "region_live h' q \<longleftrightarrow> region_live h q"
proof (cases "m_hostAddr q = m_hostAddr r")
  case True
  have "h_heap h' (m_hostAddr r) = None \<longleftrightarrow> h_heap h (m_hostAddr r) = None"
    using region_write_heap [OF w] by (auto simp: heap_store_def)
  moreover have "length (block h' (m_hostAddr r)) = length (block h (m_hostAddr r))"
    by (rule hb.st_size [OF region_write_heap [OF w]])
  ultimately show ?thesis
    using True by (auto simp: region_live_def block_def split: option.splits)
next
  case False
  then show ?thesis
    using heap_store_block(2) [OF region_write_heap [OF w] False] by (simp add: region_live_def)
qed

text \<open>C6: on a live region a write is defined exactly when it lies inside the region (as
  unwrapped numbers); it then is what a read of the same range returns, and no byte outside the
  range, in this or in any other mapping, changes.\<close>

theorem region_write_spec:
  assumes "region_live h r" and "length data < 2 ^ 64"
  shows "((\<exists>h'. MemoryRegion_write r off data h = Some h') \<longleftrightarrow> unat off + length data \<le> unat (m_size r)) \<and>
         (\<forall>h'. MemoryRegion_write r off data h = Some h' \<longrightarrow>
           MemoryRegion_read r off (length data) h' = Some data \<and>
           (\<forall>i < unat (m_size r). i < unat off \<or> unat off + length data \<le> i \<longrightarrow>
              region_bytes h' r ! i = region_bytes h r ! i) \<and>
           (\<forall>q. q \<noteq> m_hostAddr r \<longrightarrow> h_heap h' q = h_heap h q))"
proof (intro conjI allI impI)
  show "(\<exists>h'. MemoryRegion_write r off data h = Some h') \<longleftrightarrow> unat off + length data \<le> unat (m_size r)"
    using region_write_in_bounds [OF assms(1)] assms(1)
    by (auto simp: region_live_length [unfolded region_bytes_def]
        dest!: region_write_heap hb.st_iff [THEN iffD1, OF exI])
next
  fix h' assume w: "MemoryRegion_write r off data h = Some h'"
  note st = region_write_heap [OF w]
  show "MemoryRegion_read r off (length data) h' = Some data"
    using w hb.ld_st_same [OF st] by (simp add: MemoryRegion_read_def MemoryRegion_write_def split: if_splits)
  show "h_heap h' q = h_heap h q" if "q \<noteq> m_hostAddr r" for q
    using heap_store_block(2) [OF st that] .
  show "region_bytes h' r ! i = region_bytes h r ! i"
    if "i < unat (m_size r)" and "i < unat off \<or> unat off + length data \<le> i" for i
    using that region_live_length [OF assms(1)]
    by (auto simp: region_bytes_def store_at_nth [OF heap_store_block(1) [OF st]])
qed

definition demo_region :: MemoryRegion where
  "demo_region = \<lparr>m_vmFd = 4, m_slot = 0, m_guestPhysAddr = 0, m_size = 4, m_hostAddr = 0x10000000\<rparr>"

lemma demo_region_live [simp]: "region_live (demo_host exits) demo_region"
  by (simp add: region_live_def demo_region_def demo_host_def MAP_FAILED_def)

theorem region_write_spec_witness:
  "region_live (demo_host []) demo_region \<and>
   (\<exists>h'. MemoryRegion_write demo_region 1 [7, 8] (demo_host []) = Some h' \<and>
     MemoryRegion_read demo_region 1 (Suc (Suc 0)) h' = Some [7, 8]) \<and>
   MemoryRegion_write demo_region 3 [7, 8] (demo_host []) = None"
proof -
  have "m_size demo_region = 4" by (simp add: demo_region_def)
  with region_write_spec [OF demo_region_live [of "[]"], of "[7, 8]" 1]
    region_write_spec [OF demo_region_live [of "[]"], of "[7, 8]" 3]
  show ?thesis by auto
qed

text \<open>The assertion alone does not bound the access: it compares the wrapped sum.\<close>

lemma region_assert_wraps:
  "\<exists>(h :: unit host) r off data. region_live h r \<and>
     off + of_nat (length data) \<le> m_size r \<and> MemoryRegion_write r off data h = None"
proof -
  let ?r = "\<lparr>m_vmFd = 3, m_slot = 0, m_guestPhysAddr = 0, m_size = 4, m_hostAddr = 16\<rparr>"
  let ?h = "\<lparr>h_errno = 0, h_heap = [16 \<mapsto> replicate 4 0], h_runs = Map.empty, h_kern = ()\<rparr>"
  have "region_live ?h ?r" by (simp add: region_live_def MAP_FAILED_def)
  moreover have "0xFFFFFFFFFFFFFFFF + of_nat (length [0 :: byte]) \<le> m_size ?r" by simp
  moreover have "MemoryRegion_write ?r 0xFFFFFFFFFFFFFFFF [0] ?h = None"
    by (simp add: MemoryRegion_write_def heap_store_def block_def store_at_def)
  ultimately show ?thesis by blast
qed

end
