(* ===== verification/Vcpu_Model.thy ===== *)
theory Vcpu_Model
  imports Memory_Region
begin

text \<open>
  \<^verbatim>\<open>class VCpu\<close> (include/hv/VCpu.h, src/VCpu.cpp): a vCPU descriptor with its mapped \<^verbatim>\<open>kvm_run\<close>
  page. Every method is an ioctl whose failure becomes an error code; \<^verbatim>\<open>run\<close> turns an interrupted
  call into the exit reason \<^verbatim>\<open>Intr\<close>.
\<close>

section \<open>Exit reasons\<close>

datatype ExitReason =
    ER_Unknown | ER_Io | ER_Hypercall | ER_Debug | ER_Hlt | ER_Mmio | ER_IrqWindowOpen
  | ER_Shutdown | ER_FailEntry | ER_Intr | ER_SetTpr | ER_TprAccess | ER_S390Sieic | ER_S390Reset
  | ER_Dcr | ER_Nmi | ER_InternalError | ER_Osi | ER_PaprHcall | ER_SystemEvent
  | ER_Unnamed u32 \<comment> \<open>a value of the enumeration's type with no enumerator\<close>

text \<open>The enumerators with their values, and \<^verbatim>\<open>static_cast<ExitReason>\<close>.\<close>

definition exit_reason_table :: "(u32 \<times> ExitReason) list" where
  "exit_reason_table =
     [(0, ER_Unknown), (2, ER_Io), (3, ER_Hypercall), (4, ER_Debug), (5, ER_Hlt), (6, ER_Mmio),
      (7, ER_IrqWindowOpen), (8, ER_Shutdown), (9, ER_FailEntry), (10, ER_Intr), (11, ER_SetTpr),
      (12, ER_TprAccess), (13, ER_S390Sieic), (14, ER_S390Reset), (15, ER_Dcr), (16, ER_Nmi),
      (17, ER_InternalError), (18, ER_Osi), (19, ER_PaprHcall), (24, ER_SystemEvent)]"

definition exit_reason_of :: "u32 \<Rightarrow> ExitReason" where
  "exit_reason_of n = (case map_of exit_reason_table n of Some r \<Rightarrow> r | None \<Rightarrow> ER_Unnamed n)"

lemma exit_reason_of_inj: "exit_reason_of m = exit_reason_of n \<longleftrightarrow> m = n"
  by (auto simp: exit_reason_of_def exit_reason_table_def split: if_splits)

section \<open>The class\<close>

record VCpu =
  v_fd :: int
  v_id :: u32
  v_runPage :: u64
  v_mmapSize :: u64

definition VCpu_create ::
  "'k kernel \<Rightarrow> int \<Rightarrow> u32 \<Rightarrow> int \<Rightarrow> 'k host \<Rightarrow> (error_code + VCpu) \<times> 'k host" where
  "VCpu_create K vm_fd vcpu_id mmap_size h =
     (let (fd, h1) = sys_ioctl K vm_fd (KVM_CREATE_VCPU (ucast vcpu_id)) h in
      if fd < 0 then (Inl (h_errno h1), h1)
      else
        let (run_page, h2) = sys_mmap_vcpu K fd (of_int mmap_size) h1 in
        if run_page = MAP_FAILED then
          let err = h_errno h2; (_, h3) = sys_close K fd h2 in (Inl err, h3)
        else (Inr \<lparr>v_fd = fd, v_id = vcpu_id, v_runPage = run_page, v_mmapSize = of_int mmap_size\<rparr>, h2))"

definition VCpu_release :: "'k kernel \<Rightarrow> VCpu \<Rightarrow> 'k host \<Rightarrow> 'k host" where
  "VCpu_release K v h =
     (let h1 = (if v_runPage v \<noteq> 0 \<and> v_runPage v \<noteq> MAP_FAILED
                then snd (sys_munmap K (v_runPage v) (v_mmapSize v) h) else h)
      in if v_fd v \<ge> 0 then snd (sys_close K (v_fd v) h1) else h1)"

definition VCpu_move :: "VCpu \<Rightarrow> VCpu \<times> VCpu" where
  "VCpu_move other =
     (\<lparr>v_fd = v_fd other, v_id = v_id other, v_runPage = v_runPage other, v_mmapSize = v_mmapSize other\<rparr>,
      other\<lparr>v_fd := - 1, v_runPage := 0\<rparr>)"

definition VCpu_assign :: "'k kernel \<Rightarrow> bool \<Rightarrow> VCpu \<Rightarrow> VCpu \<Rightarrow> 'k host \<Rightarrow> VCpu \<times> VCpu \<times> 'k host" where
  "VCpu_assign K self this other h =
     (if \<not> self then
        let h1 = (if v_runPage this \<noteq> 0 \<and> v_runPage this \<noteq> MAP_FAILED
                  then snd (sys_munmap K (v_runPage this) (v_mmapSize this) h) else h);
            h2 = (if v_fd this \<ge> 0 then snd (sys_close K (v_fd this) h1) else h1)
        in (this\<lparr>v_fd := v_fd other, v_id := v_id other, v_runPage := v_runPage other,
                 v_mmapSize := v_mmapSize other\<rparr>,
            other\<lparr>v_fd := - 1, v_runPage := 0\<rparr>, h2)
      else (this, other, h))"

text \<open>\<^verbatim>\<open>run\<close> reads \<^verbatim>\<open>m_runPage->exit_reason\<close>: without a mapped page that is undefined.\<close>

definition VCpu_run :: "'k kernel \<Rightarrow> VCpu \<Rightarrow> 'k host \<Rightarrow> ((error_code + ExitReason) \<times> 'k host) option" where
  "VCpu_run K v h =
     (let (rc, h1) = sys_ioctl K (v_fd v) KVM_RUN h in
      if rc < 0 then
        if h_errno h1 = EINTR then Some (Inr ER_Intr, h1) else Some (Inl (h_errno h1), h1)
      else (case h_runs h1 (v_runPage v) of
              None \<Rightarrow> None
            | Some r \<Rightarrow> Some (Inr (exit_reason_of (exit_reason r)), h1)))"

definition VCpu_getRegs :: "'k kernel \<Rightarrow> VCpu \<Rightarrow> 'k host \<Rightarrow> (error_code + kvm_regs) \<times> 'k host" where
  "VCpu_getRegs K v h =
     (let (rc, regs, h1) = sys_get_regs K (v_fd v) h in
      if rc < 0 then (Inl (h_errno h1), h1) else (Inr regs, h1))"

definition VCpu_setRegs :: "'k kernel \<Rightarrow> VCpu \<Rightarrow> kvm_regs \<Rightarrow> 'k host \<Rightarrow> error_code \<times> 'k host" where
  "VCpu_setRegs K v regs h =
     (let (rc, h1) = sys_ioctl K (v_fd v) (KVM_SET_REGS regs) h in
      if rc < 0 then (h_errno h1, h1) else (ok_code, h1))"

definition VCpu_getSregs :: "'k kernel \<Rightarrow> VCpu \<Rightarrow> 'k host \<Rightarrow> (error_code + kvm_sregs) \<times> 'k host" where
  "VCpu_getSregs K v h =
     (let (rc, sregs, h1) = sys_get_sregs K (v_fd v) h in
      if rc < 0 then (Inl (h_errno h1), h1) else (Inr sregs, h1))"

definition VCpu_setSregs :: "'k kernel \<Rightarrow> VCpu \<Rightarrow> kvm_sregs \<Rightarrow> 'k host \<Rightarrow> error_code \<times> 'k host" where
  "VCpu_setSregs K v sregs h =
     (let (rc, h1) = sys_ioctl K (v_fd v) (KVM_SET_SREGS sregs) h in
      if rc < 0 then (h_errno h1, h1) else (ok_code, h1))"

definition VCpu_setSingleStep :: "'k kernel \<Rightarrow> VCpu \<Rightarrow> bool \<Rightarrow> 'k host \<Rightarrow> error_code \<times> 'k host" where
  "VCpu_setSingleStep K v enable h =
     (let control = (if enable then KVM_GUESTDBG_ENABLE OR KVM_GUESTDBG_SINGLESTEP else 0);
          (rc, h1) = sys_ioctl K (v_fd v) (KVM_SET_GUEST_DEBUG control) h
      in if rc < 0 then (h_errno h1, h1) else (ok_code, h1))"

definition VCpu_installCpuid ::
  "'k kernel \<Rightarrow> VCpu \<Rightarrow> kvm_cpuid_entry2 list \<Rightarrow> 'k host \<Rightarrow> error_code \<times> 'k host" where
  "VCpu_installCpuid K v entries h =
     (let cpuid2 = \<lparr>c2_nent = of_nat (length entries), c2_entries = entries\<rparr>;
          (rc, h1) = sys_ioctl K (v_fd v) (KVM_SET_CPUID2 cpuid2) h
      in if rc < 0 then (h_errno h1, h1) else (ok_code, h1))"

section \<open>Ownership\<close>

interpretation vcpu: raii "VCpu_release K" VCpu_move for K
  by unfold_locales (simp_all add: VCpu_release_def VCpu_move_def)

lemma vcpu_assign_release:
  "\<not> self \<Longrightarrow> VCpu_assign K self this other h =
     (fst (VCpu_move other), snd (VCpu_move other), VCpu_release K this h)"
  by (simp add: VCpu_assign_def VCpu_release_def VCpu_move_def Let_def)

section \<open>Register access\<close>

lemma getRegs_kregs:
  assumes "reg_laws K" and "VCpu_getRegs K v h = (res, h')"
  shows "kregs K (v_fd v) h = (case res of Inl _ \<Rightarrow> None | Inr r \<Rightarrow> Some r)"
    and "h_heap h' = h_heap h" and "h_runs h' = h_runs h"
    and "kregs K fd h' = kregs K fd h" and "ksregs K fd h' = ksregs K fd h"
proof -
  obtain rc r h1 where g: "sys_get_regs K (v_fd v) h = (rc, r, h1)" by (metis prod_cases3)
  have h1: "h1 = h'" and res: "res = (if rc < 0 then Inl (h_errno h1) else Inr r)"
    using assms(2) g by (auto simp: VCpu_getRegs_def split: if_splits)
  show "kregs K (v_fd v) h = (case res of Inl _ \<Rightarrow> None | Inr r \<Rightarrow> Some r)"
    by (simp add: kregs_def g res)
  show "h_heap h' = h_heap h" and "h_runs h' = h_runs h"
    and "kregs K fd h' = kregs K fd h" and "ksregs K fd h' = ksregs K fd h"
    using get_regs_frameD [OF assms(1) g] h1 by simp_all
qed

lemma getSregs_ksregs:
  assumes "reg_laws K" and "VCpu_getSregs K v h = (res, h')"
  shows "ksregs K (v_fd v) h = (case res of Inl _ \<Rightarrow> None | Inr r \<Rightarrow> Some r)"
    and "h_heap h' = h_heap h" and "h_runs h' = h_runs h"
    and "kregs K fd h' = kregs K fd h" and "ksregs K fd h' = ksregs K fd h"
proof -
  obtain rc r h1 where g: "sys_get_sregs K (v_fd v) h = (rc, r, h1)" by (metis prod_cases3)
  have h1: "h1 = h'" and res: "res = (if rc < 0 then Inl (h_errno h1) else Inr r)"
    using assms(2) g by (auto simp: VCpu_getSregs_def split: if_splits)
  show "ksregs K (v_fd v) h = (case res of Inl _ \<Rightarrow> None | Inr r \<Rightarrow> Some r)"
    by (simp add: ksregs_def g res)
  show "h_heap h' = h_heap h" and "h_runs h' = h_runs h"
    and "kregs K fd h' = kregs K fd h" and "ksregs K fd h' = ksregs K fd h"
    using get_sregs_frameD [OF assms(1) g] h1 by simp_all
qed

lemma setRegs_ok:
  assumes "reg_laws K" and "VCpu_setRegs K v r h = (ec, h')"
  shows "h_heap h' = h_heap h" and "h_runs h' = h_runs h"
    and "ksregs K (v_fd v) h' = ksregs K (v_fd v) h"
    and "errno_law K \<Longrightarrow> ec = ok_code \<Longrightarrow> bit (rflags r) 1 \<Longrightarrow> kregs K (v_fd v) h' = Some r"
proof -
  obtain rc h1 where g: "sys_ioctl K (v_fd v) (KVM_SET_REGS r) h = (rc, h1)" by fastforce
  have h1: "h1 = h'" and ec: "ec = (if rc < 0 then h_errno h1 else ok_code)"
    using assms(2) g by (auto simp: VCpu_setRegs_def split: if_splits)
  show "h_heap h' = h_heap h" and "h_runs h' = h_runs h"
    and "ksregs K (v_fd v) h' = ksregs K (v_fd v) h"
    using set_regsD [OF assms(1) g] h1 by simp_all
  assume "errno_law K" "ec = ok_code" "bit (rflags r) 1"
  moreover from this have "\<not> rc < 0" using g ec unfolding errno_law_def by fastforce
  ultimately show "kregs K (v_fd v) h' = Some r"
    using set_regsD(4) [OF assms(1) g] h1 by simp
qed

lemma setSregs_ok:
  assumes "reg_laws K" and "VCpu_setSregs K v r h = (ec, h')"
  shows "h_heap h' = h_heap h" and "h_runs h' = h_runs h"
    and "kregs K (v_fd v) h' = kregs K (v_fd v) h"
    and "errno_law K \<Longrightarrow> ec = ok_code \<Longrightarrow> ksregs K (v_fd v) h' = Some r"
proof -
  obtain rc h1 where g: "sys_ioctl K (v_fd v) (KVM_SET_SREGS r) h = (rc, h1)" by fastforce
  have h1: "h1 = h'" and ec: "ec = (if rc < 0 then h_errno h1 else ok_code)"
    using assms(2) g by (auto simp: VCpu_setSregs_def split: if_splits)
  show "h_heap h' = h_heap h" and "h_runs h' = h_runs h"
    and "kregs K (v_fd v) h' = kregs K (v_fd v) h"
    using set_sregsD [OF assms(1) g] h1 by simp_all
  assume "errno_law K" "ec = ok_code"
  moreover from this have "\<not> rc < 0" using g ec unfolding errno_law_def by fastforce
  ultimately show "ksregs K (v_fd v) h' = Some r"
    using set_sregsD(4) [OF assms(1) g] h1 by simp
qed

definition demo_vcpu :: VCpu where
  "demo_vcpu = \<lparr>v_fd = 5, v_id = 0, v_runPage = 0x20000000, v_mmapSize = 16\<rparr>"

lemma demo_regs [simp]:
  "kregs sim_kernel (v_fd demo_vcpu) (e_host (demo_env run a)) = Some (kvm_regs0\<lparr>rflags := 2\<rparr>)"
  by (simp add: kregs_def demo_vcpu_def demo_env_def demo_host_defs)

end
