(* ===== verification/Virtual_Machine.thy ===== *)
theory Virtual_Machine
  imports Vcpu_Model
begin

text \<open>
  \<^verbatim>\<open>class VirtualMachine\<close> and \<^verbatim>\<open>struct VmSnapShot\<close> (include/hv/VirtualMachine.h,
  src/VirtualMachine.cpp): the VM descriptor, its memory regions and vCPUs, and the snapshot that
  \<^verbatim>\<open>restoreSnapshot\<close> rewinds to. A pointer the class returns into one of its vectors is the index
  of the element. \<^verbatim>\<open>std::vector::push_back\<close> of a moved object is \<open>@\<close>: by the \<open>raii\<close> lemmas,
  relocating the elements has no effect of its own.
\<close>

section \<open>The class\<close>

record VmSnapShot =
  snap_regs :: kvm_regs
  snap_sregs :: kvm_sregs
  snap_memoryRegions :: "byte list list"

record VirtualMachine =
  vm_fd :: int
  vm_vcpuMmapSize :: int
  vm_nextSlot :: u32
  vm_memoryRegions :: "MemoryRegion list"
  vm_vcpus :: "VCpu list"

definition VirtualMachine_new :: "int \<Rightarrow> int \<Rightarrow> VirtualMachine" where
  "VirtualMachine_new fd vcpu_mmap_size =
     \<lparr>vm_fd = fd, vm_vcpuMmapSize = vcpu_mmap_size, vm_nextSlot = 0, vm_memoryRegions = [], vm_vcpus = []\<rparr>"

text \<open>
  The destructor's body closes the descriptor; then the members go, last declared first: the
  vCPUs, then the memory regions.
\<close>

definition VirtualMachine_release :: "'k kernel \<Rightarrow> VirtualMachine \<Rightarrow> 'k host \<Rightarrow> 'k host" where
  "VirtualMachine_release K vm h =
     (let h1 = (if vm_fd vm \<ge> 0 then snd (sys_close K (vm_fd vm) h) else h);
          h2 = fold (VCpu_release K) (vm_vcpus vm) h1
      in fold (MemoryRegion_release K) (vm_memoryRegions vm) h2)"

definition VirtualMachine_move :: "VirtualMachine \<Rightarrow> VirtualMachine \<times> VirtualMachine" where
  "VirtualMachine_move other =
     (\<lparr>vm_fd = vm_fd other, vm_vcpuMmapSize = vm_vcpuMmapSize other, vm_nextSlot = vm_nextSlot other,
       vm_memoryRegions = vm_memoryRegions other, vm_vcpus = vm_vcpus other\<rparr>,
      other\<lparr>vm_fd := - 1, vm_memoryRegions := [], vm_vcpus := []\<rparr>)"

definition VirtualMachine_assign ::
  "'k kernel \<Rightarrow> bool \<Rightarrow> VirtualMachine \<Rightarrow> VirtualMachine \<Rightarrow> 'k host \<Rightarrow>
     VirtualMachine \<times> VirtualMachine \<times> 'k host" where
  "VirtualMachine_assign K self this other h =
     (if \<not> self then
        let h1 = (if vm_fd this \<ge> 0 then snd (sys_close K (vm_fd this) h) else h);
            h2 = fold (MemoryRegion_release K) (vm_memoryRegions this) h1;
            h3 = fold (VCpu_release K) (vm_vcpus this) h2
        in (this\<lparr>vm_fd := vm_fd other, vm_vcpuMmapSize := vm_vcpuMmapSize other,
                 vm_nextSlot := vm_nextSlot other, vm_memoryRegions := vm_memoryRegions other,
                 vm_vcpus := vm_vcpus other\<rparr>,
            other\<lparr>vm_fd := - 1, vm_memoryRegions := [], vm_vcpus := []\<rparr>, h3)
      else (this, other, h))"

definition VirtualMachine_addMemoryRegion ::
  "'k kernel \<Rightarrow> u64 \<Rightarrow> u64 \<Rightarrow> u32 \<Rightarrow> VirtualMachine \<Rightarrow> 'k host \<Rightarrow>
     (error_code + nat) \<times> VirtualMachine \<times> 'k host" where
  "VirtualMachine_addMemoryRegion K guest_phys_addr size_bytes flags vm h =
     (let (result, h1) = MemoryRegion_create K (vm_fd vm) (vm_nextSlot vm) guest_phys_addr size_bytes flags h
      in case result of
           Inl e \<Rightarrow> (Inl e, vm, h1)
         | Inr r \<Rightarrow>
             (Inr (length (vm_memoryRegions vm)),
              vm\<lparr>vm_memoryRegions := vm_memoryRegions vm @ [r], vm_nextSlot := vm_nextSlot vm + 1\<rparr>, h1))"

definition VirtualMachine_addVCpu ::
  "'k kernel \<Rightarrow> u32 \<Rightarrow> VirtualMachine \<Rightarrow> 'k host \<Rightarrow> (error_code + nat) \<times> VirtualMachine \<times> 'k host" where
  "VirtualMachine_addVCpu K vcpu_id vm h =
     (let (result, h1) = VCpu_create K (vm_fd vm) vcpu_id (vm_vcpuMmapSize vm) h
      in case result of
           Inl e \<Rightarrow> (Inl e, vm, h1)
         | Inr v \<Rightarrow> (Inr (length (vm_vcpus vm)), vm\<lparr>vm_vcpus := vm_vcpus vm @ [v]\<rparr>, h1))"

definition VirtualMachine_setIrqLine ::
  "'k kernel \<Rightarrow> VirtualMachine \<Rightarrow> u32 \<Rightarrow> int \<Rightarrow> 'k host \<Rightarrow> error_code \<times> 'k host" where
  "VirtualMachine_setIrqLine K vm irq level h =
     (let (rc, h1) = sys_ioctl K (vm_fd vm) (KVM_IRQ_LINE irq (of_int level)) h
      in if rc < 0 then (h_errno h1, h1) else (ok_code, h1))"

definition VirtualMachine_createIrqChip :: "'k kernel \<Rightarrow> VirtualMachine \<Rightarrow> 'k host \<Rightarrow> error_code \<times> 'k host" where
  "VirtualMachine_createIrqChip K vm h =
     (let (rc, h1) = sys_ioctl K (vm_fd vm) KVM_CREATE_IRQCHIP h
      in if rc < 0 then (h_errno h1, h1) else (ok_code, h1))"

definition VirtualMachine_createPit2 :: "'k kernel \<Rightarrow> VirtualMachine \<Rightarrow> 'k host \<Rightarrow> error_code \<times> 'k host" where
  "VirtualMachine_createPit2 K vm h =
     (let (rc, h1) = sys_ioctl K (vm_fd vm) (KVM_CREATE_PIT2 0) h
      in if rc < 0 then (h_errno h1, h1) else (ok_code, h1))"

definition VirtualMachine_enableEmulationExits ::
  "'k kernel \<Rightarrow> VirtualMachine \<Rightarrow> 'k host \<Rightarrow> error_code \<times> 'k host" where
  "VirtualMachine_enableEmulationExits K vm h =
     (let (rc, h1) = sys_ioctl K (vm_fd vm) (KVM_ENABLE_CAP KVM_CAP_EXIT_ON_EMULATION_FAILURE 1) h
      in if rc < 0 then (h_errno h1, h1) else (ok_code, h1))"

section \<open>Snapshots\<close>

text \<open>The copy of every region; a region without a mapping gives an empty entry.\<close>

fun snapshot_regions :: "MemoryRegion list \<Rightarrow> 'k host \<Rightarrow> byte list list option" where
  "snapshot_regions [] h = Some []"
| "snapshot_regions (r # rs) h =
     (if m_hostAddr r = 0 then do { bss \<leftarrow> snapshot_regions rs h; Some ([] # bss) }
      else do {
        bs \<leftarrow> heap_load h (m_hostAddr r) 0 (unat (m_size r));
        bss \<leftarrow> snapshot_regions rs h;
        Some (bs # bss) })"

text \<open>\<^verbatim>\<open>vm.vcpus()[0]\<close> of an empty vector is undefined.\<close>

definition VirtualMachine_takeSnapShot ::
  "'k kernel \<Rightarrow> VirtualMachine \<Rightarrow> 'k host \<Rightarrow> (VmSnapShot \<times> 'k host) option" where
  "VirtualMachine_takeSnapShot K vm h =
     (case vm_vcpus vm of
        [] \<Rightarrow> None
      | vcpu # _ \<Rightarrow>
          let (regs, h1) = VCpu_getRegs K vcpu h;
              (sregs, h2) = VCpu_getSregs K vcpu h1
          in do {
            bss \<leftarrow> snapshot_regions (vm_memoryRegions vm) h2;
            Some (\<lparr>snap_regs = (case regs of Inl _ \<Rightarrow> kvm_regs0 | Inr r \<Rightarrow> r),
                   snap_sregs = (case sregs of Inl _ \<Rightarrow> kvm_sregs0 | Inr r \<Rightarrow> r),
                   snap_memoryRegions = bss\<rparr>, h2) })"

text \<open>
  The loop over the regions; the snapshot's entries are consumed in step with them, so that no
  entry left is the test \<^verbatim>\<open>i >= snapshot.memoryRegions.size()\<close>. \<^verbatim>\<open>memcpy\<close> reads as many bytes
  of the entry as the region has.
\<close>

fun restore_regions :: "MemoryRegion list \<Rightarrow> byte list list \<Rightarrow> 'k host \<Rightarrow> 'k host option" where
  "restore_regions [] snaps h = Some h"
| "restore_regions (r # rs) snaps h =
     (if m_hostAddr r = 0 \<or> snaps = [] \<or> hd snaps = [] then restore_regions rs (tl snaps) h
      else do {
        bs \<leftarrow> load_at (hd snaps) 0 (unat (m_size r));
        h' \<leftarrow> heap_store h (m_hostAddr r) 0 bs;
        restore_regions rs (tl snaps) h' })"

text \<open>The two error codes are what the function prints to \<^verbatim>\<open>std::cerr\<close> and otherwise ignores.\<close>

definition VirtualMachine_restoreSnapshot ::
  "'k kernel \<Rightarrow> VirtualMachine \<Rightarrow> VmSnapShot \<Rightarrow> 'k host \<Rightarrow> (error_code \<times> error_code \<times> 'k host) option" where
  "VirtualMachine_restoreSnapshot K vm snapshot h =
     (case vm_vcpus vm of
        [] \<Rightarrow> None
      | vcpu # _ \<Rightarrow>
          let (codeRegs, h1) = VCpu_setRegs K vcpu (snap_regs snapshot) h;
              (codeSregs, h2) = VCpu_setSregs K vcpu (snap_sregs snapshot) h1
          in do {
            h3 \<leftarrow> restore_regions (vm_memoryRegions vm) (snap_memoryRegions snapshot) h2;
            Some (codeRegs, codeSregs, h3) })"

section \<open>Ownership\<close>

interpretation machine: raii "VirtualMachine_release K" VirtualMachine_move for K
  by unfold_locales (simp_all add: VirtualMachine_release_def VirtualMachine_move_def Let_def)

section \<open>Well-formed machines\<close>

definition vm_wf :: "'k host \<Rightarrow> VirtualMachine \<Rightarrow> bool" where
  "vm_wf h vm \<longleftrightarrow>
     (\<forall>r \<in> set (vm_memoryRegions vm). region_live h r \<and> m_vmFd r = vm_fd vm \<and> m_slot r < vm_nextSlot vm) \<and>
     distinct (map m_hostAddr (vm_memoryRegions vm)) \<and>
     distinct (map m_slot (vm_memoryRegions vm))"

lemma u32_less_Suc: "n \<noteq> - 1 \<Longrightarrow> n < n + (1 :: u32)"
proof -
  assume "n \<noteq> - 1"
  then have "1 + n \<noteq> 0" using max_word_wrap [of n] by (auto simp: add.commute)
  then have "unat (n + 1) = Suc (unat n)" by (simp add: unatSuc add.commute)
  then show ?thesis by (simp add: word_less_nat_alt)
qed

lemma vm_wf_new: "vm_wf h (VirtualMachine_new fd n)"
  by (simp add: vm_wf_def VirtualMachine_new_def)

lemma region_live_cong: "h_heap h' = h_heap h \<Longrightarrow> region_live h' r = region_live h r"
  by (simp add: region_live_def)

lemma vm_wf_cong: "h_heap h' = h_heap h \<Longrightarrow> vm_wf h' vm = vm_wf h vm"
  by (simp add: vm_wf_def region_live_def)

lemma region_bytes_cong: "h_heap h' = h_heap h \<Longrightarrow> region_bytes h' r = region_bytes h r"
  by (simp add: region_bytes_def block_def)

text \<open>A fresh region in the next slot, appended.\<close>

lemma vm_wf_append:
  assumes wf: "vm_wf h vm" and slots: "vm_nextSlot vm \<noteq> - 1"
    and r: "m_vmFd r = vm_fd vm" "m_slot r = vm_nextSlot vm" "region_live h1 r" "h_heap h (m_hostAddr r) = None"
    and h1: "h_heap h1 = (h_heap h)(m_hostAddr r \<mapsto> b)"
  shows "vm_wf h1 (vm\<lparr>vm_memoryRegions := vm_memoryRegions vm @ [r], vm_nextSlot := vm_nextSlot vm + 1\<rparr>)"
    and "q \<in> set (vm_memoryRegions vm) \<Longrightarrow> region_bytes h1 q = region_bytes h q"
proof -
  let ?vm = "vm\<lparr>vm_memoryRegions := vm_memoryRegions vm @ [r], vm_nextSlot := vm_nextSlot vm + 1\<rparr>"
  have other: "m_hostAddr q \<noteq> m_hostAddr r" if "q \<in> set (vm_memoryRegions vm)" for q
    using wf that r(4) by (auto simp: vm_wf_def region_live_def)
  have live: "region_live h1 q" if "q \<in> set (vm_memoryRegions vm)" for q
    using wf that other [OF that] h1 by (auto simp: vm_wf_def region_live_def)
  have next_slot: "vm_nextSlot vm < vm_nextSlot vm + 1"
    using slots by (rule u32_less_Suc)
  show "region_bytes h1 q = region_bytes h q" if "q \<in> set (vm_memoryRegions vm)"
    using other [OF that] h1 by (simp add: region_bytes_def block_def)
  show "vm_wf h1 ?vm"
    unfolding vm_wf_def
  proof (intro conjI ballI)
    fix q assume q: "q \<in> set (vm_memoryRegions ?vm)"
    show "region_live h1 q" using q r(3) live by auto
    show "m_vmFd q = vm_fd ?vm" using q r(1) wf by (auto simp: vm_wf_def)
    show "m_slot q < vm_nextSlot ?vm"
      using q r(2) wf next_slot by (auto simp: vm_wf_def intro: less_trans [OF _ next_slot])
  next
    show "distinct (map m_hostAddr (vm_memoryRegions ?vm))" using wf other [symmetric] by (auto simp: vm_wf_def)
    show "distinct (map m_slot (vm_memoryRegions ?vm))" using wf r(2) by (auto simp: vm_wf_def)
  qed
qed

text \<open>C14: adding a memory region keeps the machine well formed (all regions mapped, host mappings
  and KVM slots pairwise different) until the 32-bit slot counter is exhausted, and on success the
  new region is the last one, zero-filled, in the next slot; on failure the machine is unchanged.\<close>

theorem addMemoryRegion_wf:
  assumes laws: "mem_laws K" and wf: "vm_wf h vm" and slots: "vm_nextSlot vm \<noteq> - 1"
    and add: "VirtualMachine_addMemoryRegion K gpa n flags vm h = (res, vm', h')"
  shows "vm_wf h' vm' \<and>
    (case res of
       Inl _ \<Rightarrow> vm' = vm \<and> h_heap h' = h_heap h
     | Inr i \<Rightarrow> (\<exists>r. vm_memoryRegions vm' = vm_memoryRegions vm @ [r] \<and> i = length (vm_memoryRegions vm) \<and>
         m_slot r = vm_nextSlot vm \<and> m_guestPhysAddr r = gpa \<and> m_size r = n \<and>
         region_bytes h' r = replicate (unat n) 0 \<and>
         (\<forall>q \<in> set (vm_memoryRegions vm). region_bytes h' q = region_bytes h q)))"
proof -
  obtain cres h1 where cr:
    "MemoryRegion_create K (vm_fd vm) (vm_nextSlot vm) gpa n flags h = (cres, h1)" by fastforce
  from region_create_split [OF laws cr] show ?thesis
  proof (elim disjE exE conjE)
    fix e assume e: "cres = Inl e" "h_heap h1 = h_heap h"
    have "vm_wf h1 vm" using wf vm_wf_cong [OF e(2)] by simp
    with add cr e show ?thesis by (auto simp: VirtualMachine_addMemoryRegion_def)
  next
    fix r assume made: "cres = Inr r" "m_vmFd r = vm_fd vm" "m_slot r = vm_nextSlot vm"
        "m_guestPhysAddr r = gpa" "m_size r = n" "region_live h1 r" "h_heap h (m_hostAddr r) = None"
        "h_heap h1 = (h_heap h)(m_hostAddr r \<mapsto> replicate (unat n) 0)"
    note wf' = vm_wf_append [OF wf slots made(2,3,6-8)]
    have "region_bytes h1 r = replicate (unat n) 0"
      using made(8) by (simp add: region_bytes_def block_def)
    with wf' add cr made(1,3-5) show ?thesis by (auto simp: VirtualMachine_addMemoryRegion_def)
  qed
qed

definition demo_vm :: VirtualMachine where
  "demo_vm = \<lparr>vm_fd = 4, vm_vcpuMmapSize = 16, vm_nextSlot = 1, vm_memoryRegions = [demo_region],
     vm_vcpus = [demo_vcpu]\<rparr>"

lemma demo_vm_wf [simp]: "vm_wf (demo_host exits) demo_vm"
  by (simp add: vm_wf_def demo_vm_def) (simp add: demo_region_def)

theorem addMemoryRegion_wf_witness:
  "\<exists>vm' h'. VirtualMachine_addMemoryRegion sim_kernel 0x1000 2 0 demo_vm (demo_host []) = (Inr 1, vm', h') \<and>
     vm_wf h' vm' \<and> length (vm_memoryRegions vm') = 2"
proof -
  let ?c = "VirtualMachine_addMemoryRegion sim_kernel 0x1000 2 0 demo_vm (demo_host [])"
  have "fst ?c = Inr 1"
    by (simp add: VirtualMachine_addMemoryRegion_def MemoryRegion_create_def sim_defs demo_host_defs
        demo_vm_def MAP_FAILED_def)
  then have "?c = (Inr 1, fst (snd ?c), snd (snd ?c))" by (metis prod.collapse)
  moreover from addMemoryRegion_wf [OF sim_mem_laws demo_vm_wf _ this]
  have "vm_wf (snd (snd ?c)) (fst (snd ?c)) \<and> length (vm_memoryRegions (fst (snd ?c))) = 2"
    by (auto simp: demo_vm_def)
  ultimately show ?thesis by blast
qed

section \<open>Snapshot and restore\<close>

lemma snapshot_regions_live:
  assumes "\<forall>r \<in> set rs. region_live h r"
  shows "snapshot_regions rs h = Some (map (region_bytes h) rs)"
  using assms
proof (induction rs)
  case (Cons r rs)
  then have "heap_load h (m_hostAddr r) 0 (unat (m_size r)) = Some (region_bytes h r)"
    using region_live_length [of h r] by (simp add: heap_load_def load_at_def region_bytes_def)
  with Cons show ?case by (auto simp: region_live_def)
qed simp

lemma heap_store_whole:
  assumes "region_live h r" and "length bs = unat (m_size r)"
  obtains h' where "heap_store h (m_hostAddr r) 0 bs = Some h'"
    and "h_heap h' = (h_heap h)(m_hostAddr r \<mapsto> bs)"
  using assms by (auto simp: region_live_def heap_store_def block_def store_at_def)

lemma restore_regions_exact:
  assumes "\<forall>r \<in> set rs. region_live h r" and "distinct (map m_hostAddr rs)"
    and "list_all2 (\<lambda>r bs. length bs = unat (m_size r)) rs bss"
  shows "\<exists>h'. restore_regions rs bss h = Some h' \<and> map (region_bytes h') rs = bss \<and>
     (\<forall>q. q \<notin> m_hostAddr ` set rs \<longrightarrow> h_heap h' q = h_heap h q) \<and>
     (\<forall>K fd. reg_laws K \<longrightarrow> kregs K fd h' = kregs K fd h \<and> ksregs K fd h' = ksregs K fd h)"
  using assms
proof (induction rs arbitrary: bss h)
  case (Cons r rs)
  from Cons.prems(3) obtain bs bss' where bss: "bss = bs # bss'"
    and len: "length bs = unat (m_size r)" and rest: "list_all2 (\<lambda>r bs. length bs = unat (m_size r)) rs bss'"
    by (auto simp: list_all2_Cons1)
  have live: "region_live h r" using Cons.prems(1) by simp
  obtain h1 where st: "heap_store h (m_hostAddr r) 0 bs = Some h1"
    and h1: "h_heap h1 = (h_heap h)(m_hostAddr r \<mapsto> bs)"
    using heap_store_whole [OF live len] .
  have step: "restore_regions (r # rs) bss h = restore_regions rs bss' (if bs = [] then h else h1)"
    using live len st by (auto simp: bss region_live_def load_at_def)
  define h2 where "h2 = (if bs = [] then h else h1)"
  have h2: "h_heap h2 = (h_heap h)(m_hostAddr r \<mapsto> bs)"
    using live len h1 by (auto simp: h2_def region_live_def fun_upd_idem)
  have apart: "m_hostAddr q \<noteq> m_hostAddr r" if "q \<in> set rs" for q
    using Cons.prems(2) that by (metis distinct.simps(2) imageI list.map(2) set_map)
  have "\<forall>q \<in> set rs. region_live h2 q"
    using Cons.prems(1) h2 apart by (simp add: region_live_def)
  from Cons.IH [OF this _ rest] obtain h' where h': "restore_regions rs bss' h2 = Some h'"
    and bytes: "map (region_bytes h') rs = bss'"
    and frame: "\<forall>q. q \<notin> m_hostAddr ` set rs \<longrightarrow> h_heap h' q = h_heap h2 q"
    and regs: "\<forall>K fd. reg_laws K \<longrightarrow> kregs K fd h' = kregs K fd h2 \<and> ksregs K fd h' = ksregs K fd h2"
    using Cons.prems(2) by auto
  have "m_hostAddr r \<notin> m_hostAddr ` set rs" using Cons.prems(2) by simp
  with frame h2 have "region_bytes h' r = bs" by (simp add: region_bytes_def block_def)
  moreover have "\<forall>K fd. reg_laws K \<longrightarrow> kregs K fd h2 = kregs K fd h \<and> ksregs K fd h2 = ksregs K fd h"
    using heap_store_regs [OF _ st] by (simp add: h2_def)
  ultimately show ?case
    using h' bytes frame regs h2 step by (simp add: bss h2_def)
qed simp

text \<open>C2: a snapshot of a well-formed machine can be restored in any later state in which its
  regions are still mapped, whatever their contents and the guest's registers have become: restoring
  is defined, every region has the bytes it had when the snapshot was taken, no other mapping is
  touched, and each register file whose \<^verbatim>\<open>KVM_SET\<close> call reports success is back as well.\<close>

theorem snapshot_restore:
  assumes laws: "reg_laws K" "errno_law K" and vcpu: "vm_vcpus vm = v # vs"
    and wf: "vm_wf h0 vm" "vm_wf h2 vm"
    and regs: "kregs K (v_fd v) h0 = Some r" "bit (rflags r) 1" "ksregs K (v_fd v) h0 = Some sr"
    and snap: "VirtualMachine_takeSnapShot K vm h0 = Some (snap, h1)"
  shows "\<exists>cr cs h3. VirtualMachine_restoreSnapshot K vm snap h2 = Some (cr, cs, h3) \<and>
     (\<forall>q \<in> set (vm_memoryRegions vm). region_bytes h3 q = region_bytes h0 q) \<and>
     (\<forall>p. p \<notin> m_hostAddr ` set (vm_memoryRegions vm) \<longrightarrow> h_heap h3 p = h_heap h2 p) \<and>
     (cr = ok_code \<longrightarrow> kregs K (v_fd v) h3 = Some r) \<and> (cs = ok_code \<longrightarrow> ksregs K (v_fd v) h3 = Some sr)"
proof -
  obtain g ha where g: "VCpu_getRegs K v h0 = (g, ha)" by fastforce
  obtain g' hb where g': "VCpu_getSregs K v ha = (g', hb)" by fastforce
  note fg = getRegs_kregs [OF laws(1) g] and fg' = getSregs_ksregs [OF laws(1) g']
  have heap: "h_heap hb = h_heap h0" using fg(2) fg'(2) by simp
  have gs: "g = Inr r" "g' = Inr sr"
    using fg(1) fg(5) [of "v_fd v"] fg'(1) regs by (auto split: sum.splits)
  have "snapshot_regions (vm_memoryRegions vm) hb = Some (map (region_bytes hb) (vm_memoryRegions vm))"
    using wf(1) region_live_cong [OF heap] by (intro snapshot_regions_live) (simp add: vm_wf_def)
  then have snap_eq: "snap = \<lparr>snap_regs = r, snap_sregs = sr,
      snap_memoryRegions = map (region_bytes h0) (vm_memoryRegions vm)\<rparr>"
    using snap vcpu g g' gs region_bytes_cong [OF heap]
    by (auto simp: VirtualMachine_takeSnapShot_def)
  obtain cr hc where sr: "VCpu_setRegs K v r h2 = (cr, hc)" by fastforce
  obtain cs he where ss: "VCpu_setSregs K v sr hc = (cs, he)" by fastforce
  note fr = setRegs_ok [OF laws(1) sr] and fs = setSregs_ok [OF laws(1) ss]
  have heap2: "h_heap he = h_heap h2" using fr(1) fs(1) by simp
  have live: "\<forall>q \<in> set (vm_memoryRegions vm). region_live he q"
    using wf(2) region_live_cong [OF heap2] by (simp add: vm_wf_def)
  have lens: "list_all2 (\<lambda>r bs. length bs = unat (m_size r)) (vm_memoryRegions vm)
      (map (region_bytes h0) (vm_memoryRegions vm))"
    using wf(1) by (auto simp: vm_wf_def list_all2_map2 list_all2_same region_live_length)
  have dist: "distinct (map m_hostAddr (vm_memoryRegions vm))" using wf(2) by (simp add: vm_wf_def)
  from restore_regions_exact [OF live dist lens] obtain h3 where
    h3: "restore_regions (vm_memoryRegions vm) (map (region_bytes h0) (vm_memoryRegions vm)) he = Some h3"
      "map (region_bytes h3) (vm_memoryRegions vm) = map (region_bytes h0) (vm_memoryRegions vm)"
      "\<forall>q. q \<notin> m_hostAddr ` set (vm_memoryRegions vm) \<longrightarrow> h_heap h3 q = h_heap he q"
    and regs3: "kregs K (v_fd v) h3 = kregs K (v_fd v) he" "ksregs K (v_fd v) h3 = ksregs K (v_fd v) he"
    using laws(1) by (elim exE conjE) simp
  have "VirtualMachine_restoreSnapshot K vm snap h2 = Some (cr, cs, h3)"
    using vcpu sr ss h3(1) by (simp add: VirtualMachine_restoreSnapshot_def snap_eq)
  moreover have "cr = ok_code \<longrightarrow> kregs K (v_fd v) h3 = Some r"
    using fr(4) [OF laws(2)] regs(2) fs(3) regs3(1) by simp
  moreover have "cs = ok_code \<longrightarrow> ksregs K (v_fd v) h3 = Some sr"
    using fs(4) [OF laws(2)] regs3(2) by simp
  ultimately show ?thesis using h3(2,3) heap2 by auto
qed

theorem snapshot_restore_witness:
  "\<exists>snap h1 cr cs h3. VirtualMachine_takeSnapShot sim_kernel demo_vm (demo_host []) = Some (snap, h1) \<and>
     VirtualMachine_restoreSnapshot sim_kernel demo_vm snap
       ((demo_host [])\<lparr>h_heap := [0x10000000 \<mapsto> [9, 9, 9, 9]]\<rparr>) = Some (cr, cs, h3) \<and>
     region_bytes h3 demo_region = [1, 2, 3, 4]"
proof -
  let ?h2 = "(demo_host [])\<lparr>h_heap := [0x10000000 \<mapsto> [9, 9, 9, 9]]\<rparr>"
  have wf2: "vm_wf ?h2 demo_vm"
    by (simp add: vm_wf_def demo_vm_def region_live_def demo_region_def MAP_FAILED_def)
  have regs: "kregs sim_kernel (v_fd demo_vcpu) (demo_host []) = Some (kvm_regs0\<lparr>rflags := 2\<rparr>)"
    "ksregs sim_kernel (v_fd demo_vcpu) (demo_host []) = Some kvm_sregs0"
    by (simp_all add: kregs_def ksregs_def demo_vcpu_def demo_host_defs)
  obtain snap h1 where t: "VirtualMachine_takeSnapShot sim_kernel demo_vm (demo_host []) = Some (snap, h1)"
    by (simp add: VirtualMachine_takeSnapShot_def demo_vm_def VCpu_getRegs_def VCpu_getSregs_def
        demo_host_defs demo_vcpu_def demo_region_def heap_load_def load_at_def block_def)
  have "region_bytes (demo_host []) demo_region = [1, 2, 3, 4]"
    by (simp add: region_bytes_def block_def demo_region_def demo_host_def)
  with snapshot_restore [OF sim_reg_laws sim_errno_law _ demo_vm_wf wf2 regs(1) _ regs(2) t, of "[]"] t
  show ?thesis by (auto simp: demo_vm_def kvm_regs0_def bit_numeral_Bit0_Suc_iff)
qed

end
