(* ===== verification/Kvm_System.thy ===== *)
theory Kvm_System
  imports Virtual_Machine
begin

text \<open>
  \<^verbatim>\<open>class KvmSystem\<close> (include/hv/KvmSystem.h, src/KvmSystem.cpp): opening \<^verbatim>\<open>/dev/kvm\<close>, checking the
  API version, creating machines. The error code of a failing ioctl is read from \<^verbatim>\<open>errno\<close> where
  the source reads it: in \<^verbatim>\<open>open\<close> that is after \<^verbatim>\<open>close\<close>.
\<close>

section \<open>The class\<close>

record KvmSystem =
  s_fd :: int
  s_apiVersion :: int
  s_vcpuMmapSize :: int

definition KvmSystem_open :: "'k kernel \<Rightarrow> string \<Rightarrow> 'k host \<Rightarrow> (error_code + KvmSystem) \<times> 'k host" where
  "KvmSystem_open K kvm_device h =
     (let (fd, h1) = sys_open K kvm_device h in
      if fd < 0 then (Inl (h_errno h1), h1)
      else
        let (version, h2) = sys_ioctl K fd KVM_GET_API_VERSION h1 in
        if version < 0 then
          let (_, h3) = sys_close K fd h2 in (Inl (h_errno h3), h3)
        else if version \<noteq> KVM_API_VERSION then
          let (_, h3) = sys_close K fd h2 in (Inl ENOTSUP, h3)
        else
          let (mmapSize, h3) = sys_ioctl K fd KVM_GET_VCPU_MMAP_SIZE h2 in
          if mmapSize < 0 then
            let (_, h4) = sys_close K fd h3 in (Inl (h_errno h4), h4)
          else (Inr \<lparr>s_fd = fd, s_apiVersion = version, s_vcpuMmapSize = mmapSize\<rparr>, h3))"

definition KvmSystem_release :: "'k kernel \<Rightarrow> KvmSystem \<Rightarrow> 'k host \<Rightarrow> 'k host" where
  "KvmSystem_release K s h = (if s_fd s \<ge> 0 then snd (sys_close K (s_fd s) h) else h)"

definition KvmSystem_move :: "KvmSystem \<Rightarrow> KvmSystem \<times> KvmSystem" where
  "KvmSystem_move other =
     (\<lparr>s_fd = s_fd other, s_apiVersion = s_apiVersion other, s_vcpuMmapSize = s_vcpuMmapSize other\<rparr>,
      other\<lparr>s_fd := - 1\<rparr>)"

text \<open>The members are taken over inside the test \<^verbatim>\<open>m_fd >= 0\<close> of the target.\<close>

definition KvmSystem_assign ::
  "'k kernel \<Rightarrow> bool \<Rightarrow> KvmSystem \<Rightarrow> KvmSystem \<Rightarrow> 'k host \<Rightarrow> KvmSystem \<times> KvmSystem \<times> 'k host" where
  "KvmSystem_assign K self this other h =
     (if \<not> self then
        if s_fd this \<ge> 0 then
          let h1 = snd (sys_close K (s_fd this) h)
          in (this\<lparr>s_fd := s_fd other, s_apiVersion := s_apiVersion other,
                   s_vcpuMmapSize := s_vcpuMmapSize other\<rparr>,
              other\<lparr>s_fd := - 1\<rparr>, h1)
        else (this, other, h)
      else (this, other, h))"

definition KvmSystem_createVm :: "'k kernel \<Rightarrow> KvmSystem \<Rightarrow> 'k host \<Rightarrow> (error_code + VirtualMachine) \<times> 'k host" where
  "KvmSystem_createVm K s h =
     (let (fd, h1) = sys_ioctl K (s_fd s) KVM_CREATE_VM h in
      if fd < 0 then (Inl (h_errno h1), h1)
      else (Inr (VirtualMachine_new fd (s_vcpuMmapSize s)), h1))"

definition KvmSystem_checkExtension :: "'k kernel \<Rightarrow> KvmSystem \<Rightarrow> int \<Rightarrow> 'k host \<Rightarrow> bool \<times> 'k host" where
  "KvmSystem_checkExtension K s capability h =
     (let (rc, h1) = sys_ioctl K (s_fd s) (KVM_CHECK_EXTENSION capability) h in (rc > 0, h1))"

section \<open>Ownership\<close>

interpretation system: raii "KvmSystem_release K" KvmSystem_move for K
  by unfold_locales (simp_all add: KvmSystem_release_def KvmSystem_move_def)

text \<open>Assigning to a moved-from system takes nothing over: the target stays without a descriptor.\<close>

lemma system_assign_to_moved_from:
  "KvmSystem_assign K False (snd (KvmSystem_move s)) other h = (snd (KvmSystem_move s), other, h)"
  by (simp add: KvmSystem_assign_def KvmSystem_move_def)

lemma system_assign_live:
  "0 \<le> s_fd this \<Longrightarrow> KvmSystem_assign K False this other h =
     (fst (KvmSystem_move other), snd (KvmSystem_move other), KvmSystem_release K this h)"
  by (simp add: KvmSystem_assign_def KvmSystem_move_def KvmSystem_release_def Let_def)

section \<open>Descriptors\<close>

lemma system_open_fds:
  assumes law: "fd_law K F" and op: "KvmSystem_open K path h = (res, h')"
  shows "case res of Inl _ \<Rightarrow> F h' = F h
    | Inr s \<Rightarrow> s_fd s \<notin> F h \<and> F h' = insert (s_fd s) (F h) \<and> 0 \<le> s_fd s \<and> s_apiVersion s = KVM_API_VERSION"
proof -
  obtain fd h1 where o: "sys_open K path h = (fd, h1)" by fastforce
  obtain version h2 where v: "sys_ioctl K fd KVM_GET_API_VERSION h1 = (version, h2)" by fastforce
  obtain mmapSize h3 where m: "sys_ioctl K fd KVM_GET_VCPU_MMAP_SIZE h2 = (mmapSize, h3)" by fastforce
  have close: "F h'' = F h'1 - {fd}" if "sys_close K fd h'1 = (rc, h'')" for rc h'1 h''
    by (rule fd_closeD [OF law that])
  have F2: "F h2 = F h1" "F h3 = F h2"
    using fd_ioctlD(2) [OF law v] fd_ioctlD(2) [OF law m] by (simp_all add: creates_fd_def)
  show ?thesis
  proof (cases "fd < 0")
    case True
    with op o fd_openD(1) [OF law o] show ?thesis by (auto simp: KvmSystem_open_def)
  next
    case False
    with op o v m fd_openD(2,3) [OF law o] F2 show ?thesis
      by (auto simp: KvmSystem_open_def Let_def dest: close split: prod.splits if_splits)
  qed
qed

lemma vcpu_create_fds:
  assumes law: "fd_law K F" and cr: "VCpu_create K vmfd i n h = (res, h')"
  shows "case res of Inl _ \<Rightarrow> F h' = F h
    | Inr v \<Rightarrow> v_fd v \<notin> F h \<and> F h' = insert (v_fd v) (F h) \<and> 0 \<le> v_fd v \<and> v_id v = i"
proof -
  obtain fd h1 where c: "sys_ioctl K vmfd (KVM_CREATE_VCPU (ucast i)) h = (fd, h1)" by fastforce
  obtain p h2 where m: "sys_mmap_vcpu K fd (of_int n) h1 = (p, h2)" by fastforce
  obtain rc h3 where cl: "sys_close K fd h2 = (rc, h3)" by fastforce
  have created: "fd \<notin> F h" "F h1 = insert fd (F h)" if "\<not> fd < 0"
    using fd_ioctlD(4,5) [OF law c _ that] by (simp_all add: creates_fd_def)
  show ?thesis
    using cr c m cl created fd_ioctlD(3) [OF law c] fd_mapD(1) [OF law m] fd_closeD [OF law cl]
    by (auto simp: VCpu_create_def split: if_splits)
qed



section \<open>Destroying a machine\<close>

lemma region_release_fds:
  assumes "fd_law K F"
  shows "F (MemoryRegion_release K r h) = F h"
proof -
  obtain rc h1 where io: "sys_ioctl K (m_vmFd r) (KVM_SET_USER_MEMORY_REGION \<lparr>umr_slot = m_slot r,
      umr_flags = 0, umr_guest_phys_addr = 0, umr_memory_size = 0, umr_userspace_addr = 0\<rparr>) h = (rc, h1)"
    by fastforce
  obtain rc' h2 where un: "sys_munmap K (m_hostAddr r) (m_size r) h1 = (rc', h2)" by fastforce
  have "F h2 = F h"
    using fd_ioctlD(2) [OF assms io] fd_mapD(2) [OF assms un] by (simp add: creates_fd_def)
  with io un show ?thesis by (simp add: MemoryRegion_release_def)
qed

lemma fold_region_release_fds: "fd_law K F \<Longrightarrow> F (fold (MemoryRegion_release K) rs h) = F h"
  by (induction rs arbitrary: h) (simp_all add: region_release_fds)

lemma vcpu_release_fds:
  assumes "fd_law K F"
  shows "F (VCpu_release K v h) = F h - {fd. fd = v_fd v \<and> 0 \<le> fd}"
proof -
  obtain rc h1 where un: "sys_munmap K (v_runPage v) (v_mmapSize v) h = (rc, h1)" by fastforce
  have "F (snd (sys_close K (v_fd v) x)) = F x - {v_fd v}" for x
    by (rule fd_closeD [OF assms prod.collapse [symmetric]])
  with fd_mapD(2) [OF assms un] un show ?thesis by (auto simp: VCpu_release_def)
qed

lemma fold_vcpu_release_fds:
  "fd_law K F \<Longrightarrow> F (fold (VCpu_release K) vs h) = F h - {fd. fd \<in> v_fd ` set vs \<and> 0 \<le> fd}"
  by (induction vs arbitrary: h) (auto simp: vcpu_release_fds)

lemma vcpu_release_heap:
  assumes "mem_laws K" and "h_heap h (v_runPage v) = None"
  shows "h_heap (VCpu_release K v h) = h_heap h"
proof -
  obtain rc h1 where un: "sys_munmap K (v_runPage v) (v_mmapSize v) h = (rc, h1)" by fastforce
  have "h_heap (snd (sys_close K (v_fd v) x)) = h_heap x" for x
    by (rule closeD(1) [OF assms(1) prod.collapse [symmetric]])
  with munmap_noneD [OF assms(1) un assms(2)] un show ?thesis by (simp add: VCpu_release_def)
qed

lemma fold_vcpu_release_heap:
  "mem_laws K \<Longrightarrow> \<forall>v \<in> set vs. h_heap h (v_runPage v) = None \<Longrightarrow>
     h_heap (fold (VCpu_release K) vs h) = h_heap h"
  by (induction vs arbitrary: h) (simp_all add: vcpu_release_heap)

lemma fold_region_release:
  assumes "mem_laws K" and "\<forall>r \<in> set rs. region_live h r" and "distinct (map m_hostAddr rs)"
  shows "h_heap (fold (MemoryRegion_release K) rs h) = h_heap h |` (- m_hostAddr ` set rs) \<and>
    h_runs (fold (MemoryRegion_release K) rs h) = h_runs h"
  using assms(2,3)
proof (induction rs arbitrary: h)
  case (Cons r rs)
  let ?h = "MemoryRegion_release K r h"
  have freed: "h_heap ?h = (h_heap h)(m_hostAddr r := None)" "h_runs ?h = h_runs h"
    using region_release_frees [OF assms(1)] Cons.prems(1) by simp_all
  have "region_live ?h q" if "q \<in> set rs" for q
  proof -
    have "m_hostAddr q \<noteq> m_hostAddr r"
      using Cons.prems(2) that by (metis distinct.simps(2) imageI list.map(2) set_map)
    then show ?thesis using Cons.prems(1) that freed by (simp add: region_live_def)
  qed
  with Cons.IH [of ?h] Cons.prems(2)
  have "h_heap (fold (MemoryRegion_release K) rs ?h) = h_heap ?h |` (- m_hostAddr ` set rs) \<and>
      h_runs (fold (MemoryRegion_release K) rs ?h) = h_runs ?h" by simp
  then show ?case by (auto simp: freed restrict_map_def fun_eq_iff)
qed (simp add: restrict_map_def fun_eq_iff)

text \<open>C16: destroying a machine gives back exactly what it owns: every region's mapping is gone and no
  other, and its own descriptor and those of its vCPUs are closed and no other.\<close>

theorem machine_release_exact:
  assumes laws: "mem_laws K" "fd_law K F" and wf: "vm_wf h vm" and fd: "0 \<le> vm_fd vm"
    and pages: "\<forall>v \<in> set (vm_vcpus vm). h_heap h (v_runPage v) = None"
  shows "h_heap (VirtualMachine_release K vm h) = h_heap h |` (- m_hostAddr ` set (vm_memoryRegions vm)) \<and>
    F (VirtualMachine_release K vm h) = F h - {vm_fd vm} - {f. f \<in> v_fd ` set (vm_vcpus vm) \<and> 0 \<le> f}"
proof -
  obtain rc h1 where cl: "sys_close K (vm_fd vm) h = (rc, h1)" by fastforce
  let ?h2 = "fold (VCpu_release K) (vm_vcpus vm) h1"
  have heap2: "h_heap ?h2 = h_heap h"
    using fold_vcpu_release_heap [OF laws(1), of "vm_vcpus vm" h1] pages closeD(1) [OF laws(1) cl] by simp
  have "\<forall>r \<in> set (vm_memoryRegions vm). region_live ?h2 r"
    and dist: "distinct (map m_hostAddr (vm_memoryRegions vm))"
    using wf region_live_cong [OF heap2] by (simp_all add: vm_wf_def)
  then have "h_heap (fold (MemoryRegion_release K) (vm_memoryRegions vm) ?h2) =
      h_heap h |` (- m_hostAddr ` set (vm_memoryRegions vm))"
    using fold_region_release [OF laws(1)] heap2 by simp
  then show ?thesis
    using fd cl fd_closeD [OF laws(2) cl] fold_vcpu_release_fds [OF laws(2)]
      fold_region_release_fds [OF laws(2)]
    by (simp add: VirtualMachine_release_def)
qed

theorem machine_release_exact_witness:
  "vm_wf (demo_host []) demo_vm \<and>
   h_heap (VirtualMachine_release sim_kernel demo_vm (demo_host [])) 0x10000000 = None \<and>
   set (sim_fds (h_kern (VirtualMachine_release sim_kernel demo_vm (demo_host [])))) = {3}"
proof -
  let ?h' = "VirtualMachine_release sim_kernel demo_vm (demo_host [])"
  have "h_heap ?h' = h_heap (demo_host []) |` (- m_hostAddr ` set (vm_memoryRegions demo_vm)) \<and>
      set (sim_fds (h_kern ?h')) = set (sim_fds (h_kern (demo_host []))) - {vm_fd demo_vm} -
        {f. f \<in> v_fd ` set (vm_vcpus demo_vm) \<and> 0 \<le> f}"
    by (rule machine_release_exact [OF sim_mem_laws sim_fd_law demo_vm_wf])
      (simp_all add: demo_vm_def demo_vcpu_def demo_host_def)
  moreover have "m_hostAddr ` set (vm_memoryRegions demo_vm) = {0x10000000}" "vm_fd demo_vm = 4"
    "v_fd ` set (vm_vcpus demo_vm) = {5}" "sim_fds (h_kern (demo_host [])) = [5, 4, 3]"
    by (simp_all add: demo_vm_def demo_vcpu_def demo_host_def demo_region_def)
  ultimately show ?thesis by auto
qed

text \<open>C37: the machine's destructor closes the VM descriptor before its regions are destroyed, so by the
  time a region's destructor runs, no request on that descriptor can succeed: the memory slots are
  never unregistered, although the class promises it.\<close>

theorem slots_never_unregistered:
  assumes law: "fd_law K F" and fd: "0 \<le> vm_fd vm"
    and i: "i < length (vm_memoryRegions vm)" and owner: "m_vmFd (vm_memoryRegions vm ! i) = vm_fd vm"
  shows "\<exists>hi. VirtualMachine_release K vm h =
       fold (MemoryRegion_release K) (drop i (vm_memoryRegions vm)) hi \<and>
     (\<forall>q. fst (sys_ioctl K (m_vmFd (vm_memoryRegions vm ! i)) q hi) < 0)"
proof -
  obtain rc h1 where cl: "sys_close K (vm_fd vm) h = (rc, h1)" by fastforce
  define hi where "hi = fold (MemoryRegion_release K) (take i (vm_memoryRegions vm))
      (fold (VCpu_release K) (vm_vcpus vm) h1)"
  have "F hi \<subseteq> F h1"
    unfolding hi_def fold_region_release_fds [OF law] fold_vcpu_release_fds [OF law] by blast
  then have closed: "vm_fd vm \<notin> F hi"
    using fd_closeD [OF law cl] by blast
  have "VirtualMachine_release K vm h = fold (MemoryRegion_release K)
      (take i (vm_memoryRegions vm) @ drop i (vm_memoryRegions vm)) (fold (VCpu_release K) (vm_vcpus vm) h1)"
    using fd cl by (simp add: VirtualMachine_release_def)
  then have "VirtualMachine_release K vm h = fold (MemoryRegion_release K) (drop i (vm_memoryRegions vm)) hi"
    by (simp only: fold_append comp_apply hi_def)
  moreover have "fst (sys_ioctl K (m_vmFd (vm_memoryRegions vm ! i)) q hi) < 0" for q
    using fd_ioctlD(1) [OF law prod.collapse [symmetric]] closed owner by simp
  ultimately show ?thesis by blast
qed

theorem slots_never_unregistered_witness:
  "\<exists>hi. VirtualMachine_release sim_kernel demo_vm (demo_host []) = MemoryRegion_release sim_kernel demo_region hi \<and>
     fst (sys_ioctl sim_kernel 4 KVM_CREATE_IRQCHIP hi) < 0"
proof -
  have "\<exists>hi. VirtualMachine_release sim_kernel demo_vm (demo_host []) =
        fold (MemoryRegion_release sim_kernel) (drop 0 (vm_memoryRegions demo_vm)) hi \<and>
      (\<forall>q. fst (sys_ioctl sim_kernel (m_vmFd (vm_memoryRegions demo_vm ! 0)) q hi) < 0)"
    by (rule slots_never_unregistered [OF sim_fd_law])
      (simp_all add: demo_vm_def demo_region_def)
  moreover have "vm_memoryRegions demo_vm = [demo_region]" "m_vmFd demo_region = 4"
    by (simp_all add: demo_vm_def demo_region_def)
  ultimately show ?thesis by (auto simp del: sim_kernel_simps)
qed

end
