(* ===== verification/Exit_Interface.thy ===== *)
theory Exit_Interface
  imports Host_Kernel
begin

text \<open>
  What the run loop relies on when it hands a guest exit to a handler: in a host whose \<^verbatim>\<open>kvm_run\<close> page
  is ready the handler returns, and leaves a handler and a host of which the same holds. The port,
  MMIO and CPUID handlers are instances.
\<close>

type_synonym 'a app_inv = "(u64 \<rightharpoonup> nat) \<Rightarrow> 'a \<Rightarrow> bool"

text \<open>
  A ready page, together with an invariant \<open>I\<close> of the application's objects and of the mappings they
  point to; and a callback that leaves the pages alone and keeps the invariant.
\<close>

definition env_ready :: "'a app_inv \<Rightarrow> u64 \<Rightarrow> ('k, 'a) env \<Rightarrow> bool" where
  "env_ready I p e \<longleftrightarrow> page_ready p (e_host e) \<and> I (heap_shape (e_host e)) (e_app e)"

definition keeps_ready :: "'a app_inv \<Rightarrow> (('k, 'a) env \<Rightarrow> ('k, 'a) env) \<Rightarrow> bool" where
  "keeps_ready I f \<longleftrightarrow>
     (\<forall>e. I (heap_shape (e_host e)) (e_app e) \<longrightarrow>
        h_runs (e_host (f e)) = h_runs (e_host e) \<and> I (heap_shape (e_host (f e))) (e_app (f e)))"

lemma env_ready_cong:
  assumes "h_runs (e_host e') = h_runs (e_host e)" and "h_heap (e_host e') = h_heap (e_host e)" and "e_app e' = e_app e"
  shows "env_ready I p e' = env_ready I p e"
  using assms by (simp add: env_ready_def page_ready_def heap_shape_def)

lemma env_ready_set_run:
  "env_ready I p e \<Longrightarrow> run_fits run \<Longrightarrow> env_ready I p (set_run p run e)"
  by (simp add: env_ready_def page_ready_def heap_shape_def)

lemma env_ready_run:
  assumes "env_ready I p e"
  obtains run where "h_runs (e_host e) p = Some run" and "run_fits run" and "I (heap_shape (e_host e)) (e_app e)"
  using assms by (auto simp: env_ready_def page_ready_def)

lemma keeps_readyD:
  assumes "keeps_ready I f" and "env_ready I p e"
  shows "env_ready I p (f e)" and "h_runs (e_host (f e)) = h_runs (e_host e)"
  using assms by (auto simp: env_ready_def page_ready_def keeps_ready_def)

text \<open>A handler behind a pointer that may be null: a missing handler counts as success.\<close>

definition optionally ::
  "('h \<Rightarrow> 's \<Rightarrow> (bool \<times> 'h \<times> 's) option) \<Rightarrow> 'h option \<Rightarrow> 's \<Rightarrow> (bool \<times> 'h option \<times> 's) option" where
  "optionally handle h s =
     (case h of
        None \<Rightarrow> Some (True, None, s)
      | Some t \<Rightarrow> do { (ok, t', s') \<leftarrow> handle t s; Some (ok, Some t', s') })"

locale exit_handler =
  fixes handle :: "'h \<Rightarrow> 's \<Rightarrow> (bool \<times> 'h \<times> 's) option"
    and safe :: "'h \<Rightarrow> bool"
    and ready :: "'s \<Rightarrow> bool"
  assumes returns:
    "safe t \<Longrightarrow> ready s \<Longrightarrow> \<exists>ok t' s'. handle t s = Some (ok, t', s') \<and> safe t' \<and> ready s'"
begin

lemma keeps: "handle t s = Some (ok, t', s') \<Longrightarrow> safe t \<Longrightarrow> ready s \<Longrightarrow> safe t' \<and> ready s'"
  using returns [of t s] by auto

lemma optionally_returns:
  assumes "pred_option safe h" and "ready s"
  shows "\<exists>ok h' s'. optionally handle h s = Some (ok, h', s') \<and> pred_option safe h' \<and> ready s'"
proof (cases h)
  case (Some t)
  then show ?thesis using assms returns [of t s] by (auto simp: optionally_def)
qed (use assms in \<open>auto simp: optionally_def\<close>)

lemma optionally_presence: "optionally handle h s = Some (ok, h', s') \<Longrightarrow> (h' = None) = (h = None)"
  by (auto simp: optionally_def split: option.splits Option.bind_splits)

end

end
