(* ===== verification/Cpuid_Handler.thy ===== *)
theory Cpuid_Handler
  imports Vcpu_Model Sim_Kernel Exit_Interface
begin

text \<open>
  \<^verbatim>\<open>class CpuidHandler\<close> (include/hv/CpuidHandler.h, src/CpuidHandler.cpp): per-leaf callbacks, the host's
  CPUID for the other leaves, and the injection of the result into the guest's registers.
\<close>

section \<open>Model\<close>

record LeafResult =
  lr_eax :: u32
  lr_ebx :: u32
  lr_ecx :: u32
  lr_edx :: u32

type_synonym ('k, 'a) LeafCallback = "u32 \<Rightarrow> u32 \<Rightarrow> ('k, 'a) env \<Rightarrow> LeafResult \<times> ('k, 'a) env"

record ('k, 'a) CpuidHandler =
  ch_leafCallbacks :: "u32 \<rightharpoonup> ('k, 'a) LeafCallback"
  ch_handledCount :: u64

definition CpuidHandler0 :: "('k, 'a) CpuidHandler" where
  "CpuidHandler0 = \<lparr>ch_leafCallbacks = Map.empty, ch_handledCount = 0\<rparr>"

definition CpuidHandler_registerLeaf ::
  "u32 \<Rightarrow> ('k, 'a) LeafCallback \<Rightarrow> ('k, 'a) CpuidHandler \<Rightarrow> ('k, 'a) CpuidHandler" where
  "CpuidHandler_registerLeaf leaf cb t = t\<lparr>ch_leafCallbacks := (ch_leafCallbacks t)(leaf \<mapsto> cb)\<rparr>"

definition CpuidHandler_executeHostCpuid :: "'k kernel \<Rightarrow> u32 \<Rightarrow> u32 \<Rightarrow> 'k host \<Rightarrow> LeafResult" where
  "CpuidHandler_executeHostCpuid K leaf subleaf h =
     (let (a, b, c, d) = cpu_cpuid K leaf subleaf h in \<lparr>lr_eax = a, lr_ebx = b, lr_ecx = c, lr_edx = d\<rparr>)"

definition CpuidHandler_handle ::
  "'k kernel \<Rightarrow> VCpu \<Rightarrow> ('k, 'a) CpuidHandler \<Rightarrow> ('k, 'a) env \<Rightarrow> bool \<times> ('k, 'a) CpuidHandler \<times> ('k, 'a) env" where
  "CpuidHandler_handle K vcpu t e =
     (let (regs_result, e1) = on_host (VCpu_getRegs K vcpu) e in
      case regs_result of
        Inl _ \<Rightarrow> (False, t, e1)
      | Inr regs \<Rightarrow>
          let leaf = (ucast (rax regs) :: u32);
              subleaf = (ucast (rcx regs) :: u32);
              (result, e2) = (case ch_leafCallbacks t leaf of
                                Some cb \<Rightarrow> cb leaf subleaf e1
                              | None \<Rightarrow> (CpuidHandler_executeHostCpuid K leaf subleaf (e_host e1), e1));
              regs' = regs\<lparr>rax := ucast (lr_eax result), rbx := ucast (lr_ebx result),
                           rcx := ucast (lr_ecx result), rdx := ucast (lr_edx result)\<rparr>;
              (ec, e3) = on_host (VCpu_setRegs K vcpu regs') e2
          in if ec \<noteq> ok_code then (False, t, e3)
             else (True, t\<lparr>ch_handledCount := ch_handledCount t + 1\<rparr>, e3))"

interpretation leaves: callback_table CpuidHandler_registerLeaf ch_leafCallbacks
  by unfold_locales (simp add: CpuidHandler_registerLeaf_def)

section \<open>Behaviour\<close>

text \<open>The answer for the registers of a guest that executed CPUID, and the registers with the answer in.\<close>

definition cpuid_answer ::
  "'k kernel \<Rightarrow> ('k, 'a) CpuidHandler \<Rightarrow> kvm_regs \<Rightarrow> ('k, 'a) env \<Rightarrow> LeafResult \<times> ('k, 'a) env" where
  "cpuid_answer K t regs e =
     (case ch_leafCallbacks t (ucast (rax regs)) of
        Some cb \<Rightarrow> cb (ucast (rax regs)) (ucast (rcx regs)) e
      | None \<Rightarrow> (CpuidHandler_executeHostCpuid K (ucast (rax regs)) (ucast (rcx regs)) (e_host e), e))"

definition with_leaf :: "LeafResult \<Rightarrow> kvm_regs \<Rightarrow> kvm_regs" where
  "with_leaf r regs = regs\<lparr>rax := ucast (lr_eax r), rbx := ucast (lr_ebx r),
     rcx := ucast (lr_ecx r), rdx := ucast (lr_edx r)\<rparr>"

lemma cpuid_handle_eq:
  "CpuidHandler_handle K vcpu t e =
     (case on_host (VCpu_getRegs K vcpu) e of
        (Inl _, e1) \<Rightarrow> (False, t, e1)
      | (Inr regs, e1) \<Rightarrow>
          (case cpuid_answer K t regs e1 of (result, e2) \<Rightarrow>
             (case on_host (VCpu_setRegs K vcpu (with_leaf result regs)) e2 of (ec, e3) \<Rightarrow>
                if ec \<noteq> ok_code then (False, t, e3)
                else (True, t\<lparr>ch_handledCount := ch_handledCount t + 1\<rparr>, e3))))"
  by (simp add: CpuidHandler_handle_def cpuid_answer_def with_leaf_def Let_def split: prod.split sum.split)

lemma cpuid_callbacks_kept:
  "CpuidHandler_handle K v t e = (ok, t', e') \<Longrightarrow> ch_leafCallbacks t' = ch_leafCallbacks t"
  by (auto simp: cpuid_handle_eq split: sum.splits if_splits prod.splits)

lemma cpuid_handle_success:
  assumes laws: "reg_laws K" "errno_law K"
    and regs: "kregs K (v_fd vcpu) (e_host e) = Some regs" "bit (rflags regs) 1"
    and handle: "CpuidHandler_handle K vcpu t e = (True, t', e')"
  shows "\<exists>e1. e_app e1 = e_app e \<and> h_heap (e_host e1) = h_heap (e_host e) \<and>
     kregs K (v_fd vcpu) (e_host e') = Some (with_leaf (fst (cpuid_answer K t regs e1)) regs) \<and>
     e_app e' = e_app (snd (cpuid_answer K t regs e1)) \<and>
     t' = t\<lparr>ch_handledCount := ch_handledCount t + 1\<rparr>"
proof -
  obtain rr e1 where g: "on_host (VCpu_getRegs K vcpu) e = (rr, e1)" by fastforce
  note g1 = getRegs_kregs [OF laws(1) on_hostD(1) [OF g]]
  have rr: "rr = Inr regs" using g1(1) regs(1) by (auto split: sum.splits)
  obtain result e2 where a: "cpuid_answer K t regs e1 = (result, e2)" by fastforce
  obtain ec e3 where s: "on_host (VCpu_setRegs K vcpu (with_leaf result regs)) e2 = (ec, e3)" by fastforce
  have ok: "ec = ok_code" "e' = e3" "t' = t\<lparr>ch_handledCount := ch_handledCount t + 1\<rparr>"
    using handle by (auto simp: cpuid_handle_eq g rr a s split: if_splits)
  have "kregs K (v_fd vcpu) (e_host e3) = Some (with_leaf result regs)"
    using setRegs_ok(4) [OF laws(1) on_hostD(1) [OF s] laws(2)] ok(1) regs(2) by (simp add: with_leaf_def)
  with ok a on_hostD(2) [OF g] on_hostD(2) [OF s] g1(2) show ?thesis by auto
qed

definition cpuid_quiet :: "'a app_inv \<Rightarrow> 'k kernel \<Rightarrow> ('k, 'a) CpuidHandler \<Rightarrow> bool" where
  "cpuid_quiet I K t \<longleftrightarrow> reg_laws K \<and>
     (\<forall>leaf cb subleaf. ch_leafCallbacks t leaf = Some cb \<longrightarrow> keeps_ready I (\<lambda>e. snd (cb leaf subleaf e)))"

lemma cpuid_answer_ready:
  assumes "cpuid_quiet I K t" and ready: "env_ready I p e" and a: "cpuid_answer K t regs e = (result, e')"
  shows "env_ready I p e'"
proof (cases "ch_leafCallbacks t (ucast (rax regs))")
  case (Some cb)
  have "keeps_ready I (\<lambda>e. snd (cb (ucast (rax regs)) (ucast (rcx regs)) e))"
    using assms(1) Some unfolding cpuid_quiet_def by blast
  from keeps_readyD(1) [OF this ready] a Some show ?thesis by (simp add: cpuid_answer_def)
qed (use a ready in \<open>auto simp: cpuid_answer_def\<close>)

lemma cpuid_handle_ready:
  assumes quiet: "cpuid_quiet I K t" and ready: "env_ready I p e"
    and handle: "CpuidHandler_handle K vcpu t e = (ok, t', e')"
  shows "env_ready I p e' \<and> cpuid_quiet I K t'"
proof -
  have laws: "reg_laws K" using quiet by (simp add: cpuid_quiet_def)
  obtain rr e1 where g: "on_host (VCpu_getRegs K vcpu) e = (rr, e1)" by fastforce
  have e1: "env_ready I p e1"
    using ready env_ready_cong [of e1 e] getRegs_kregs(2,3) [OF laws on_hostD(1) [OF g]] on_hostD(2) [OF g] by simp
  show ?thesis
  proof (cases rr)
    case (Inl ec)
    with handle g e1 quiet show ?thesis by (simp add: cpuid_handle_eq)
  next
    case (Inr regs)
    obtain result e2 where a: "cpuid_answer K t regs e1 = (result, e2)" by fastforce
    obtain ec e3 where s: "on_host (VCpu_setRegs K vcpu (with_leaf result regs)) e2 = (ec, e3)" by fastforce
    have "env_ready I p e3"
      using cpuid_answer_ready [OF quiet e1 a] env_ready_cong [of e3 e2]
        setRegs_ok(1,2) [OF laws on_hostD(1) [OF s]] on_hostD(2) [OF s] by simp
    then show ?thesis
      using handle quiet by (auto simp: cpuid_handle_eq g Inr a s cpuid_quiet_def split: if_splits)
  qed
qed

interpretation cpuid_exits: exit_handler "\<lambda>t e. Some (CpuidHandler_handle K vcpu t e)" "cpuid_quiet I K"
  "env_ready I p" for K vcpu p I
proof unfold_locales
  fix t :: "('a, 'b) CpuidHandler" and e :: "('a, 'b) env"
  assume "cpuid_quiet I K t" and "env_ready I p e"
  from cpuid_handle_ready [OF this, of vcpu]
  show "\<exists>ok t' e'. Some (CpuidHandler_handle K vcpu t e) = Some (ok, t', e') \<and> cpuid_quiet I K t' \<and> env_ready I p e'"
    by (metis prod_cases3)
qed

text \<open>C30: when CPUID handling succeeds, EAX, EBX, ECX and EDX hold the zero-extended answer of the callback
  registered for the leaf in EAX, or of the host's CPUID when there is none, and every other register
  is as it was; the count goes up by one. When it fails, the handler is unchanged.\<close>

theorem cpuid_handle_spec:
  assumes "reg_laws K" and "errno_law K"
    and "kregs K (v_fd vcpu) (e_host e) = Some regs" and "bit (rflags regs) 1"
    and "CpuidHandler_handle K vcpu t e = (ok, t', e')"
  shows "if ok then
     (\<exists>e1 result e2. e_app e1 = e_app e \<and> h_heap (e_host e1) = h_heap (e_host e) \<and>
       (result, e2) = (case ch_leafCallbacks t (ucast (rax regs)) of
          Some cb \<Rightarrow> cb (ucast (rax regs)) (ucast (rcx regs)) e1
        | None \<Rightarrow> (CpuidHandler_executeHostCpuid K (ucast (rax regs)) (ucast (rcx regs)) (e_host e1), e1)) \<and>
       kregs K (v_fd vcpu) (e_host e') = Some (regs\<lparr>rax := ucast (lr_eax result), rbx := ucast (lr_ebx result),
         rcx := ucast (lr_ecx result), rdx := ucast (lr_edx result)\<rparr>) \<and>
       e_app e' = e_app e2 \<and> t' = t\<lparr>ch_handledCount := ch_handledCount t + 1\<rparr>)
     else t' = t"
proof (cases ok)
  case True
  with assms(5) have "CpuidHandler_handle K vcpu t e = (True, t', e')" by simp
  from cpuid_handle_success [OF assms(1-4) this] True show ?thesis
    by (auto simp: cpuid_answer_def [symmetric] with_leaf_def prod_eq_iff intro!: exI)
next
  case False
  with assms(5) show ?thesis by (auto simp: cpuid_handle_eq split: prod.splits sum.splits if_splits)
qed

theorem cpuid_handle_spec_witness:
  "\<exists>t' e'. CpuidHandler_handle sim_kernel demo_vcpu
       (CpuidHandler_registerLeaf 0 (\<lambda>l s e. (\<lparr>lr_eax = 1, lr_ebx = 2, lr_ecx = 3, lr_edx = 4\<rparr>, e)) CpuidHandler0)
       (demo_env kvm_run0 ()) = (True, t', e') \<and>
     kregs sim_kernel 5 (e_host e') = Some (kvm_regs0\<lparr>rflags := 2, rax := 1, rbx := 2, rcx := 3, rdx := 4\<rparr>)"
proof -
  let ?t = "CpuidHandler_registerLeaf 0 (\<lambda>l s e. (\<lparr>lr_eax = 1, lr_ebx = 2, lr_ecx = 3, lr_edx = 4\<rparr>, e)) CpuidHandler0
    :: (sim, unit) CpuidHandler"
  obtain t' e' where c: "CpuidHandler_handle sim_kernel demo_vcpu ?t (demo_env kvm_run0 ()) = (True, t', e')"
    by (simp add: CpuidHandler_handle_def CpuidHandler_registerLeaf_def on_host_def VCpu_getRegs_def
        VCpu_setRegs_def demo_vcpu_def demo_env_def demo_host_defs kvm_regs0_def sim_ioctl_def Let_def)
  have "kregs sim_kernel 5 (e_host e') = Some (kvm_regs0\<lparr>rflags := 2, rax := 1, rbx := 2, rcx := 3, rdx := 4\<rparr>)"
    using cpuid_handle_spec [OF sim_reg_laws sim_errno_law demo_regs _ c]
    by (auto simp: CpuidHandler_registerLeaf_def kvm_regs0_def demo_vcpu_def bit_iff_odd)
  with c show ?thesis by blast
qed

end
