(* ===== verification/Io_Port_Handler.thy ===== *)
theory Io_Port_Handler
  imports Vcpu_Model Sim_Kernel Exit_Interface
begin

text \<open>
  \<^verbatim>\<open>class IoPortHandler\<close> (include/hv/IoPortHandler.h, src/IoPortHandler.cpp): the callback tables for
  IN and OUT ports and the handling of a \<^verbatim>\<open>KVM_EXIT_IO\<close>. A callback changes the environment (host
  and application objects). Reading or writing outside the mapped page is undefined.
\<close>

section \<open>Model\<close>

record InContext =
  ic_port :: u16
  ic_size :: u8
  ic_count :: u32

record OutContext =
  oc_port :: u16
  oc_size :: u8
  oc_value :: u32
  oc_count :: u32

type_synonym ('k, 'a) InCallback = "InContext \<Rightarrow> ('k, 'a) env \<Rightarrow> u32 \<times> ('k, 'a) env"
type_synonym ('k, 'a) OutCallback = "OutContext \<Rightarrow> ('k, 'a) env \<Rightarrow> ('k, 'a) env"

record ('k, 'a) IoPortHandler =
  iph_inCallbacks :: "u16 \<rightharpoonup> ('k, 'a) InCallback"
  iph_outCallbacks :: "u16 \<rightharpoonup> ('k, 'a) OutCallback"
  iph_inCount :: u64
  iph_outCount :: u64

definition IoPortHandler0 :: "('k, 'a) IoPortHandler" where
  "IoPortHandler0 = \<lparr>iph_inCallbacks = Map.empty, iph_outCallbacks = Map.empty, iph_inCount = 0, iph_outCount = 0\<rparr>"

definition IoPortHandler_registerInPort ::
  "u16 \<Rightarrow> ('k, 'a) InCallback \<Rightarrow> ('k, 'a) IoPortHandler \<Rightarrow> ('k, 'a) IoPortHandler" where
  "IoPortHandler_registerInPort port cb t = t\<lparr>iph_inCallbacks := (iph_inCallbacks t)(port \<mapsto> cb)\<rparr>"

definition IoPortHandler_registerOutPort ::
  "u16 \<Rightarrow> ('k, 'a) OutCallback \<Rightarrow> ('k, 'a) IoPortHandler \<Rightarrow> ('k, 'a) IoPortHandler" where
  "IoPortHandler_registerOutPort port cb t = t\<lparr>iph_outCallbacks := (iph_outCallbacks t)(port \<mapsto> cb)\<rparr>"

definition IoPortHandler_handle ::
  "VCpu \<Rightarrow> u64 \<Rightarrow> ('k, 'a) IoPortHandler \<Rightarrow> ('k, 'a) env \<Rightarrow>
     (bool \<times> ('k, 'a) IoPortHandler \<times> ('k, 'a) env) option" where
  "IoPortHandler_handle vcpu p t e = do {
     run \<leftarrow> h_runs (e_host e) p;
     let io = run_io run;
     let port = io_port io;
     let size = io_size io;
     let count = io_count io;
     if io_direction io = KVM_EXIT_IO_OUT then do {
       src \<leftarrow> load_at (run_bytes run) (unat (io_data_offset io)) (unat (min size 4));
       let value = (le_word (memcpy (le_bytes 4 (0 :: u32)) src (unat (min size 4))) :: u32);
       let ctx = \<lparr>oc_port = port, oc_size = size, oc_value = value, oc_count = count\<rparr>;
       let e1 = (case iph_outCallbacks t port of None \<Rightarrow> e | Some cb \<Rightarrow> cb ctx e);
       Some (True, t\<lparr>iph_outCount := iph_outCount t + 1\<rparr>, e1)
     } else do {
       let ctx = \<lparr>ic_port = port, ic_size = size, ic_count = count\<rparr>;
       let (result, e1) = (case iph_inCallbacks t port of None \<Rightarrow> (0xFFFFFFFF, e) | Some cb \<Rightarrow> cb ctx e);
       run1 \<leftarrow> h_runs (e_host e1) p;
       bytes \<leftarrow> store_at (run_bytes run1) (unat (io_data_offset (run_io run1)))
                 (take (unat (min size 4)) (le_bytes 4 result));
       Some (True, t\<lparr>iph_inCount := iph_inCount t + 1\<rparr>, set_run p (run1\<lparr>run_bytes := bytes\<rparr>) e1)
     }
   }"

interpretation ports: rw_tables IoPortHandler_registerInPort iph_inCallbacks
  IoPortHandler_registerOutPort iph_outCallbacks
  by unfold_locales (simp_all add: IoPortHandler_registerInPort_def IoPortHandler_registerOutPort_def)

lemma io_callbacks_kept:
  "IoPortHandler_handle v p t e = Some (ok, t', e') \<Longrightarrow>
     iph_inCallbacks t' = iph_inCallbacks t \<and> iph_outCallbacks t' = iph_outCallbacks t"
  by (auto simp: IoPortHandler_handle_def Let_def split: Option.bind_splits if_splits prod.splits)

section \<open>The handler returns\<close>

text \<open>Callbacks that leave the \<^verbatim>\<open>kvm_run\<close> pages alone.\<close>

definition io_quiet :: "'a app_inv \<Rightarrow> ('k, 'a) IoPortHandler \<Rightarrow> bool" where
  "io_quiet I t \<longleftrightarrow>
     (\<forall>port cb ctx. iph_inCallbacks t port = Some cb \<longrightarrow> keeps_ready I (\<lambda>e. snd (cb ctx e))) \<and>
     (\<forall>port cb ctx. iph_outCallbacks t port = Some cb \<longrightarrow> keeps_ready I (cb ctx))"

abbreviation in_answer :: "('k, 'a) IoPortHandler \<Rightarrow> kvm_run \<Rightarrow> ('k, 'a) env \<Rightarrow> u32 \<times> ('k, 'a) env" where
  "in_answer t run e \<equiv> (case iph_inCallbacks t (io_port (run_io run)) of
     None \<Rightarrow> (0xFFFFFFFF, e)
   | Some cb \<Rightarrow> cb \<lparr>ic_port = io_port (run_io run), ic_size = io_size (run_io run), ic_count = io_count (run_io run)\<rparr> e)"

lemma io_in_eq:
  assumes "h_runs (e_host e) p = Some run" and "run_fits run"
    and "io_direction (run_io run) \<noteq> KVM_EXIT_IO_OUT"
    and "in_answer t run e = (result, e1)" and "h_runs (e_host e1) p = Some run"
  shows "\<exists>bytes. store_at (run_bytes run) (unat (io_data_offset (run_io run))) (le_bytes (io_width run) result) = Some bytes \<and>
    IoPortHandler_handle vcpu p t e =
      Some (True, t\<lparr>iph_inCount := iph_inCount t + 1\<rparr>, set_run p (run\<lparr>run_bytes := bytes\<rparr>) e1)"
proof -
  have v: "take (io_width run) (le_bytes 4 result) = le_bytes (io_width run) result"
    using io_width_le by (rule take_le_bytes)
  obtain bytes where st: "store_at (run_bytes run) (unat (io_data_offset (run_io run)))
      (le_bytes (io_width run) result) = Some bytes"
    using assms(2) by (auto simp: store_at_def run_fits_def)
  moreover have "IoPortHandler_handle vcpu p t e =
      Some (True, t\<lparr>iph_inCount := iph_inCount t + 1\<rparr>, set_run p (run\<lparr>run_bytes := bytes\<rparr>) e1)"
    using assms(1,3-5) v st by (simp add: IoPortHandler_handle_def Let_def io_width_def)
  ultimately show ?thesis by blast
qed

lemma io_in_returns:
  assumes "h_runs (e_host e) p = Some run" and "run_fits run" and "io_quiet I t" and ready: "env_ready I p e"
    and "io_direction (run_io run) \<noteq> KVM_EXIT_IO_OUT"
  shows "\<exists>bytes e1. IoPortHandler_handle vcpu p t e =
      Some (True, t\<lparr>iph_inCount := iph_inCount t + 1\<rparr>, set_run p (run\<lparr>run_bytes := bytes\<rparr>) e1) \<and>
    length bytes = length (run_bytes run) \<and> env_ready I p e1"
proof -
  obtain result e1 where cb: "in_answer t run e = (result, e1)" by fastforce
  have e1: "h_runs (e_host e1) = h_runs (e_host e) \<and> env_ready I p e1"
  proof (cases "iph_inCallbacks t (io_port (run_io run))")
    case (Some f)
    let ?f = "\<lambda>e. snd (f \<lparr>ic_port = io_port (run_io run), ic_size = io_size (run_io run), ic_count = io_count (run_io run)\<rparr> e)"
    have "keeps_ready I ?f" using assms(3) Some unfolding io_quiet_def by blast
    from keeps_readyD [OF this ready] cb Some show ?thesis by simp
  qed (use cb ready in simp)
  then have "h_runs (e_host e1) p = Some run" using assms(1) by simp
  from io_in_eq [OF assms(1,2,5) cb this, of vcpu] e1 show ?thesis using store_at_length by blast
qed

lemma io_out_returns:
  assumes "h_runs (e_host e) p = Some run" and "run_fits run" and "io_quiet I t" and ready: "env_ready I p e"
    and "io_direction (run_io run) = KVM_EXIT_IO_OUT"
  shows "\<exists>e1. IoPortHandler_handle vcpu p t e = Some (True, t\<lparr>iph_outCount := iph_outCount t + 1\<rparr>, e1) \<and>
    env_ready I p e1"
proof -
  obtain src where "load_at (run_bytes run) (unat (io_data_offset (run_io run))) (io_width run) = Some src"
    using assms(2) by (auto simp: load_at_def run_fits_def)
  moreover have "env_ready I p (cb ctx e)" if "iph_outCallbacks t (io_port (run_io run)) = Some cb" for cb ctx
    using assms(3) that keeps_readyD(1) [OF _ ready] unfolding io_quiet_def by blast
  ultimately show ?thesis
    using assms by (auto simp: IoPortHandler_handle_def Let_def io_width_def split: option.split)
qed

interpretation io_exits: exit_handler "IoPortHandler_handle vcpu p" "io_quiet I" "env_ready I p"
  for vcpu p I
proof unfold_locales
  fix t :: "('a, 'b) IoPortHandler" and e :: "('a, 'b) env"
  assume quiet: "io_quiet I t" and ready: "env_ready I p e"
  then obtain run where run: "h_runs (e_host e) p = Some run" "run_fits run" by (auto elim: env_ready_run)
  show "\<exists>ok t' e'. IoPortHandler_handle vcpu p t e = Some (ok, t', e') \<and> io_quiet I t' \<and> env_ready I p e'"
  proof (cases "io_direction (run_io run) = KVM_EXIT_IO_OUT")
    case True
    from io_out_returns [OF run quiet ready this, of vcpu] quiet show ?thesis
      by (auto simp: io_quiet_def)
  next
    case False
    from io_in_returns [OF run quiet ready this, of vcpu] obtain bytes e1 where
      h: "IoPortHandler_handle vcpu p t e =
        Some (True, t\<lparr>iph_inCount := iph_inCount t + 1\<rparr>, set_run p (run\<lparr>run_bytes := bytes\<rparr>) e1)"
      and e1: "length bytes = length (run_bytes run)" "env_ready I p e1" by blast
    have "run_fits (run\<lparr>run_bytes := bytes\<rparr>)"
      using run(2) e1(1) by (simp add: run_fits_def run_wf_def io_width_def)
    from env_ready_set_run [OF e1(2) this] h quiet show ?thesis by (auto simp: io_quiet_def)
  qed
qed

section \<open>What the guest and the device see\<close>

text \<open>A one-byte access to port \<open>0x3F8\<close> whose data byte holds 65, at offset 2 of the page.\<close>

definition demo_io_run :: "u8 \<Rightarrow> kvm_run" where
  "demo_io_run dir = kvm_run0\<lparr>exit_reason := 2,
     run_io := \<lparr>io_direction = dir, io_size = 1, io_port = 0x3F8, io_count = 1, io_data_offset = 2\<rparr>,
     run_bytes := [0, 0, 65, 0]\<rparr>"

lemmas demo_env_defs = demo_io_run_def demo_env_def kvm_run0_def io_width_def KVM_EXIT_IO_OUT_def
  run_fits_def run_wf_def

text \<open>C25: an OUT is handled whenever its data lies within the page: the callback of its port, if any,
  gets the port, size, count and the zero-extended little-endian value of the first \<open>min size 4\<close> data
  bytes, and only the OUT count changes in the handler; without a callback nothing else happens.\<close>

theorem io_out_spec:
  assumes "h_runs (e_host e) p = Some run" and "run_fits run" and "io_direction (run_io run) = KVM_EXIT_IO_OUT"
  shows "IoPortHandler_handle vcpu p t e =
    Some (True, t\<lparr>iph_outCount := iph_outCount t + 1\<rparr>,
      (case iph_outCallbacks t (io_port (run_io run)) of
         None \<Rightarrow> e
       | Some cb \<Rightarrow> cb \<lparr>oc_port = io_port (run_io run), oc_size = io_size (run_io run),
           oc_value = le_word (take (io_width run) (drop (unat (io_data_offset (run_io run))) (run_bytes run))),
           oc_count = io_count (run_io run)\<rparr> e))"
proof -
  let ?off = "unat (io_data_offset (run_io run))"
  let ?src = "take (io_width run) (drop ?off (run_bytes run))"
  have "load_at (run_bytes run) ?off (io_width run) = Some ?src"
    using assms(2) by (simp add: load_at_def run_fits_def)
  moreover have "(le_word (memcpy (le_bytes 4 (0 :: u32)) ?src (io_width run)) :: u32) = le_word ?src"
    using assms(2) io_width_le [of run] by (subst le_word_take_zero) (auto simp: run_fits_def)
  ultimately show ?thesis
    using assms(1,3) by (simp add: IoPortHandler_handle_def Let_def io_width_def split: option.split)
qed

theorem io_out_spec_witness:
  "h_runs (e_host (demo_env (demo_io_run 1) (0 :: u32))) 0x20000000 = Some (demo_io_run 1) \<and>
   map_option (\<lambda>(ok, t, e). (ok, iph_outCount t, e_app e))
     (IoPortHandler_handle demo_vcpu 0x20000000
        (IoPortHandler_registerOutPort 0x3F8 (\<lambda>c e. e\<lparr>e_app := oc_value c\<rparr>) IoPortHandler0)
        (demo_env (demo_io_run 1) (0 :: u32))) = Some (True, 1, 65)"
proof -
  let ?t = "IoPortHandler_registerOutPort 0x3F8 (\<lambda>c e. e\<lparr>e_app := oc_value c\<rparr>) IoPortHandler0
    :: (sim, u32) IoPortHandler"
  have "h_runs (e_host (demo_env (demo_io_run 1) (0 :: u32))) 0x20000000 = Some (demo_io_run 1)"
    by (simp add: demo_env_defs)
  then show ?thesis
    using io_out_spec [of "demo_env (demo_io_run 1) (0 :: u32)" "0x20000000" "demo_io_run 1" demo_vcpu ?t]
    by (simp add: demo_env_defs IoPortHandler_registerOutPort_def IoPortHandler0_def)
qed

text \<open>C26: an IN puts the low \<open>min size 4\<close> bytes of the callback's result, all ones without a callback,
  at the data offset of the page and changes no other byte and no other field of it; only the IN
  count changes in the handler.\<close>

theorem io_in_spec:
  assumes "h_runs (e_host e) p = Some run" and "run_fits run" and "io_direction (run_io run) \<noteq> KVM_EXIT_IO_OUT"
    and "(case iph_inCallbacks t (io_port (run_io run)) of
            None \<Rightarrow> (0xFFFFFFFF, e)
          | Some cb \<Rightarrow> cb \<lparr>ic_port = io_port (run_io run), ic_size = io_size (run_io run),
                          ic_count = io_count (run_io run)\<rparr> e) = (result, e1)"
    and "h_runs (e_host e1) p = Some run"
  shows "\<exists>bytes. IoPortHandler_handle vcpu p t e =
      Some (True, t\<lparr>iph_inCount := iph_inCount t + 1\<rparr>, set_run p (run\<lparr>run_bytes := bytes\<rparr>) e1) \<and>
    length bytes = length (run_bytes run) \<and>
    (\<forall>i < length bytes. bytes ! i =
       (if unat (io_data_offset (run_io run)) \<le> i \<and> i < unat (io_data_offset (run_io run)) + io_width run
        then ucast (drop_bit (8 * (i - unat (io_data_offset (run_io run)))) result)
        else run_bytes run ! i))"
proof -
  let ?off = "unat (io_data_offset (run_io run))"
  from io_in_eq [OF assms, of vcpu] obtain bytes
    where st: "store_at (run_bytes run) ?off (le_bytes (io_width run) result) = Some bytes"
      and h: "IoPortHandler_handle vcpu p t e =
        Some (True, t\<lparr>iph_inCount := iph_inCount t + 1\<rparr>, set_run p (run\<lparr>run_bytes := bytes\<rparr>) e1)" by blast
  have len: "length bytes = length (run_bytes run)" using store_at_length [OF st] .
  then have "bytes ! i = (if ?off \<le> i \<and> i < ?off + io_width run
      then ucast (drop_bit (8 * (i - ?off)) result) else run_bytes run ! i)" if "i < length bytes" for i
    using store_at_nth [OF st] that by (auto simp: le_bytes_nth)
  with h len show ?thesis by blast
qed

theorem io_in_spec_witness:
  "\<exists>bytes. IoPortHandler_handle demo_vcpu 0x20000000 IoPortHandler0 (demo_env (demo_io_run 0) ()) =
      Some (True, IoPortHandler0\<lparr>iph_inCount := 1\<rparr>,
        set_run 0x20000000 ((demo_io_run 0)\<lparr>run_bytes := bytes\<rparr>) (demo_env (demo_io_run 0) ())) \<and>
    length bytes = 4 \<and> bytes ! 1 = 0 \<and> bytes ! 2 = 255 \<and> bytes ! 3 = 0"
proof -
  have "h_runs (e_host (demo_env (demo_io_run 0) ())) 0x20000000 = Some (demo_io_run 0)"
    by (simp add: demo_env_defs)
  moreover have "iph_inCallbacks (IoPortHandler0 :: (sim, unit) IoPortHandler) port = None" for port
    by (simp add: IoPortHandler0_def)
  ultimately obtain bytes where "IoPortHandler_handle demo_vcpu 0x20000000 IoPortHandler0 (demo_env (demo_io_run 0) ()) =
      Some (True, IoPortHandler0\<lparr>iph_inCount := iph_inCount (IoPortHandler0 :: (sim, unit) IoPortHandler) + 1\<rparr>,
        set_run 0x20000000 ((demo_io_run 0)\<lparr>run_bytes := bytes\<rparr>) (demo_env (demo_io_run 0) ()))"
    and l: "length bytes = length (run_bytes (demo_io_run 0))"
    and n: "\<forall>i < length bytes. bytes ! i =
       (if unat (io_data_offset (run_io (demo_io_run 0))) \<le> i \<and>
           i < unat (io_data_offset (run_io (demo_io_run 0))) + io_width (demo_io_run 0)
        then ucast (drop_bit (8 * (i - unat (io_data_offset (run_io (demo_io_run 0))))) (0xFFFFFFFF :: u32))
        else run_bytes (demo_io_run 0) ! i)"
    using io_in_spec [of "demo_env (demo_io_run 0) ()" "0x20000000" "demo_io_run 0" IoPortHandler0
        "0xFFFFFFFF" "demo_env (demo_io_run 0) ()" demo_vcpu]
    by (auto simp: demo_env_defs)
  moreover from l have "length bytes = 4" by (simp add: demo_env_defs)
  moreover from this n have "bytes ! 1 = 0" "bytes ! 2 = 255" "bytes ! 3 = 0"
    by (simp_all add: demo_env_defs)
  ultimately show ?thesis by (auto simp: IoPortHandler0_def)
qed

end
