(* ===== verification/Msr_Handler.thy ===== *)
theory Msr_Handler
  imports Vcpu_Model Sim_Kernel
begin

text \<open>
  \<^verbatim>\<open>class MsrHandler\<close> (include/hv/MsrHandler.h, src/MsrHandler.cpp): per-MSR callbacks, the installation of
  the MSR filter and the handling of an MSR exit. The order in which \<^verbatim>\<open>installFilter\<close> visits the keys of
  its two hash maps is not determined by the source: it is an argument.
\<close>

section \<open>Model\<close>

type_synonym ('k, 'a) MsrReadCallback = "u32 \<Rightarrow> ('k, 'a) env \<Rightarrow> u64 \<times> ('k, 'a) env"
type_synonym ('k, 'a) MsrWriteCallback = "u32 \<Rightarrow> u64 \<Rightarrow> ('k, 'a) env \<Rightarrow> ('k, 'a) env"

record ('k, 'a) MsrHandler =
  msh_readCallbacks :: "u32 \<rightharpoonup> ('k, 'a) MsrReadCallback"
  msh_writeCallbacks :: "u32 \<rightharpoonup> ('k, 'a) MsrWriteCallback"
  msh_readCount :: u64
  msh_writeCount :: u64

definition MsrHandler0 :: "('k, 'a) MsrHandler" where
  "MsrHandler0 = \<lparr>msh_readCallbacks = Map.empty, msh_writeCallbacks = Map.empty, msh_readCount = 0, msh_writeCount = 0\<rparr>"

definition MsrHandler_registerRead ::
  "u32 \<Rightarrow> ('k, 'a) MsrReadCallback \<Rightarrow> ('k, 'a) MsrHandler \<Rightarrow> ('k, 'a) MsrHandler" where
  "MsrHandler_registerRead idx cb t = t\<lparr>msh_readCallbacks := (msh_readCallbacks t)(idx \<mapsto> cb)\<rparr>"

definition MsrHandler_registerWrite ::
  "u32 \<Rightarrow> ('k, 'a) MsrWriteCallback \<Rightarrow> ('k, 'a) MsrHandler \<Rightarrow> ('k, 'a) MsrHandler" where
  "MsrHandler_registerWrite idx cb t = t\<lparr>msh_writeCallbacks := (msh_writeCallbacks t)(idx \<mapsto> cb)\<rparr>"

text \<open>
  \<open>rkeys\<close> and \<open>wkeys\<close> are the keys of the two tables in iteration order; a caller of the definition
  passes orders that fit the handler (\<open>iteration_order\<close>).
\<close>

definition iteration_order :: "('x \<rightharpoonup> 'c) \<Rightarrow> 'x list \<Rightarrow> bool" where
  "iteration_order m ks \<longleftrightarrow> distinct ks \<and> set ks = dom m"

fun push_missing :: "u32 list \<Rightarrow> u32 list \<Rightarrow> u32 list" where
  "push_missing indices [] = indices"
| "push_missing indices (idx # ks) =
     (if idx \<in> set indices then push_missing indices ks else push_missing (indices @ [idx]) ks)"

definition msr_range :: "u32 \<Rightarrow> kvm_msr_filter_range" where
  "msr_range idx = \<lparr>fr_flags = KVM_MSR_FILTER_READ OR KVM_MSR_FILTER_WRITE, fr_nmsrs = 1, fr_base = idx, fr_bitmap = [1]\<rparr>"

definition MsrHandler_installFilter ::
  "'k kernel \<Rightarrow> u32 list \<Rightarrow> u32 list \<Rightarrow> int \<Rightarrow> 'k host \<Rightarrow> error_code \<times> 'k host" where
  "MsrHandler_installFilter K rkeys wkeys vm_fd h =
     (let indices = push_missing rkeys wkeys in
      if indices = [] then (ok_code, h)
      else
        let n = length indices;
            ranges = map msr_range indices;
            range_count = min n KVM_MSR_FILTER_MAX_RANGES;
            flt = \<lparr>mf_flags = KVM_MSR_FILTER_DEFAULT_ALLOW, mf_ranges = take range_count ranges\<rparr>;
            (rc, h1) = sys_ioctl K vm_fd (KVM_X86_SET_MSR_FILTER flt) h
        in if rc < 0 then (h_errno h1, h1) else (ok_code, h1))"

definition MsrHandler_handle ::
  "'k kernel \<Rightarrow> VCpu \<Rightarrow> u64 \<Rightarrow> ('k, 'a) MsrHandler \<Rightarrow> ('k, 'a) env \<Rightarrow>
     (bool \<times> ('k, 'a) MsrHandler \<times> ('k, 'a) env) option" where
  "MsrHandler_handle K vcpu p t e = do {
     run \<leftarrow> h_runs (e_host e) p;
     let idx = msr_index (run_msr run);
     let is_write = (msr_reason (run_msr run) = KVM_MSR_EXIT_REASON_VALID_MASK);
     if is_write then do {
       let value = msr_data (run_msr run);
       let e1 = (case msh_writeCallbacks t idx of None \<Rightarrow> e | Some cb \<Rightarrow> cb idx value e);
       Some (True, t\<lparr>msh_writeCount := msh_writeCount t + 1\<rparr>, e1)
     } else do {
       let (result, e1) = (case msh_readCallbacks t idx of None \<Rightarrow> (0, e) | Some cb \<Rightarrow> cb idx e);
       let (regs_result, e2) = on_host (VCpu_getRegs K vcpu) e1;
       case regs_result of
         Inl _ \<Rightarrow> Some (False, t, e2)
       | Inr regs \<Rightarrow> do {
           let regs' = regs\<lparr>rax := result AND 0xFFFFFFFF, rdx := (drop_bit 32 result) AND 0xFFFFFFFF\<rparr>;
           let (ec, e3) = on_host (VCpu_setRegs K vcpu regs') e2;
           if ec \<noteq> ok_code then Some (False, t, e3)
           else Some (True, t\<lparr>msh_readCount := msh_readCount t + 1\<rparr>, e3)
         }
     }
   }"

interpretation msrs: rw_tables MsrHandler_registerRead msh_readCallbacks
  MsrHandler_registerWrite msh_writeCallbacks
  by unfold_locales (simp_all add: MsrHandler_registerRead_def MsrHandler_registerWrite_def)

section \<open>The filter\<close>

lemma push_missing_set: "set (push_missing is ks) = set is \<union> set ks"
  by (induction "is" ks rule: push_missing.induct) auto

lemma push_missing_distinct: "distinct is \<Longrightarrow> distinct (push_missing is ks)"
  by (induction "is" ks rule: push_missing.induct) auto

text \<open>
  How KVM documents a filter: an access to an MSR is decided by the first range that covers it and has
  the flag of the access, and allowed when the MSR's bit in its bitmap is set; without such a range
  the default of the filter decides.
\<close>

definition range_covers :: "u32 \<Rightarrow> u32 \<Rightarrow> kvm_msr_filter_range \<Rightarrow> bool" where
  "range_covers access idx r \<longleftrightarrow> fr_flags r AND access \<noteq> 0 \<and> fr_base r \<le> idx \<and>
     unat idx < unat (fr_base r) + unat (fr_nmsrs r)"

definition filter_allows :: "kvm_msr_filter \<Rightarrow> u32 \<Rightarrow> u32 \<Rightarrow> bool" where
  "filter_allows f access idx =
     (case find (range_covers access idx) (mf_ranges f) of
        None \<Rightarrow> mf_flags f = KVM_MSR_FILTER_DEFAULT_ALLOW
      | Some r \<Rightarrow> let i = unat (idx - fr_base r) in bit (fr_bitmap r ! (i div 64)) (i mod 64))"

lemma msr_range_covers: "range_covers access idx (msr_range i) \<longleftrightarrow> access AND 3 \<noteq> 0 \<and> idx = i"
proof -
  have "i \<le> idx \<and> unat idx < unat i + 1 \<longleftrightarrow> idx = i"
    by (auto simp: word_le_nat_alt word_unat_eq_iff)
  then show ?thesis
    by (auto simp: range_covers_def msr_range_def KVM_MSR_FILTER_READ_def KVM_MSR_FILTER_WRITE_def ac_simps)
qed

lemma msr_range_sel: "fr_base (msr_range i) = i" "fr_bitmap (msr_range i) = [1]"
  by (simp_all add: msr_range_def)

lemma ranges_allow:
  "filter_allows \<lparr>mf_flags = KVM_MSR_FILTER_DEFAULT_ALLOW, mf_ranges = map msr_range is\<rparr> access idx"
  by (induction "is")
    (auto simp: filter_allows_def msr_range_covers msr_range_sel Let_def split: option.splits)

text \<open>C34: with at least one callback registered, the filter that is handed to KVM names, each once and as
  a range of its own, the first sixteen registered MSRs (all of them when there are at most sixteen;
  the others are dropped without an error), and its bits allow every access: by the documented
  meaning of a filter no registered MSR is denied, and so none is turned into an exit.\<close>

theorem installFilter_spec:
  assumes "iteration_order (msh_readCallbacks t) rkeys" and "iteration_order (msh_writeCallbacks t) wkeys"
    and "dom (msh_readCallbacks t) \<union> dom (msh_writeCallbacks t) \<noteq> {}"
  shows "\<exists>flt. MsrHandler_installFilter K rkeys wkeys vm_fd h =
       (let (rc, h1) = sys_ioctl K vm_fd (KVM_X86_SET_MSR_FILTER flt) h
        in if rc < 0 then (h_errno h1, h1) else (ok_code, h1)) \<and>
     distinct (map fr_base (mf_ranges flt)) \<and>
     length (mf_ranges flt) = min 16 (card (dom (msh_readCallbacks t) \<union> dom (msh_writeCallbacks t))) \<and>
     fr_base ` set (mf_ranges flt) \<subseteq> dom (msh_readCallbacks t) \<union> dom (msh_writeCallbacks t) \<and>
     (\<forall>access idx. filter_allows flt access idx)"
proof -
  let ?ix = "push_missing rkeys wkeys"
  let ?flt = "\<lparr>mf_flags = KVM_MSR_FILTER_DEFAULT_ALLOW, mf_ranges = map msr_range (take 16 ?ix)\<rparr>"
  have set: "set ?ix = dom (msh_readCallbacks t) \<union> dom (msh_writeCallbacks t)"
    using assms(1,2) by (simp add: push_missing_set iteration_order_def)
  have dist: "distinct ?ix"
    using assms(1) by (simp add: push_missing_distinct iteration_order_def)
  have len: "length ?ix = card (dom (msh_readCallbacks t) \<union> dom (msh_writeCallbacks t))"
    using distinct_card [OF dist] set by simp
  have ne: "?ix \<noteq> []" using set assms(3) by auto
  have tk: "take (min (length ?ix) 16) ?ix = take 16 ?ix" by (simp add: min_def)
  have bases: "map fr_base (mf_ranges ?flt) = take 16 ?ix"
    by (simp add: msr_range_def comp_def)
  have "MsrHandler_installFilter K rkeys wkeys vm_fd h =
       (let (rc, h1) = sys_ioctl K vm_fd (KVM_X86_SET_MSR_FILTER ?flt) h
        in if rc < 0 then (h_errno h1, h1) else (ok_code, h1))"
    using ne tk by (simp add: MsrHandler_installFilter_def KVM_MSR_FILTER_MAX_RANGES_def Let_def take_map)
  moreover have "fr_base ` set (mf_ranges ?flt) \<subseteq> set ?ix"
    using bases set_take_subset [of 16 ?ix] by (metis list.set_map)
  moreover have "length (mf_ranges ?flt) = min 16 (length ?ix)" by (simp add: min.commute)
  moreover have "\<forall>access idx. filter_allows ?flt access idx" using ranges_allow by blast
  ultimately show ?thesis
    unfolding set len using dist bases by (intro exI [of _ ?flt]) (simp add: len)
qed

theorem installFilter_spec_witness:
  "\<exists>flt. MsrHandler_installFilter sim_kernel [0x10, 0x1B] [0x1B] 4 (demo_host []) =
       (let (rc, h1) = sys_ioctl sim_kernel 4 (KVM_X86_SET_MSR_FILTER flt) (demo_host [])
        in if rc < 0 then (h_errno h1, h1) else (ok_code, h1)) \<and>
     length (mf_ranges flt) = 2 \<and> filter_allows flt KVM_MSR_FILTER_WRITE 0x1B"
proof -
  let ?t = "MsrHandler_registerWrite 0x1B (\<lambda>_ _ e. e) (MsrHandler_registerRead 0x1B (\<lambda>_ e. (0, e))
    (MsrHandler_registerRead 0x10 (\<lambda>_ e. (0, e)) MsrHandler0)) :: (sim, unit) MsrHandler"
  have d: "dom (msh_readCallbacks ?t) = {0x10, 0x1B}" "dom (msh_writeCallbacks ?t) = {0x1B}"
    by (auto simp: MsrHandler_registerWrite_def MsrHandler_registerRead_def MsrHandler0_def)
  then have "dom (msh_readCallbacks ?t) \<union> dom (msh_writeCallbacks ?t) = {0x10, 0x1B}" by auto
  then have c: "card (dom (msh_readCallbacks ?t) \<union> dom (msh_writeCallbacks ?t)) = 2" by simp
  have "iteration_order (msh_readCallbacks ?t) [0x10, 0x1B]" "iteration_order (msh_writeCallbacks ?t) [0x1B]"
    unfolding iteration_order_def d by simp_all
  from installFilter_spec [OF this, of sim_kernel 4 "demo_host []", unfolded c] d(1)
  show ?thesis by auto
qed

section \<open>Reads and writes\<close>

lemma msr_halves: "push_bit 32 (drop_bit 32 r AND 0xFFFFFFFF) OR (r AND 0xFFFFFFFF) = (r :: u64)"
proof (rule bit_word_eqI)
  fix i assume i: "i < LENGTH(64)"
  have m: "(0xFFFFFFFF :: u64) = mask 32" by (simp add: mask_eq_exp_minus_1)
  show "bit (push_bit 32 (drop_bit 32 r AND 0xFFFFFFFF) OR (r AND 0xFFFFFFFF)) i = bit r i"
    using i unfolding m by (auto simp: bit_or_iff bit_and_iff bit_push_bit_iff bit_drop_bit_eq bit_mask_iff)
qed

text \<open>C31: an MSR exit treated as a read asks the callback of the MSR (0 without one) and, when the
  registers can be read and written, leaves the 64-bit result in EDX:EAX, its halves zero-extended,
  with every other register as it was and the read count up by one; on a register error the handler
  is unchanged. The \<^verbatim>\<open>kvm_run\<close> page is never written.\<close>

theorem msr_read_spec:
  assumes laws: "reg_laws K" "errno_law K"
    and run: "h_runs (e_host e) p = Some run" "msr_reason (run_msr run) \<noteq> KVM_MSR_EXIT_REASON_VALID_MASK"
    and cb: "(case msh_readCallbacks t (msr_index (run_msr run)) of
           None \<Rightarrow> (0, e) | Some cb \<Rightarrow> cb (msr_index (run_msr run)) e) = (result, e1)"
    and regs: "kregs K (v_fd vcpu) (e_host e1) = Some regs" "bit (rflags regs) 1"
  shows "\<exists>ok t' e' lo hi. MsrHandler_handle K vcpu p t e = Some (ok, t', e') \<and>
     (if ok then kregs K (v_fd vcpu) (e_host e') = Some (regs\<lparr>rax := lo, rdx := hi\<rparr>) \<and>
        t' = t\<lparr>msh_readCount := msh_readCount t + 1\<rparr> else t' = t) \<and>
     lo < 2 ^ 32 \<and> hi < 2 ^ 32 \<and> push_bit 32 hi OR lo = result \<and>
     e_app e' = e_app e1 \<and> h_runs (e_host e') = h_runs (e_host e1)"
proof -
  let ?lo = "result AND 0xFFFFFFFF" and ?hi = "drop_bit 32 result AND 0xFFFFFFFF"
  obtain rr e2 where g: "on_host (VCpu_getRegs K vcpu) e1 = (rr, e2)" by fastforce
  note g1 = getRegs_kregs [OF laws(1) on_hostD(1) [OF g]]
  have rr: "rr = Inr regs" using g1(1) regs(1) by (auto split: sum.splits)
  obtain ec e3 where s: "on_host (VCpu_setRegs K vcpu (regs\<lparr>rax := ?lo, rdx := ?hi\<rparr>)) e2 = (ec, e3)" by fastforce
  note s1 = setRegs_ok [OF laws(1) on_hostD(1) [OF s]]
  have h: "MsrHandler_handle K vcpu p t e =
      (if ec \<noteq> ok_code then Some (False, t, e3)
       else Some (True, t\<lparr>msh_readCount := msh_readCount t + 1\<rparr>, e3))"
    using run cb by (simp add: MsrHandler_handle_def Let_def g rr s)
  have "ec = ok_code \<Longrightarrow> kregs K (v_fd vcpu) (e_host e3) = Some (regs\<lparr>rax := ?lo, rdx := ?hi\<rparr>)"
    using s1(4) [OF laws(2)] regs(2) by simp
  moreover have "?lo < 2 ^ 32" "?hi < 2 ^ 32"
    using word_and_le1 [of result "0xFFFFFFFF"] word_and_le1 [of "drop_bit 32 result" "0xFFFFFFFF"]
    by (auto intro: le_less_trans)
  moreover have "e_app e3 = e_app e1" "h_runs (e_host e3) = h_runs (e_host e1)"
    using on_hostD(2) [OF g] on_hostD(2) [OF s] s1(2) g1(3) by simp_all
  ultimately show ?thesis
    using h msr_halves [of result]
    by (intro exI [of _ "ec = ok_code"] exI [of _ "if ec = ok_code then t\<lparr>msh_readCount := msh_readCount t + 1\<rparr> else t"]
        exI [of _ e3] exI [of _ ?lo] exI [of _ ?hi]) simp
qed

definition demo_msr_run :: kvm_run where
  "demo_msr_run = kvm_run0\<lparr>exit_reason := 29, run_msr := \<lparr>msr_reason = 4, msr_index = 0x10, msr_data = 0\<rparr>\<rparr>"

theorem msr_read_spec_witness:
  "\<exists>ok t' e' lo hi. MsrHandler_handle sim_kernel demo_vcpu 0x20000000
       (MsrHandler_registerRead 0x10 (\<lambda>_ e. (0x700000009, e)) MsrHandler0) (demo_env demo_msr_run ()) =
       Some (ok, t', e') \<and>
     (if ok then kregs sim_kernel (v_fd demo_vcpu) (e_host e') = Some (kvm_regs0\<lparr>rflags := 2, rax := lo, rdx := hi\<rparr>)
      else msh_readCount t' = 0) \<and>
     push_bit 32 hi OR lo = 0x700000009"
proof -
  let ?t = "MsrHandler_registerRead 0x10 (\<lambda>_ e. (0x700000009, e)) MsrHandler0 :: (sim, unit) MsrHandler"
  have "h_runs (e_host (demo_env demo_msr_run ())) 0x20000000 = Some demo_msr_run"
    by (simp add: demo_env_def)
  moreover have "msr_reason (run_msr demo_msr_run) \<noteq> KVM_MSR_EXIT_REASON_VALID_MASK"
    by (simp add: demo_msr_run_def KVM_MSR_EXIT_REASON_VALID_MASK_def)
  moreover have "(case msh_readCallbacks ?t (msr_index (run_msr demo_msr_run)) of
      None \<Rightarrow> (0, demo_env demo_msr_run ())
    | Some cb \<Rightarrow> cb (msr_index (run_msr demo_msr_run)) (demo_env demo_msr_run ())) =
      (0x700000009, demo_env demo_msr_run ())"
    by (simp add: demo_msr_run_def MsrHandler_registerRead_def)
  moreover have "bit (rflags (kvm_regs0\<lparr>rflags := 2\<rparr>)) 1" by (simp add: bit_iff_odd)
  ultimately have "\<exists>ok t' e' lo hi.
     MsrHandler_handle sim_kernel demo_vcpu 0x20000000 ?t (demo_env demo_msr_run ()) = Some (ok, t', e') \<and>
     (if ok then kregs sim_kernel (v_fd demo_vcpu) (e_host e') = Some (kvm_regs0\<lparr>rflags := 2, rax := lo, rdx := hi\<rparr>) \<and>
        t' = ?t\<lparr>msh_readCount := msh_readCount ?t + 1\<rparr> else t' = ?t) \<and>
     lo < 2 ^ 32 \<and> hi < 2 ^ 32 \<and> push_bit 32 hi OR lo = 0x700000009 \<and>
     e_app e' = e_app (demo_env demo_msr_run ()) \<and> h_runs (e_host e') = h_runs (e_host (demo_env demo_msr_run ()))"
    by (rule msr_read_spec [OF sim_reg_laws sim_errno_law _ _ _ demo_regs])
  then obtain ok t' e' lo hi where h:
    "MsrHandler_handle sim_kernel demo_vcpu 0x20000000 ?t (demo_env demo_msr_run ()) = Some (ok, t', e')"
    and ok: "if ok then kregs sim_kernel (v_fd demo_vcpu) (e_host e') = Some (kvm_regs0\<lparr>rflags := 2, rax := lo, rdx := hi\<rparr>) \<and>
        t' = ?t\<lparr>msh_readCount := msh_readCount ?t + 1\<rparr> else t' = ?t"
    and r: "push_bit 32 hi OR lo = 0x700000009"
    by (elim exE conjE)
  have "msh_readCount ?t = 0" by (simp add: MsrHandler_registerRead_def MsrHandler0_def)
  with ok have "if ok then kregs sim_kernel (v_fd demo_vcpu) (e_host e') = Some (kvm_regs0\<lparr>rflags := 2, rax := lo, rdx := hi\<rparr>)
      else msh_readCount t' = 0"
    by (cases ok) simp_all
  with h r show ?thesis by (intro exI conjI)
qed

text \<open>C35: an exit that KVM reports with one of its reasons (invalid, unknown or filtered MSR) is never
  treated as a write: the write callbacks play no part in handling it and the write count does not
  change, whatever the guest did.\<close>

theorem msr_write_never_dispatched:
  assumes "h_runs (e_host e) p = Some run" and "msr_reason (run_msr run) \<in> {1, 2, 4}"
  shows "MsrHandler_handle K vcpu p (t\<lparr>msh_writeCallbacks := w\<rparr>) e =
      map_option (\<lambda>(ok, t', e'). (ok, t'\<lparr>msh_writeCallbacks := w\<rparr>, e')) (MsrHandler_handle K vcpu p t e) \<and>
    map_option (\<lambda>(ok, t', e'). msh_writeCount t') (MsrHandler_handle K vcpu p t e) = Some (msh_writeCount t)"
proof -
  have r: "msr_reason (run_msr run) \<noteq> KVM_MSR_EXIT_REASON_VALID_MASK"
    using assms(2) by (auto simp: KVM_MSR_EXIT_REASON_VALID_MASK_def)
  obtain result e1 where cb: "(case msh_readCallbacks t (msr_index (run_msr run)) of
      None \<Rightarrow> (0, e) | Some cb \<Rightarrow> cb (msr_index (run_msr run)) e) = (result, e1)" by fastforce
  show ?thesis
    using assms(1) r cb by (auto simp: MsrHandler_handle_def Let_def split: prod.split sum.split)
qed

theorem msr_write_never_dispatched_witness:
  "map_option (\<lambda>(ok, t', e'). msh_writeCount t')
     (MsrHandler_handle sim_kernel demo_vcpu 0x20000000
        (MsrHandler_registerWrite 0x10 (\<lambda>_ _ e. e) MsrHandler0) (demo_env demo_msr_run ())) = Some 0"
proof -
  have "map_option (\<lambda>(ok, t', e'). msh_writeCount t')
     (MsrHandler_handle sim_kernel demo_vcpu 0x20000000
        (MsrHandler_registerWrite 0x10 (\<lambda>_ _ e. e) MsrHandler0) (demo_env demo_msr_run ())) =
     Some (msh_writeCount (MsrHandler_registerWrite 0x10 (\<lambda>_ _ e. e) MsrHandler0 :: (sim, unit) MsrHandler))"
    by (rule msr_write_never_dispatched [where run = demo_msr_run, THEN conjunct2])
      (simp_all add: demo_env_def demo_msr_run_def)
  then show ?thesis by (simp add: MsrHandler_registerWrite_def MsrHandler0_def)
qed

end
