(* ===== verification/Mmio_Handler.thy ===== *)
theory Mmio_Handler
  imports Sim_Kernel Exit_Interface
begin

text \<open>
  \<^verbatim>\<open>class MmioHandler\<close> (include/hv/MmioHandler.h, src/MmioHandler.cpp): callbacks by guest physical
  address and the handling of a \<^verbatim>\<open>KVM_EXIT_MMIO\<close>. The data bytes of the exit are the eight-byte array
  \<^verbatim>\<open>mmio.data\<close> of the \<^verbatim>\<open>kvm_run\<close> page.
\<close>

section \<open>Model\<close>

record ReadContext =
  rc_addr :: u64
  rc_size :: u8

record WriteContext =
  wc_addr :: u64
  wc_size :: u8
  wc_value :: u64

type_synonym ('k, 'a) ReadCallback = "ReadContext \<Rightarrow> ('k, 'a) env \<Rightarrow> u64 \<times> ('k, 'a) env"
type_synonym ('k, 'a) WriteCallback = "WriteContext \<Rightarrow> ('k, 'a) env \<Rightarrow> ('k, 'a) env"

record ('k, 'a) MmioHandler =
  mh_readCallbacks :: "u64 \<rightharpoonup> ('k, 'a) ReadCallback"
  mh_writeCallbacks :: "u64 \<rightharpoonup> ('k, 'a) WriteCallback"
  mh_readCount :: u64
  mh_writeCount :: u64

definition MmioHandler0 :: "('k, 'a) MmioHandler" where
  "MmioHandler0 = \<lparr>mh_readCallbacks = Map.empty, mh_writeCallbacks = Map.empty, mh_readCount = 0, mh_writeCount = 0\<rparr>"

definition MmioHandler_registerRead ::
  "u64 \<Rightarrow> ('k, 'a) ReadCallback \<Rightarrow> ('k, 'a) MmioHandler \<Rightarrow> ('k, 'a) MmioHandler" where
  "MmioHandler_registerRead addr cb t = t\<lparr>mh_readCallbacks := (mh_readCallbacks t)(addr \<mapsto> cb)\<rparr>"

definition MmioHandler_registerWrite ::
  "u64 \<Rightarrow> ('k, 'a) WriteCallback \<Rightarrow> ('k, 'a) MmioHandler \<Rightarrow> ('k, 'a) MmioHandler" where
  "MmioHandler_registerWrite addr cb t = t\<lparr>mh_writeCallbacks := (mh_writeCallbacks t)(addr \<mapsto> cb)\<rparr>"

definition MmioHandler_handle ::
  "u64 \<Rightarrow> ('k, 'a) MmioHandler \<Rightarrow> ('k, 'a) env \<Rightarrow>
     (bool \<times> ('k, 'a) MmioHandler \<times> ('k, 'a) env) option" where
  "MmioHandler_handle p t e = do {
     run \<leftarrow> h_runs (e_host e) p;
     let addr = mmio_phys_addr (run_mmio run);
     let size = (ucast (mmio_len (run_mmio run)) :: u8);
     if size = 0 \<or> size > 8 then Some (False, t, e)
     else if mmio_is_write (run_mmio run) \<noteq> 0 then do {
       src \<leftarrow> load_at (mmio_data (run_mmio run)) 0 (unat (min size 8));
       let value = (le_word (memcpy (le_bytes 8 (0 :: u64)) src (unat (min size 8))) :: u64);
       let e1 = (case mh_writeCallbacks t addr of
                   None \<Rightarrow> e
                 | Some cb \<Rightarrow> cb \<lparr>wc_addr = addr, wc_size = size, wc_value = value\<rparr> e);
       Some (True, t\<lparr>mh_writeCount := mh_writeCount t + 1\<rparr>, e1)
     } else do {
       let (value, e1) = (case mh_readCallbacks t addr of
                            None \<Rightarrow> (0xFFFFFFFFFFFFFFFF, e)
                          | Some cb \<Rightarrow> cb \<lparr>rc_addr = addr, rc_size = size\<rparr> e);
       run1 \<leftarrow> h_runs (e_host e1) p;
       data \<leftarrow> store_at (mmio_data (run_mmio run1)) 0 (take (unat size) (le_bytes 8 value));
       Some (True, t\<lparr>mh_readCount := mh_readCount t + 1\<rparr>,
             set_run p (run1\<lparr>run_mmio := (run_mmio run1)\<lparr>mmio_data := data\<rparr>\<rparr>) e1)
     }
   }"

interpretation mmio: rw_tables MmioHandler_registerRead mh_readCallbacks
  MmioHandler_registerWrite mh_writeCallbacks
  by unfold_locales (simp_all add: MmioHandler_registerRead_def MmioHandler_registerWrite_def)

lemma mmio_callbacks_kept:
  "MmioHandler_handle p t e = Some (ok, t', e') \<Longrightarrow>
     mh_readCallbacks t' = mh_readCallbacks t \<and> mh_writeCallbacks t' = mh_writeCallbacks t"
  by (auto simp: MmioHandler_handle_def Let_def split: Option.bind_splits if_splits prod.splits)

section \<open>Behaviour on every branch\<close>

definition mmio_size :: "kvm_run \<Rightarrow> u8" where
  "mmio_size run = ucast (mmio_len (run_mmio run))"

lemma mmio_size_nat: "\<not> (mmio_size run = 0 \<or> mmio_size run > 8) \<Longrightarrow> unat (mmio_size run) \<le> 8"
  by (simp add: word_le_nat_alt not_less)

lemma handle_rejects:
  assumes "h_runs (e_host e) p = Some run" and "mmio_size run = 0 \<or> mmio_size run > 8"
  shows "MmioHandler_handle p t e = Some (False, t, e)"
  using assms by (auto simp: MmioHandler_handle_def mmio_size_def Let_def)

lemma handle_write:
  assumes run: "h_runs (e_host e) p = Some run" "run_wf run"
    and size: "\<not> (mmio_size run = 0 \<or> mmio_size run > 8)" and w: "mmio_is_write (run_mmio run) \<noteq> 0"
  shows "MmioHandler_handle p t e = Some (True, t\<lparr>mh_writeCount := mh_writeCount t + 1\<rparr>,
    (case mh_writeCallbacks t (mmio_phys_addr (run_mmio run)) of
       None \<Rightarrow> e
     | Some cb \<Rightarrow> cb \<lparr>wc_addr = mmio_phys_addr (run_mmio run), wc_size = mmio_size run,
         wc_value = le_word (take (unat (mmio_size run)) (mmio_data (run_mmio run)))\<rparr> e))"
proof -
  let ?n = "unat (mmio_size run)" and ?d = "mmio_data (run_mmio run)"
  have n: "?n \<le> 8" "min (mmio_size run) 8 = mmio_size run"
    using size mmio_size_nat by (auto simp: min_def not_less)
  have "load_at ?d 0 ?n = Some (take ?n ?d)"
    using n run(2) by (simp add: load_at_def run_wf_def)
  moreover have "(le_word (memcpy (le_bytes 8 (0 :: u64)) (take ?n ?d) ?n) :: u64) = le_word (take ?n ?d)"
    using n run(2) by (subst le_word_take_zero) (simp_all add: run_wf_def)
  ultimately show ?thesis
    using run(1) size w n(2) by (simp add: MmioHandler_handle_def Let_def flip: mmio_size_def split: option.split)
qed

lemma handle_read:
  assumes run: "h_runs (e_host e) p = Some run" "run_wf run"
    and size: "\<not> (mmio_size run = 0 \<or> mmio_size run > 8)" and r: "mmio_is_write (run_mmio run) = 0"
    and cb: "(case mh_readCallbacks t (mmio_phys_addr (run_mmio run)) of
        None \<Rightarrow> (0xFFFFFFFFFFFFFFFF, e)
      | Some cb \<Rightarrow> cb \<lparr>rc_addr = mmio_phys_addr (run_mmio run), rc_size = mmio_size run\<rparr> e) = (value, e1)"
    and run1: "h_runs (e_host e1) p = Some run"
  shows "MmioHandler_handle p t e = Some (True, t\<lparr>mh_readCount := mh_readCount t + 1\<rparr>,
    set_run p (run\<lparr>run_mmio := (run_mmio run)\<lparr>mmio_data :=
      le_bytes (unat (mmio_size run)) value @ drop (unat (mmio_size run)) (mmio_data (run_mmio run))\<rparr>\<rparr>) e1)"
proof -
  have "unat (mmio_size run) \<le> 8" using size mmio_size_nat by auto
  then show ?thesis
    using assms by (simp add: MmioHandler_handle_def Let_def take_le_bytes store_at_def run_wf_def
        flip: mmio_size_def)
qed

text \<open>Callbacks that leave the \<^verbatim>\<open>kvm_run\<close> pages alone.\<close>

definition mmio_quiet :: "'a app_inv \<Rightarrow> ('k, 'a) MmioHandler \<Rightarrow> bool" where
  "mmio_quiet I t \<longleftrightarrow>
     (\<forall>addr cb ctx. mh_readCallbacks t addr = Some cb \<longrightarrow> keeps_ready I (\<lambda>e. snd (cb ctx e))) \<and>
     (\<forall>addr cb ctx. mh_writeCallbacks t addr = Some cb \<longrightarrow> keeps_ready I (cb ctx))"

lemma mmio_answer_ready:
  assumes quiet: "mmio_quiet I t" and ready: "env_ready I p e"
    and cb: "(case mh_readCallbacks t addr of None \<Rightarrow> (d, e) | Some f \<Rightarrow> f ctx e) = (v, e1)"
  shows "h_runs (e_host e1) = h_runs (e_host e)" and "env_ready I p e1"
proof -
  have "keeps_ready I (\<lambda>e. snd (f ctx e))" if "mh_readCallbacks t addr = Some f" for f
    using quiet that unfolding mmio_quiet_def by blast
  note k = keeps_readyD [OF this ready]
  show "h_runs (e_host e1) = h_runs (e_host e)" using cb k(2) by (fastforce split: option.splits)
  show "env_ready I p e1" using cb k(1) ready by (fastforce split: option.splits)
qed

interpretation mmio_exits: exit_handler "MmioHandler_handle p" "mmio_quiet I" "env_ready I p"
  for p I
proof unfold_locales
  fix t :: "('a, 'b) MmioHandler" and e :: "('a, 'b) env"
  assume quiet: "mmio_quiet I t" and ready: "env_ready I p e"
  then obtain run where run: "h_runs (e_host e) p = Some run" "run_wf run" "run_fits run"
    by (auto simp: run_fits_def elim: env_ready_run)
  let ?cb = "case mh_readCallbacks t (mmio_phys_addr (run_mmio run)) of None \<Rightarrow> (0xFFFFFFFFFFFFFFFF, e)
      | Some cb \<Rightarrow> cb \<lparr>rc_addr = mmio_phys_addr (run_mmio run), rc_size = mmio_size run\<rparr> e"
  obtain v e1 where cb: "?cb = (v, e1)" by fastforce
  note e1 = mmio_answer_ready [OF quiet ready cb]
  have run1: "h_runs (e_host e1) p = Some run" using e1(1) run(1) by simp
  have wr: "env_ready I p (cb ctx e)" if "mh_writeCallbacks t addr = Some cb" for addr cb ctx
    using quiet that keeps_readyD(1) [OF _ ready] unfolding mmio_quiet_def by blast
  show "\<exists>ok t' e'. MmioHandler_handle p t e = Some (ok, t', e') \<and> mmio_quiet I t' \<and> env_ready I p e'"
  proof (cases "mmio_size run = 0 \<or> mmio_size run > 8")
    case True
    with handle_rejects [OF run(1)] quiet ready show ?thesis by blast
  next
    case size: False
    then have "unat (mmio_size run) \<le> 8" by (rule mmio_size_nat)
    with handle_write [OF run(1,2) size] handle_read [OF run(1,2) size _ cb run1] quiet run ready e1(2) wr
    show ?thesis
      by (cases "mmio_is_write (run_mmio run) = 0")
        (auto simp: mmio_quiet_def run_fits_def run_wf_def io_width_def intro!: env_ready_set_run
          split: option.split)
  qed
qed

text \<open>C27: an MMIO exit on a mapped page is always handled or refused, never undefined: a length whose
  low byte is 0 or more than 8 is refused and changes nothing; a write gives the callback of its
  address the zero-extended value of exactly the written bytes; a read replaces exactly the first
  \<open>size\<close> data bytes by the low bytes of the callback's value, all ones without a callback, and keeps
  the rest of the page.\<close>

theorem mmio_handle_spec:
  assumes "h_runs (e_host e) p = Some run" and "run_wf run"
    and "(case mh_readCallbacks t (mmio_phys_addr (run_mmio run)) of
        None \<Rightarrow> (0xFFFFFFFFFFFFFFFF, e)
      | Some cb \<Rightarrow> cb \<lparr>rc_addr = mmio_phys_addr (run_mmio run), rc_size = mmio_size run\<rparr> e) = (value, e1)"
    and "h_runs (e_host e1) p = Some run"
  shows "MmioHandler_handle p t e = Some
    (if mmio_size run = 0 \<or> mmio_size run > 8 then (False, t, e)
     else if mmio_is_write (run_mmio run) \<noteq> 0 then
       (True, t\<lparr>mh_writeCount := mh_writeCount t + 1\<rparr>,
        (case mh_writeCallbacks t (mmio_phys_addr (run_mmio run)) of
           None \<Rightarrow> e
         | Some cb \<Rightarrow> cb \<lparr>wc_addr = mmio_phys_addr (run_mmio run), wc_size = mmio_size run,
             wc_value = le_word (take (unat (mmio_size run)) (mmio_data (run_mmio run)))\<rparr> e))
     else
       (True, t\<lparr>mh_readCount := mh_readCount t + 1\<rparr>,
        set_run p (run\<lparr>run_mmio := (run_mmio run)\<lparr>mmio_data :=
          le_bytes (unat (mmio_size run)) value @ drop (unat (mmio_size run)) (mmio_data (run_mmio run))\<rparr>\<rparr>) e1))"
  using handle_rejects [OF assms(1), of t] handle_write [OF assms(1,2), of t]
    handle_read [OF assms(1,2) _ _ assms(3,4)]
  by (cases "mmio_size run = 0 \<or> mmio_size run > 8"; cases "mmio_is_write (run_mmio run) = 0") simp_all

definition demo_mmio_run :: kvm_run where
  "demo_mmio_run = kvm_run0\<lparr>exit_reason := 6,
     run_mmio := \<lparr>mmio_phys_addr = 0x10000000, mmio_data = [1, 2, 3, 4, 5, 6, 7, 8], mmio_len = 2, mmio_is_write = 0\<rparr>\<rparr>"

lemma le_bytes_two: "le_bytes 2 w = [ucast w, ucast (drop_bit 8 w)]"
  by (simp add: numeral_2_eq_2)

theorem mmio_handle_spec_witness:
  "MmioHandler_handle 0x20000000 (MmioHandler_registerRead 0x10000000 (\<lambda>c e. (e_app e, e)) MmioHandler0)
     (demo_env demo_mmio_run 0xAB) =
   Some (True, (MmioHandler_registerRead 0x10000000 (\<lambda>c e. (e_app e, e)) MmioHandler0)\<lparr>mh_readCount := 1\<rparr>,
     set_run 0x20000000 (demo_mmio_run\<lparr>run_mmio := (run_mmio demo_mmio_run)\<lparr>mmio_data := [0xAB, 0, 3, 4, 5, 6, 7, 8]\<rparr>\<rparr>)
       (demo_env demo_mmio_run 0xAB))"
proof -
  have "unat (mmio_size demo_mmio_run) = 2" "mmio_is_write (run_mmio demo_mmio_run) = 0"
    "mmio_size demo_mmio_run = 2"
    by (simp_all add: mmio_size_def demo_mmio_run_def)
  then show ?thesis
    using mmio_handle_spec [of "demo_env demo_mmio_run 0xAB" "0x20000000" demo_mmio_run
        "MmioHandler_registerRead 0x10000000 (\<lambda>c e. (e_app e, e)) MmioHandler0" "0xAB"
        "demo_env demo_mmio_run 0xAB"]
    by (simp add: demo_env_def MmioHandler_registerRead_def MmioHandler0_def demo_mmio_run_def run_wf_def
        le_bytes_two)
qed

text \<open>C28: a value written by the guest to a device register and read back with the same size gives
  the guest its own bytes again, for every access size and every device that keeps the value written.\<close>

theorem mmio_loopback:
  assumes "h_runs (e_host e) p = Some wr" and "run_wf wr" and "mmio_is_write (run_mmio wr) \<noteq> 0"
    and "mmio_size wr \<noteq> 0" and "mmio_size wr \<le> 8"
    and "mh_writeCallbacks t (mmio_phys_addr (run_mmio wr)) = Some (\<lambda>c e. e\<lparr>e_app := put (wc_value c) (e_app e)\<rparr>)"
    and "mh_readCallbacks t (mmio_phys_addr (run_mmio wr)) = Some (\<lambda>c e. (get (e_app e), e))"
    and "\<And>v a. get (put v a) = v"
    and "run_wf rd" and "run_mmio rd = (run_mmio wr)\<lparr>mmio_is_write := 0, mmio_data := junk\<rparr>"
  shows "\<exists>t1 e1 t2 e2 rd'. MmioHandler_handle p t e = Some (True, t1, e1) \<and>
     MmioHandler_handle p t1 (set_run p rd e1) = Some (True, t2, e2) \<and>
     h_runs (e_host e2) p = Some rd' \<and>
     take (unat (mmio_size wr)) (mmio_data (run_mmio rd')) = take (unat (mmio_size wr)) (mmio_data (run_mmio wr)) \<and>
     mh_writeCount t2 = mh_writeCount t + 1 \<and> mh_readCount t2 = mh_readCount t + 1"
proof -
  let ?n = "unat (mmio_size wr)" and ?d = "mmio_data (run_mmio wr)"
  let ?v = "le_word (take ?n ?d) :: u64"
  let ?e1 = "e\<lparr>e_app := put ?v (e_app e)\<rparr>" and ?t1 = "t\<lparr>mh_writeCount := mh_writeCount t + 1\<rparr>"
  have size: "\<not> (mmio_size wr = 0 \<or> mmio_size wr > 8)" using assms(4,5) by auto
  have n: "?n \<le> 8" using size by (rule mmio_size_nat)
  have rdsize: "mmio_size rd = mmio_size wr" by (simp add: mmio_size_def assms(10))
  have w: "MmioHandler_handle p t e = Some (True, ?t1, ?e1)"
    using handle_write [OF assms(1,2) size assms(3)] by (simp add: assms(6))
  have r: "MmioHandler_handle p ?t1 (set_run p rd ?e1) = Some (True, ?t1\<lparr>mh_readCount := mh_readCount ?t1 + 1\<rparr>,
      set_run p (rd\<lparr>run_mmio := (run_mmio rd)\<lparr>mmio_data := le_bytes ?n ?v @ drop ?n (mmio_data (run_mmio rd))\<rparr>\<rparr>)
        (set_run p rd ?e1))"
    by (rule handle_read [where run = rd, unfolded rdsize])
      (use size in \<open>simp_all add: assms rdsize\<close>)
  have "le_bytes ?n ?v = take ?n ?d"
    using n assms(2) by (intro le_bytes_word) (simp_all add: run_wf_def)
  with w r n assms(2) show ?thesis by (auto simp: run_wf_def)
qed

theorem mmio_loopback_witness:
  "\<exists>t1 e1 t2 e2 rd'.
     MmioHandler_handle 0x20000000
       (MmioHandler_registerRead 0x10000000 (\<lambda>c e. (e_app e, e))
         (MmioHandler_registerWrite 0x10000000 (\<lambda>c e. e\<lparr>e_app := wc_value c\<rparr>) MmioHandler0))
       (demo_env (demo_mmio_run\<lparr>run_mmio := (run_mmio demo_mmio_run)\<lparr>mmio_is_write := 1\<rparr>\<rparr>) 0) = Some (True, t1, e1) \<and>
     MmioHandler_handle 0x20000000 t1 (set_run 0x20000000
       (demo_mmio_run\<lparr>run_mmio := (run_mmio demo_mmio_run)\<lparr>mmio_data := replicate 8 0\<rparr>\<rparr>) e1) = Some (True, t2, e2) \<and>
     h_runs (e_host e2) 0x20000000 = Some rd' \<and> take 2 (mmio_data (run_mmio rd')) = [1, 2]"
proof -
  let ?wr = "demo_mmio_run\<lparr>run_mmio := (run_mmio demo_mmio_run)\<lparr>mmio_is_write := 1\<rparr>\<rparr>"
  let ?rd = "demo_mmio_run\<lparr>run_mmio := (run_mmio demo_mmio_run)\<lparr>mmio_data := replicate 8 0\<rparr>\<rparr>"
  have size: "mmio_size ?wr = 2" by (simp add: mmio_size_def demo_mmio_run_def)
  let ?t = "MmioHandler_registerRead 0x10000000 (\<lambda>c e. (e_app e, e))
    (MmioHandler_registerWrite 0x10000000 (\<lambda>c e. e\<lparr>e_app := wc_value c\<rparr>) MmioHandler0) :: (sim, u64) MmioHandler"
  have "\<exists>t1 e1 t2 e2 rd'. MmioHandler_handle 0x20000000 ?t (demo_env ?wr 0) = Some (True, t1, e1) \<and>
     MmioHandler_handle 0x20000000 t1 (set_run 0x20000000 ?rd e1) = Some (True, t2, e2) \<and>
     h_runs (e_host e2) 0x20000000 = Some rd' \<and>
     take (unat (mmio_size ?wr)) (mmio_data (run_mmio rd')) = take (unat (mmio_size ?wr)) (mmio_data (run_mmio ?wr)) \<and>
     mh_writeCount t2 = mh_writeCount ?t + 1 \<and> mh_readCount t2 = mh_readCount ?t + 1"
    by (rule mmio_loopback [where put = "\<lambda>v a. v" and get = "\<lambda>a. a" and junk = "replicate 8 0"])
      (simp_all add: demo_env_def run_wf_def MmioHandler_registerRead_def MmioHandler_registerWrite_def
        demo_mmio_run_def mmio_size_def)
  then obtain t1 e1 t2 e2 rd' where "MmioHandler_handle 0x20000000 ?t (demo_env ?wr 0) = Some (True, t1, e1)"
    and "MmioHandler_handle 0x20000000 t1 (set_run 0x20000000 ?rd e1) = Some (True, t2, e2)"
    and "h_runs (e_host e2) 0x20000000 = Some rd'"
    and "take (unat (mmio_size ?wr)) (mmio_data (run_mmio rd')) = take (unat (mmio_size ?wr)) (mmio_data (run_mmio ?wr))"
    by (elim exE conjE)
  moreover from this(4) have "take 2 (mmio_data (run_mmio rd')) = [1, 2]"
    unfolding size by (simp add: demo_mmio_run_def)
  ultimately show ?thesis by (intro exI conjI)
qed

end
