(* ===== verification/Event_Dispatcher.thy ===== *)
theory Event_Dispatcher
  imports Hv_Prelude
begin

text \<open>
  The event records and \<^verbatim>\<open>class EventDispatcher\<close> (include/hv/EventDispatcher.h,
  src/EventDispatcher.cpp): subscribe, subscribe to everything, unsubscribe, publish. A handler
  changes the state \<open>'s\<close> of the objects it captured; a handler whose run is undefined gives
  \<^const>\<open>None\<close>. The interface \<open>event_bus\<close> is what the VMI agent and the trapper rely on.
\<close>

section \<open>Events\<close>

datatype EventType =
    ET_CpuidAccess | ET_IoRead | ET_IoWrite | ET_MsrRead | ET_MsrWrite | ET_MemAccess
  | ET_GuestHalt | ET_GuestShutdown

record CpuidEvent =
  cpe_leaf :: u32
  cpe_subleaf :: u32
  cpe_eax :: u32
  cpe_ebx :: u32
  cpe_ecx :: u32
  cpe_edx :: u32

definition CpuidEvent0 :: CpuidEvent where
  "CpuidEvent0 = \<lparr>cpe_leaf = 0, cpe_subleaf = 0, cpe_eax = 0, cpe_ebx = 0, cpe_ecx = 0, cpe_edx = 0\<rparr>"

record IoEvent =
  ioe_port :: u16
  ioe_size :: u8
  ioe_value :: u32
  ioe_isWrite :: bool

record MsrEvent =
  mse_index :: u32
  mse_value :: u64
  mse_isWrite :: bool

record MmioEvent =
  mme_guest_phys_addr :: u64
  mme_size :: u8
  mme_value :: u64
  mme_isWrite :: bool

datatype EventPayload =
    PL_Cpuid CpuidEvent
  | PL_Io IoEvent
  | PL_Msr MsrEvent
  | PL_Mmio MmioEvent
  | PL_Monostate

record HvEvent =
  ev_type :: EventType
  ev_vcpu_id :: u32
  ev_rip :: u64
  ev_timestamp :: int
  ev_payload :: EventPayload

text \<open>
  \<^verbatim>\<open>HvEvent ev{}\<close> once its type is set: the payload of a value-initialised \<^verbatim>\<open>std::variant\<close> is its
  first alternative, a zero \<^verbatim>\<open>CpuidEvent\<close>.
\<close>

definition HvEvent0 :: "EventType \<Rightarrow> HvEvent" where
  "HvEvent0 t = \<lparr>ev_type = t, ev_vcpu_id = 0, ev_rip = 0, ev_timestamp = 0, ev_payload = PL_Cpuid CpuidEvent0\<rparr>"

section \<open>The dispatcher\<close>

record 's Subscription =
  sub_id :: u32
  sub_filter :: "EventType option"
  sub_handler :: "HvEvent \<Rightarrow> 's \<Rightarrow> 's option"

record 's EventDispatcher =
  d_subscriptions :: "'s Subscription list"
  d_nextId :: u32
  d_publishedCount :: u64

definition EventDispatcher0 :: "'s EventDispatcher" where
  "EventDispatcher0 = \<lparr>d_subscriptions = [], d_nextId = 1, d_publishedCount = 0\<rparr>"

definition EventDispatcher_subscribe ::
  "EventType \<Rightarrow> (HvEvent \<Rightarrow> 's \<Rightarrow> 's option) \<Rightarrow> 's EventDispatcher \<Rightarrow> u32 \<times> 's EventDispatcher" where
  "EventDispatcher_subscribe type handler d =
     (let i = d_nextId d in
      (i, d\<lparr>d_nextId := i + 1,
            d_subscriptions := d_subscriptions d @ [\<lparr>sub_id = i, sub_filter = Some type, sub_handler = handler\<rparr>]\<rparr>))"

definition EventDispatcher_subscribeAll ::
  "(HvEvent \<Rightarrow> 's \<Rightarrow> 's option) \<Rightarrow> 's EventDispatcher \<Rightarrow> u32 \<times> 's EventDispatcher" where
  "EventDispatcher_subscribeAll handler d =
     (let i = d_nextId d in
      (i, d\<lparr>d_nextId := i + 1,
            d_subscriptions := d_subscriptions d @ [\<lparr>sub_id = i, sub_filter = None, sub_handler = handler\<rparr>]\<rparr>))"

definition EventDispatcher_unsubscribe :: "u32 \<Rightarrow> 's EventDispatcher \<Rightarrow> 's EventDispatcher" where
  "EventDispatcher_unsubscribe i d =
     d\<lparr>d_subscriptions := filter (\<lambda>s. \<not> (sub_id s = i)) (d_subscriptions d)\<rparr>"

fun deliver :: "'s Subscription list \<Rightarrow> HvEvent \<Rightarrow> 's \<Rightarrow> 's option" where
  "deliver [] event s = Some s"
| "deliver (sub # subs) event s =
     (if sub_filter sub = None \<or> sub_filter sub = Some (ev_type event)
      then do { s' \<leftarrow> sub_handler sub event s; deliver subs event s' }
      else deliver subs event s)"

definition EventDispatcher_publish ::
  "'s EventDispatcher \<Rightarrow> HvEvent \<Rightarrow> 's \<Rightarrow> ('s EventDispatcher \<times> 's) option" where
  "EventDispatcher_publish d event s =
     do { s' \<leftarrow> deliver (d_subscriptions d) event s;
          Some (d\<lparr>d_publishedCount := d_publishedCount d + 1\<rparr>, s') }"

section \<open>The bus as an interface\<close>

text \<open>Running handlers one after the other, in order.\<close>

primrec run_all :: "('e \<Rightarrow> 's \<Rightarrow> 's option) list \<Rightarrow> 'e \<Rightarrow> 's \<Rightarrow> 's option" where
  "run_all [] e s = Some s"
| "run_all (f # fs) e s = do { s' \<leftarrow> f e s; run_all fs e s' }"

lemma run_all_append: "run_all (fs @ gs) e s = do { s' \<leftarrow> run_all fs e s; run_all gs e s' }"
  by (induction fs arbitrary: s) (simp_all add: Option.bind_assoc)

locale event_bus =
  fixes subscribe :: "('e \<Rightarrow> 's \<Rightarrow> 's option) \<Rightarrow> 'd \<Rightarrow> 'i \<times> 'd"
    and unsubscribe :: "'i \<Rightarrow> 'd \<Rightarrow> 'd"
    and publish :: "'d \<Rightarrow> 'e \<Rightarrow> 's \<Rightarrow> ('d \<times> 's) option"
    and tick :: "'d \<Rightarrow> 'd"
    and listeners :: "'d \<Rightarrow> 'e \<Rightarrow> ('e \<Rightarrow> 's \<Rightarrow> 's option) list"
    and usable :: "'d \<Rightarrow> bool"
  assumes listeners_subscribe: "listeners (snd (subscribe f d)) e = listeners d e @ [f]"
    and listeners_unsubscribe:
      "usable d \<Longrightarrow> listeners (unsubscribe (fst (subscribe f d)) (snd (subscribe f d))) e = listeners d e"
    and publish_runs: "publish d e s = map_option (Pair (tick d)) (run_all (listeners d e) e s)"
    and listeners_tick: "listeners (tick d) e = listeners d e"
begin

lemma publish_subscribed:
  "publish (snd (subscribe f d)) e s =
     do { s' \<leftarrow> run_all (listeners d e) e s; s'' \<leftarrow> f e s'; Some (tick (snd (subscribe f d)), s'') }"
  by (simp add: publish_runs listeners_subscribe run_all_append map_option_bind bind_map_option comp_def
      map_conv_bind_option Option.bind_assoc)

lemma publish_unsubscribed:
  "usable d \<Longrightarrow> map_option snd (publish (unsubscribe (fst (subscribe f d)) (snd (subscribe f d))) e s) =
     map_option snd (publish d e s)"
  by (simp add: publish_runs listeners_unsubscribe option.map_comp comp_def)

text \<open>A sequence of events reaches the same listeners event by event.\<close>

primrec publish_list :: "'d \<Rightarrow> 'e list \<Rightarrow> 's \<Rightarrow> ('d \<times> 's) option" where
  "publish_list d [] s = Some (d, s)"
| "publish_list d (e # es) s = do { (d', s') \<leftarrow> publish d e s; publish_list d' es s' }"

lemma publish_list_listeners:
  "publish_list d es s = Some (d', s') \<Longrightarrow> listeners d' e = listeners d e"
  by (induction es arbitrary: d s)
    (auto simp: publish_runs listeners_tick split: Option.bind_splits)

end

definition matching :: "'s EventDispatcher \<Rightarrow> HvEvent \<Rightarrow> 's Subscription list" where
  "matching d e = filter (\<lambda>s. sub_filter s \<in> {None, Some (ev_type e)}) (d_subscriptions d)"

text \<open>Identifiers in use are nonzero, pairwise different and below the next one.\<close>

definition dispatcher_wf :: "'s EventDispatcher \<Rightarrow> bool" where
  "dispatcher_wf d \<longleftrightarrow> distinct (map sub_id (d_subscriptions d)) \<and>
     (\<forall>s \<in> set (d_subscriptions d). 0 < sub_id s \<and> sub_id s < d_nextId d)"

lemma deliver_keeps:
  assumes "\<forall>sub \<in> set subs. \<forall>ev s. P s \<longrightarrow> (\<exists>s'. sub_handler sub ev s = Some s' \<and> P s')" and "P s"
  shows "\<exists>s'. deliver subs ev s = Some s' \<and> P s'"
  using assms
proof (induction subs arbitrary: s)
  case (Cons sub subs)
  then obtain s1 where "sub_handler sub ev s = Some s1" "P s1" by fastforce
  with Cons show ?case by simp
qed simp

lemma deliver_run_all:
  "deliver subs e s = run_all (map sub_handler (filter (\<lambda>s. sub_filter s \<in> {None, Some (ev_type e)}) subs)) e s"
  by (induction subs arbitrary: s) (auto cong: Option.bind_cong)

lemma subscribeAll_simps:
  "fst (EventDispatcher_subscribeAll f d) = d_nextId d"
  "d_subscriptions (snd (EventDispatcher_subscribeAll f d)) =
     d_subscriptions d @ [\<lparr>sub_id = d_nextId d, sub_filter = None, sub_handler = f\<rparr>]"
  "d_nextId (snd (EventDispatcher_subscribeAll f d)) = d_nextId d + 1"
  "d_publishedCount (snd (EventDispatcher_subscribeAll f d)) = d_publishedCount d"
  by (simp_all add: EventDispatcher_subscribeAll_def Let_def)

lemma unsubscribe_fresh:
  assumes "dispatcher_wf d"
  shows "filter (\<lambda>s. \<not> (sub_id s = d_nextId d)) (d_subscriptions d) = d_subscriptions d"
  using assms by (auto simp: dispatcher_wf_def filter_id_conv)

interpretation bus: event_bus EventDispatcher_subscribeAll EventDispatcher_unsubscribe
  EventDispatcher_publish "\<lambda>d. d\<lparr>d_publishedCount := d_publishedCount d + 1\<rparr>"
  "\<lambda>d e. map sub_handler (matching d e)" dispatcher_wf
proof unfold_locales
  fix d :: "'a EventDispatcher" and e s
  show "EventDispatcher_publish d e s =
      map_option (Pair (d\<lparr>d_publishedCount := d_publishedCount d + 1\<rparr>)) (run_all (map sub_handler (matching d e)) e s)"
    by (simp add: EventDispatcher_publish_def deliver_run_all matching_def map_conv_bind_option comp_def)
qed (simp_all add: matching_def subscribeAll_simps EventDispatcher_unsubscribe_def unsubscribe_fresh)

section \<open>Routing\<close>

text \<open>C18: publishing an event runs the handlers whose filter is empty or names the event's type, each
  once, in subscription order, passing the state along, and no other; the count goes up by one and
  the subscriptions stay as they are.\<close>

theorem publish_routes:
  "EventDispatcher_publish d event s =
     map_option (\<lambda>s'. (d\<lparr>d_publishedCount := d_publishedCount d + 1\<rparr>, s'))
       (run_all (map sub_handler
          (filter (\<lambda>x. sub_filter x \<in> {None, Some (ev_type event)}) (d_subscriptions d))) event s)"
  using bus.publish_runs [of d event s] by (simp add: matching_def)

section \<open>Subscription identifiers\<close>

text \<open>The operations a client may perform, and the states they lead to from a new dispatcher.\<close>

inductive dispatcher_reach :: "nat \<Rightarrow> 's EventDispatcher \<Rightarrow> bool" where
  reach_new: "dispatcher_reach 0 EventDispatcher0"
| reach_subscribe: "dispatcher_reach n d \<Longrightarrow> dispatcher_reach (Suc n) (snd (EventDispatcher_subscribe t f d))"
| reach_subscribeAll: "dispatcher_reach n d \<Longrightarrow> dispatcher_reach (Suc n) (snd (EventDispatcher_subscribeAll f d))"
| reach_unsubscribe: "dispatcher_reach n d \<Longrightarrow> dispatcher_reach n (EventDispatcher_unsubscribe i d)"
| reach_publish: "dispatcher_reach n d \<Longrightarrow> EventDispatcher_publish d e s = Some (d', s') \<Longrightarrow> dispatcher_reach n d'"

lemma dispatcher_wf_append:
  assumes "dispatcher_wf d" and "d_nextId d \<noteq> 0" and "d_nextId d < d_nextId d + 1"
  shows "dispatcher_wf (d\<lparr>d_nextId := d_nextId d + 1,
    d_subscriptions := d_subscriptions d @ [\<lparr>sub_id = d_nextId d, sub_filter = flt, sub_handler = f\<rparr>]\<rparr>)"
  using assms by (auto simp: dispatcher_wf_def word_gt_0 intro: less_trans [OF _ assms(3)])

lemma dispatcher_reach_wf:
  assumes "dispatcher_reach n d" and "n < 2 ^ 32 - 1"
  shows "dispatcher_wf d \<and> unat (d_nextId d) = Suc n"
  using assms
proof (induction rule: dispatcher_reach.induct)
  case reach_new
  then show ?case by (simp add: dispatcher_wf_def EventDispatcher0_def)
next
  case (reach_subscribe n d t f)
  then have IH: "dispatcher_wf d" "unat (d_nextId d) = Suc n" by simp_all
  have "unat (d_nextId d + 1) = Suc (Suc n)"
    using IH(2) reach_subscribe.prems by (simp add: unat_word_ariths)
  with IH have "d_nextId d \<noteq> 0" "d_nextId d < d_nextId d + 1" "unat (d_nextId d + 1) = Suc (Suc n)"
    by (auto simp: word_less_nat_alt)
  with IH dispatcher_wf_append show ?case by (simp add: EventDispatcher_subscribe_def Let_def)
next
  case (reach_subscribeAll n d f)
  then have IH: "dispatcher_wf d" "unat (d_nextId d) = Suc n" by simp_all
  have "unat (d_nextId d + 1) = Suc (Suc n)"
    using IH(2) reach_subscribeAll.prems by (simp add: unat_word_ariths)
  with IH have "d_nextId d \<noteq> 0" "d_nextId d < d_nextId d + 1" "unat (d_nextId d + 1) = Suc (Suc n)"
    by (auto simp: word_less_nat_alt)
  with IH dispatcher_wf_append show ?case by (simp add: EventDispatcher_subscribeAll_def Let_def)
next
  case (reach_unsubscribe n d i)
  then show ?case by (auto simp: dispatcher_wf_def EventDispatcher_unsubscribe_def distinct_map_filter)
next
  case (reach_publish n d e s d' s')
  then show ?case
    by (auto simp: EventDispatcher_publish_def dispatcher_wf_def split: Option.bind_splits)
qed



end
