(* ===== verification/Instruction_Trapper.thy ===== *)
theory Instruction_Trapper
  imports Cpuid_Handler Io_Port_Handler Msr_Handler Mmio_Handler Event_Dispatcher
begin

text \<open>
  \<^verbatim>\<open>class InstructionTrapper\<close> (include/hv/InstructionTrapper.h, src/InstructionTrapper.cpp): one exit of
  the vCPU is classified, handed to its handler and published as an event; the run loop repeats this.
  The objects behind the trapper's pointers are part of its record, with \<^const>\<open>None\<close> for a null
  pointer. \<^const>\<open>None\<close> as a result is undefined behaviour, or a loop that does not end.
\<close>

section \<open>Model\<close>

datatype RunResult = RR_Continue | RR_Halt | RR_Shutdown | RR_Error

record ('k, 'a) InstructionTrapper =
  it_vcpu :: VCpu
  it_cpuid :: "('k, 'a) CpuidHandler option"
  it_io :: "('k, 'a) IoPortHandler option"
  it_msr :: "('k, 'a) MsrHandler option"
  it_mmio :: "('k, 'a) MmioHandler option"
  it_dispatch :: "('k, 'a) env EventDispatcher option"
  it_exitCount :: u64

type_synonym ('k, 'a) outcome = "(RunResult \<times> ('k, 'a) InstructionTrapper \<times> ('k, 'a) env) option"

definition InstructionTrapper_new ::
  "VCpu \<Rightarrow> ('k, 'a) CpuidHandler option \<Rightarrow> ('k, 'a) IoPortHandler option \<Rightarrow> ('k, 'a) MsrHandler option \<Rightarrow>
   ('k, 'a) MmioHandler option \<Rightarrow> ('k, 'a) env EventDispatcher option \<Rightarrow> ('k, 'a) InstructionTrapper" where
  "InstructionTrapper_new vcpu cpuid io msr mmio dispatch =
     \<lparr>it_vcpu = vcpu, it_cpuid = cpuid, it_io = io, it_msr = msr, it_mmio = mmio,
      it_dispatch = dispatch, it_exitCount = 0\<rparr>"

text \<open>\<^verbatim>\<open>if (auto regs = m_vcpu->getRegs(); regs) { ev.rip = regs->rip; }\<close>\<close>

definition event_rip :: "'k kernel \<Rightarrow> VCpu \<Rightarrow> HvEvent \<Rightarrow> ('k, 'a) env \<Rightarrow> HvEvent \<times> ('k, 'a) env" where
  "event_rip K vcpu ev e =
     (let (regs, e1) = on_host (VCpu_getRegs K vcpu) e in
      case regs of Inl _ \<Rightarrow> (ev, e1) | Inr r \<Rightarrow> (ev\<lparr>ev_rip := rip r\<rparr>, e1))"

text \<open>\<^verbatim>\<open>m_dispatch->publish(ev); ... return result;\<close>\<close>

definition publish_and_return ::
  "RunResult \<Rightarrow> ('k, 'a) env EventDispatcher \<Rightarrow> HvEvent \<Rightarrow> ('k, 'a) InstructionTrapper \<Rightarrow> ('k, 'a) env \<Rightarrow> ('k, 'a) outcome" where
  "publish_and_return r d ev t e =
     do { (d', e') \<leftarrow> EventDispatcher_publish d ev e; Some (r, t\<lparr>it_dispatch := Some d'\<rparr>, e') }"

definition dispatch_hlt :: "'k kernel \<Rightarrow> ('k, 'a) InstructionTrapper \<Rightarrow> ('k, 'a) env \<Rightarrow> ('k, 'a) outcome" where
  "dispatch_hlt K t e =
     (case it_dispatch t of
        None \<Rightarrow> Some (RR_Halt, t, e)
      | Some d \<Rightarrow>
          let (now, e1) = on_host (clock_now K) e;
              (ev, e2) = event_rip K (it_vcpu t)
                ((HvEvent0 ET_GuestHalt)\<lparr>ev_vcpu_id := v_id (it_vcpu t), ev_timestamp := now, ev_payload := PL_Monostate\<rparr>) e1
          in publish_and_return RR_Halt d ev t e2)"

definition dispatch_shutdown :: "'k kernel \<Rightarrow> ('k, 'a) InstructionTrapper \<Rightarrow> ('k, 'a) env \<Rightarrow> ('k, 'a) outcome" where
  "dispatch_shutdown K t e =
     (case it_dispatch t of
        None \<Rightarrow> Some (RR_Shutdown, t, e)
      | Some d \<Rightarrow>
          let (now, e1) = on_host (clock_now K) e
          in publish_and_return RR_Shutdown d
               ((HvEvent0 ET_GuestShutdown)\<lparr>ev_vcpu_id := v_id (it_vcpu t), ev_timestamp := now\<rparr>) t e1)"

definition publish_io :: "'k kernel \<Rightarrow> ('k, 'a) InstructionTrapper \<Rightarrow> ('k, 'a) env \<Rightarrow> ('k, 'a) outcome" where
  "publish_io K t e =
     (case it_dispatch t of
        None \<Rightarrow> Some (RR_Continue, t, e)
      | Some d \<Rightarrow> do {
          run \<leftarrow> h_runs (e_host e) (v_runPage (it_vcpu t));
          let io = run_io run;
          let isWrite = (io_direction io = KVM_EXIT_IO_OUT);
          data \<leftarrow> load_at (run_bytes run) (unat (io_data_offset io)) (unat (min (io_size io) 4));
          let payload = \<lparr>ioe_port = io_port io, ioe_size = io_size io,
                ioe_value = le_word (memcpy (le_bytes 4 (0 :: u32)) data (unat (min (io_size io) 4))), ioe_isWrite = isWrite\<rparr>;
          let (now, e1) = on_host (clock_now K) e;
          let (ev, e2) = event_rip K (it_vcpu t)
                ((HvEvent0 (if isWrite then ET_IoWrite else ET_IoRead))
                   \<lparr>ev_vcpu_id := v_id (it_vcpu t), ev_payload := PL_Io payload, ev_timestamp := now\<rparr>) e1;
          publish_and_return RR_Continue d ev t e2
        })"

definition dispatch_io :: "'k kernel \<Rightarrow> ('k, 'a) InstructionTrapper \<Rightarrow> ('k, 'a) env \<Rightarrow> ('k, 'a) outcome" where
  "dispatch_io K t e = do {
     (ok, io', e1) \<leftarrow> optionally (IoPortHandler_handle (it_vcpu t) (v_runPage (it_vcpu t))) (it_io t) e;
     let t1 = t\<lparr>it_io := io'\<rparr>;
     if \<not> ok then Some (RR_Error, t1, e1) else publish_io K t1 e1
   }"

definition dispatch_unknown :: "'k kernel \<Rightarrow> ('k, 'a) InstructionTrapper \<Rightarrow> ('k, 'a) env \<Rightarrow> ('k, 'a) outcome" where
  "dispatch_unknown K t e = do {
     run \<leftarrow> h_runs (e_host e) (v_runPage (it_vcpu t));
     if hw_exit_reason run = 0 then do {
       (ok, cpuid', e1) \<leftarrow> optionally (\<lambda>c s. Some (CpuidHandler_handle K (it_vcpu t) c s)) (it_cpuid t) e;
       let t1 = t\<lparr>it_cpuid := cpuid'\<rparr>;
       if \<not> ok then Some (RR_Error, t1, e1) else Some (RR_Continue, t1, e1)
     } else Some (RR_Continue, t, e)
   }"

definition publish_mmio :: "'k kernel \<Rightarrow> ('k, 'a) InstructionTrapper \<Rightarrow> ('k, 'a) env \<Rightarrow> ('k, 'a) outcome" where
  "publish_mmio K t e =
     (case it_dispatch t of
        None \<Rightarrow> Some (RR_Continue, t, e)
      | Some d \<Rightarrow> do {
          run \<leftarrow> h_runs (e_host e) (v_runPage (it_vcpu t));
          let m = run_mmio run;
          data \<leftarrow> load_at (mmio_data m) 0 (unat (min (ucast (mmio_len m)) 8 :: u8));
          let payload = \<lparr>mme_guest_phys_addr = mmio_phys_addr m, mme_size = ucast (mmio_len m),
                mme_value = le_word (memcpy (le_bytes 8 (0 :: u64)) data (unat (min (ucast (mmio_len m)) 8 :: u8))),
                mme_isWrite = (mmio_is_write m \<noteq> 0)\<rparr>;
          let (now, e1) = on_host (clock_now K) e;
          let (ev, e2) = event_rip K (it_vcpu t)
                ((HvEvent0 ET_MemAccess)
                   \<lparr>ev_vcpu_id := v_id (it_vcpu t), ev_payload := PL_Mmio payload, ev_timestamp := now\<rparr>) e1;
          publish_and_return RR_Continue d ev t e2
        })"

definition dispatch_mmio :: "'k kernel \<Rightarrow> ('k, 'a) InstructionTrapper \<Rightarrow> ('k, 'a) env \<Rightarrow> ('k, 'a) outcome" where
  "dispatch_mmio K t e = do {
     (ok, mmio', e1) \<leftarrow> optionally (MmioHandler_handle (v_runPage (it_vcpu t))) (it_mmio t) e;
     let t1 = t\<lparr>it_mmio := mmio'\<rparr>;
     if \<not> ok then Some (RR_Error, t1, e1) else publish_mmio K t1 e1
   }"

definition publish_cpuid :: "'k kernel \<Rightarrow> ('k, 'a) InstructionTrapper \<Rightarrow> ('k, 'a) env \<Rightarrow> ('k, 'a) outcome" where
  "publish_cpuid K t e =
     (case it_dispatch t of
        None \<Rightarrow> Some (RR_Continue, t, e)
      | Some d \<Rightarrow>
          let (regs, e1) = on_host (VCpu_getRegs K (it_vcpu t)) e;
              payload = (case regs of
                  Inl _ \<Rightarrow> CpuidEvent0
                | Inr r \<Rightarrow> \<lparr>cpe_leaf = ucast (rax r), cpe_subleaf = ucast (rcx r), cpe_eax = ucast (rax r),
                            cpe_ebx = ucast (rbx r), cpe_ecx = ucast (rcx r), cpe_edx = ucast (rdx r)\<rparr>);
              (now, e2) = on_host (clock_now K) e1;
              (ev, e3) = event_rip K (it_vcpu t)
                ((HvEvent0 ET_CpuidAccess)
                   \<lparr>ev_vcpu_id := v_id (it_vcpu t), ev_payload := PL_Cpuid payload, ev_timestamp := now\<rparr>) e2
          in publish_and_return RR_Continue d ev t e3)"

definition dispatch_internal_error :: "'k kernel \<Rightarrow> ('k, 'a) InstructionTrapper \<Rightarrow> ('k, 'a) env \<Rightarrow> ('k, 'a) outcome" where
  "dispatch_internal_error K t e = do {
     run \<leftarrow> h_runs (e_host e) (v_runPage (it_vcpu t));
     if internal_suberror run = KVM_INTERNAL_ERROR_EMULATION then do {
       (ok, cpuid', e1) \<leftarrow> optionally (\<lambda>c s. Some (CpuidHandler_handle K (it_vcpu t) c s)) (it_cpuid t) e;
       let t1 = t\<lparr>it_cpuid := cpuid'\<rparr>;
       if \<not> ok then Some (RR_Error, t1, e1) else publish_cpuid K t1 e1
     } else Some (RR_Error, t, e)
   }"

fun InstructionTrapper_dispatchExit ::
  "'k kernel \<Rightarrow> ExitReason \<Rightarrow> ('k, 'a) InstructionTrapper \<Rightarrow> ('k, 'a) env \<Rightarrow> ('k, 'a) outcome" where
  "InstructionTrapper_dispatchExit K ER_Hlt t e = dispatch_hlt K t e"
| "InstructionTrapper_dispatchExit K ER_Shutdown t e = dispatch_shutdown K t e"
| "InstructionTrapper_dispatchExit K ER_Io t e = dispatch_io K t e"
| "InstructionTrapper_dispatchExit K ER_Unknown t e = dispatch_unknown K t e"
| "InstructionTrapper_dispatchExit K ER_Intr t e = Some (RR_Continue, t, e)"
| "InstructionTrapper_dispatchExit K ER_Mmio t e = dispatch_mmio K t e"
| "InstructionTrapper_dispatchExit K ER_InternalError t e = dispatch_internal_error K t e"
| "InstructionTrapper_dispatchExit K _ t e = Some (RR_Continue, t, e)"

definition InstructionTrapper_step ::
  "'k kernel \<Rightarrow> ('k, 'a) InstructionTrapper \<Rightarrow> ('k, 'a) env \<Rightarrow> ('k, 'a) outcome" where
  "InstructionTrapper_step K t e = do {
     (exitResult, h1) \<leftarrow> VCpu_run K (it_vcpu t) (e_host e);
     let e1 = e\<lparr>e_host := h1\<rparr>;
     case exitResult of
       Inl _ \<Rightarrow> Some (RR_Error, t, e1)
     | Inr reason \<Rightarrow> InstructionTrapper_dispatchExit K reason (t\<lparr>it_exitCount := it_exitCount t + 1\<rparr>) e1
   }"

partial_function (option) run_iterations ::
  "'k kernel \<Rightarrow> u64 \<Rightarrow> u64 \<Rightarrow> ('k, 'a) InstructionTrapper \<Rightarrow> ('k, 'a) env \<Rightarrow> ('k, 'a) outcome" where
  "run_iterations K max_iterations iterations t e =
     (if max_iterations = 0 \<or> iterations < max_iterations then do {
        (result, t1, e1) \<leftarrow> InstructionTrapper_step K t e;
        if result \<noteq> RR_Continue then Some (result, t1, e1)
        else run_iterations K max_iterations (iterations + 1) t1 e1
      } else Some (RR_Continue, t, e))"

definition InstructionTrapper_runLoop ::
  "'k kernel \<Rightarrow> u64 \<Rightarrow> ('k, 'a) InstructionTrapper \<Rightarrow> ('k, 'a) env \<Rightarrow> ('k, 'a) outcome" where
  "InstructionTrapper_runLoop K max_iterations t e = run_iterations K max_iterations 0 t e"

section \<open>The run loop as a sequence of steps\<close>

text \<open>\<open>trap_steps K n c c'\<close>: \<open>n\<close> steps that each end in \<^const>\<open>RR_Continue\<close> lead from \<open>c\<close> to \<open>c'\<close>.\<close>

inductive trap_steps ::
  "'k kernel \<Rightarrow> nat \<Rightarrow> ('k, 'a) InstructionTrapper \<times> ('k, 'a) env \<Rightarrow>
     ('k, 'a) InstructionTrapper \<times> ('k, 'a) env \<Rightarrow> bool" for K where
  trap_steps_0: "trap_steps K 0 c c"
| trap_steps_Suc: "InstructionTrapper_step K t e = Some (RR_Continue, t1, e1) \<Longrightarrow>
     trap_steps K n (t1, e1) c \<Longrightarrow> trap_steps K (Suc n) (t, e) c"

inductive_cases trap_steps_0E: "trap_steps K 0 c c'"
inductive_cases trap_steps_SucE: "trap_steps K (Suc n) (t, e) c'"

text \<open>How a loop that has done \<open>i\<close> of \<open>lim\<close> iterations ends after \<open>n\<close> more continuing steps.\<close>

definition loop_ends ::
  "'k kernel \<Rightarrow> u64 \<Rightarrow> nat \<Rightarrow> nat \<Rightarrow> ('k, 'a) InstructionTrapper \<times> ('k, 'a) env \<Rightarrow>
     RunResult \<times> ('k, 'a) InstructionTrapper \<times> ('k, 'a) env \<Rightarrow> bool" where
  "loop_ends K lim i n c y \<longleftrightarrow>
     lim \<noteq> 0 \<and> i + n = unat lim \<and> y = (RR_Continue, c) \<or>
     (lim = 0 \<or> i + n < unat lim) \<and> InstructionTrapper_step K (fst c) (snd c) = Some y \<and> fst y \<noteq> RR_Continue"

lemma unat_next_iteration:
  assumes "lim = 0 \<or> i < (lim :: u64)"
  shows "lim \<noteq> 0 \<Longrightarrow> unat (i + 1) = Suc (unat i)"
    and "lim \<noteq> 0 \<Longrightarrow> i + 1 \<le> lim"
proof -
  assume "lim \<noteq> 0"
  with assms have lt: "unat i < unat lim" by (simp add: word_less_nat_alt)
  then have "unat i + 1 < 2 ^ 64" using unsigned_less [of lim, where ?'a = nat] by simp
  then show *: "unat (i + 1) = Suc (unat i)" by (simp add: unat_word_ariths)
  show "i + 1 \<le> lim" unfolding word_le_nat_alt * using lt by simp
qed

lemma run_iterations_sound_step:
  assumes IH: "\<And>K lim i t e y. f K lim i t e = Some y \<Longrightarrow> lim = 0 \<or> i \<le> lim \<Longrightarrow>
      \<exists>n c. trap_steps K n (t, e) c \<and> loop_ends K lim (unat i) n c y"
    and s: "InstructionTrapper_step K t e = Some (r, t1, e1)"
    and y: "(if r \<noteq> RR_Continue then Some (r, t1, e1) else f K lim (i + 1) t1 e1) = Some y"
    and go: "lim = 0 \<or> i < lim"
  shows "\<exists>n c. trap_steps K n (t, e) c \<and> loop_ends K lim (unat i) n c y"
proof (cases "r = RR_Continue")
  case False
  then show ?thesis using s y go
    by (intro exI [of _ 0] exI [of _ "(t, e)"]) (auto simp: loop_ends_def trap_steps_0 word_less_nat_alt)
next
  case cont: True
  then obtain n c where n: "trap_steps K n (t1, e1) c" "loop_ends K lim (unat (i + 1)) n c y"
    using y IH [of K lim "i + 1" t1 e1 y] unat_next_iteration(2) [OF go] by auto
  have "loop_ends K lim (unat i) (Suc n) c y"
  proof (cases "lim = 0")
    case True
    with n(2) show ?thesis by (simp add: loop_ends_def)
  next
    case False
    with n(2) show ?thesis using unat_next_iteration(1) [OF go] by (simp add: loop_ends_def)
  qed
  with trap_steps_Suc [OF s [unfolded cont] n(1)] show ?thesis by blast
qed

lemma run_iterations_sound:
  assumes "run_iterations K lim i t e = Some y" and "lim = 0 \<or> i \<le> lim"
  shows "\<exists>n c. trap_steps K n (t, e) c \<and> loop_ends K lim (unat i) n c y"
proof -
  have "lim = 0 \<or> i \<le> lim \<longrightarrow> (\<exists>n c. trap_steps K n (t, e) c \<and> loop_ends K lim (unat i) n c y)"
  proof (rule run_iterations.raw_induct [OF _ assms(1), where
        P = "\<lambda>K lim i t e y. lim = 0 \<or> i \<le> lim \<longrightarrow> (\<exists>n c. trap_steps K n (t, e) c \<and> loop_ends K lim (unat i) n c y)"],
      rule impI)
    fix f K lim i t e y
    assume IH: "\<And>K lim i t e y. f K lim i t e = Some y \<Longrightarrow>
        lim = 0 \<or> i \<le> lim \<longrightarrow> (\<exists>n c. trap_steps K n (t, e) c \<and> loop_ends K lim (unat i) n c y)"
      and body: "(if lim = 0 \<or> i < lim then InstructionTrapper_step K t e \<bind>
           (\<lambda>(result, t1, e1). if result \<noteq> RR_Continue then Some (result, t1, e1) else f K lim (i + 1) t1 e1)
         else Some (RR_Continue, t, e)) = Some y"
      and le: "lim = 0 \<or> i \<le> lim"
    show "\<exists>n c. trap_steps K n (t, e) c \<and> loop_ends K lim (unat i) n c y"
    proof (cases "lim = 0 \<or> i < lim")
      case False
      with body le have "y = (RR_Continue, t, e)" "lim \<noteq> 0" "i = lim" by auto
      then show ?thesis
        by (intro exI [of _ 0] exI [of _ "(t, e)"]) (simp add: loop_ends_def trap_steps_0)
    next
      case True
      with body obtain r t1 e1 where s: "InstructionTrapper_step K t e = Some (r, t1, e1)"
        and y: "(if r \<noteq> RR_Continue then Some (r, t1, e1) else f K lim (i + 1) t1 e1) = Some y"
        by (auto split: Option.bind_splits)
      show ?thesis by (rule run_iterations_sound_step [where f = f, OF IH [rule_format] s y True])
    qed
  qed
  with assms(2) show ?thesis by blast
qed

lemma run_iterations_complete:
  assumes "trap_steps K n (t, e) c" and "loop_ends K lim (unat i) n c y"
  shows "run_iterations K lim i t e = Some y"
  using assms
proof (induction n arbitrary: i t e)
  case 0
  from 0(1) have c: "c = (t, e)" by (rule trap_steps_0E) simp
  have "lim \<noteq> 0 \<and> i = lim \<and> y = (RR_Continue, t, e) \<or>
      (lim = 0 \<or> i < lim) \<and> InstructionTrapper_step K t e = Some y \<and> fst y \<noteq> RR_Continue"
    using 0(2) by (auto simp: c loop_ends_def word_less_nat_alt word_unat_eq_iff)
  then show ?case by (subst run_iterations.simps) (auto simp: split_beta)
next
  case (Suc n)
  from Suc.prems(1) obtain t1 e1 where s: "InstructionTrapper_step K t e = Some (RR_Continue, t1, e1)"
    and n: "trap_steps K n (t1, e1) c" by (rule trap_steps_SucE)
  have go: "lim = 0 \<or> i < lim"
    using Suc.prems(2) by (auto simp: loop_ends_def word_less_nat_alt)
  have "loop_ends K lim (unat (i + 1)) n c y"
  proof (cases "lim = 0")
    case True
    with Suc.prems(2) show ?thesis by (simp add: loop_ends_def)
  next
    case False
    with Suc.prems(2) show ?thesis using unat_next_iteration(1) [OF go] by (simp add: loop_ends_def)
  qed
  from Suc.IH [OF n this] s go show ?case by (subst run_iterations.simps) simp
qed

text \<open>C7: the run loop is its sequence of steps: it returns exactly when a number of continuing steps
  ends in a step with another result, which it returns, or, with a limit, when as many steps as the
  limit have continued, and then the result is \<^const>\<open>RR_Continue\<close>. A limit of 0 is no limit: the
  64-bit iteration counter may wrap around without an effect.\<close>

theorem runLoop_iff:
  "InstructionTrapper_runLoop K lim t e = Some (r, t', e') \<longleftrightarrow>
     (\<exists>n t1 e1. trap_steps K n (t, e) (t1, e1) \<and>
        (lim \<noteq> 0 \<and> n = unat lim \<and> (r, t', e') = (RR_Continue, t1, e1) \<or>
         (lim = 0 \<or> n < unat lim) \<and> InstructionTrapper_step K t1 e1 = Some (r, t', e') \<and> r \<noteq> RR_Continue))"
    (is "?loop \<longleftrightarrow> ?steps")
proof
  assume ?loop
  then have "run_iterations K lim 0 t e = Some (r, t', e')" by (simp add: InstructionTrapper_runLoop_def)
  from run_iterations_sound [OF this] obtain n c where
    "trap_steps K n (t, e) c" "loop_ends K lim 0 n c (r, t', e')" by auto
  then show ?steps by (cases c) (auto simp: loop_ends_def)
next
  assume ?steps
  then obtain n t1 e1 where "trap_steps K n (t, e) (t1, e1)" "loop_ends K lim (unat 0) n (t1, e1) (r, t', e')"
    by (auto simp: loop_ends_def)
  then show ?loop using run_iterations_complete by (fastforce simp: InstructionTrapper_runLoop_def)
qed

section \<open>Every step is defined\<close>

text \<open>
  Listeners that return where the page is ready and the application's invariant holds, and keep both;
  a trapper whose callbacks and listeners are of that kind.
\<close>

definition listeners_ok :: "'a app_inv \<Rightarrow> u64 \<Rightarrow> ('k, 'a) env EventDispatcher \<Rightarrow> bool" where
  "listeners_ok I p d \<longleftrightarrow>
     (\<forall>s \<in> set (d_subscriptions d). \<forall>ev e. env_ready I p e \<longrightarrow>
        (\<exists>e'. sub_handler s ev e = Some e' \<and> env_ready I p e'))"

definition trapper_safe :: "'a app_inv \<Rightarrow> 'k kernel \<Rightarrow> VCpu \<Rightarrow> ('k, 'a) InstructionTrapper \<Rightarrow> bool" where
  "trapper_safe I K v t \<longleftrightarrow> it_vcpu t = v \<and>
     pred_option (cpuid_quiet I K) (it_cpuid t) \<and> pred_option (io_quiet I) (it_io t) \<and>
     pred_option (mmio_quiet I) (it_mmio t) \<and> pred_option (listeners_ok I (v_runPage v)) (it_dispatch t)"

definition outcome_ok :: "'a app_inv \<Rightarrow> 'k kernel \<Rightarrow> VCpu \<Rightarrow> ('k, 'a) outcome \<Rightarrow> bool" where
  "outcome_ok I K v y \<longleftrightarrow> (\<exists>r t e. y = Some (r, t, e) \<and> trapper_safe I K v t \<and> env_ready I (v_runPage v) e)"

lemma outcome_ok_Some [simp]:
  "outcome_ok I K v (Some (r, t, e)) \<longleftrightarrow> trapper_safe I K v t \<and> env_ready I (v_runPage v) e"
  by (simp add: outcome_ok_def)

lemma trapper_safe_updates:
  assumes "trapper_safe I K v t"
  shows "pred_option (cpuid_quiet I K) c \<Longrightarrow> trapper_safe I K v (t\<lparr>it_cpuid := c\<rparr>)"
    and "pred_option (io_quiet I) i \<Longrightarrow> trapper_safe I K v (t\<lparr>it_io := i\<rparr>)"
    and "pred_option (mmio_quiet I) m \<Longrightarrow> trapper_safe I K v (t\<lparr>it_mmio := m\<rparr>)"
    and "pred_option (listeners_ok I (v_runPage v)) d \<Longrightarrow> trapper_safe I K v (t\<lparr>it_dispatch := d\<rparr>)"
    and "trapper_safe I K v (t\<lparr>it_exitCount := n\<rparr>)"
  using assms by (simp_all add: trapper_safe_def)

lemma deliver_returns:
  assumes "\<forall>s \<in> set subs. \<forall>ev e. env_ready I p e \<longrightarrow>
      (\<exists>e'. sub_handler s ev e = Some e' \<and> env_ready I p e')" and "env_ready I p e"
  shows "\<exists>e'. deliver subs ev e = Some e' \<and> env_ready I p e'"
  using deliver_keeps [where P = "env_ready I p", OF assms] .

lemma publish_and_return_ok:
  assumes "trapper_safe I K v t" and "it_dispatch t = Some d" and "env_ready I (v_runPage v) e"
  shows "outcome_ok I K v (publish_and_return r d ev t e)"
proof -
  have d: "listeners_ok I (v_runPage v) d" using assms(1,2) by (simp add: trapper_safe_def)
  from d obtain e' where "deliver (d_subscriptions d) ev e = Some e'" "env_ready I (v_runPage v) e'"
    using deliver_returns [OF _ assms(3)] unfolding listeners_ok_def by blast
  with d assms(1) show ?thesis
    by (simp add: publish_and_return_def EventDispatcher_publish_def trapper_safe_updates(4) listeners_ok_def)
qed

lemma clock_ready:
  assumes "clock_frame K" and "on_host (clock_now K) e = (now, e1)"
  shows "env_ready I p e1 = env_ready I p e" and "kregs K fd (e_host e1) = kregs K fd (e_host e)"
proof -
  note c = assms(1) [unfolded clock_frame_def, rule_format, OF on_hostD(1) [OF assms(2)]]
  show "env_ready I p e1 = env_ready I p e" using c on_hostD(2) [OF assms(2)] by (intro env_ready_cong) simp_all
  show "kregs K fd (e_host e1) = kregs K fd (e_host e)" using c by simp
qed

lemma getRegs_ready:
  assumes "reg_laws K" and "on_host (VCpu_getRegs K v) e = (rr, e1)"
  shows "env_ready I p e1 = env_ready I p e"
  using getRegs_kregs(2,3) [OF assms(1) on_hostD(1) [OF assms(2)]] on_hostD(2) [OF assms(2)]
  by (intro env_ready_cong) simp_all

lemma event_rip_ready:
  assumes "reg_laws K" and "event_rip K v ev e = (ev', e1)"
  shows "env_ready I p e1 = env_ready I p e"
proof -
  obtain rr e2 where g: "on_host (VCpu_getRegs K v) e = (rr, e2)" by fastforce
  with assms(2) have "e1 = e2" by (auto simp: event_rip_def split: sum.splits)
  with getRegs_ready [OF assms(1) g] show ?thesis by simp
qed

text \<open>An event stamped with the time and the instruction pointer, then published.\<close>

lemma stamped_publish_ok:
  assumes laws: "reg_laws K" "clock_frame K" and safe: "trapper_safe I K v t" "it_dispatch t = Some d"
    and page: "env_ready I (v_runPage v) e"
  shows "outcome_ok I K v (let (now, e1) = on_host (clock_now K) e; (ev', e2) = event_rip K v (ev now) e1
     in publish_and_return r d ev' t e2)"
proof -
  obtain now e1 where c: "on_host (clock_now K) e = (now, e1)" by fastforce
  obtain ev' e2 where i: "event_rip K v (ev now) e1 = (ev', e2)" by fastforce
  have "env_ready I (v_runPage v) e2"
    using page clock_ready(1) [OF laws(2) c] event_rip_ready [OF laws(1) i] by simp
  with publish_and_return_ok [OF safe, of e2 r ev'] show ?thesis by (simp add: c i)
qed

lemma dispatch_hlt_ok:
  assumes "reg_laws K" "clock_frame K" "trapper_safe I K v t" "env_ready I (v_runPage v) e"
  shows "outcome_ok I K v (dispatch_hlt K t e)"
proof (cases "it_dispatch t")
  case (Some d)
  moreover have "it_vcpu t = v" using assms(3) by (simp add: trapper_safe_def)
  ultimately show ?thesis using stamped_publish_ok [OF assms(1-3) Some assms(4)] by (simp add: dispatch_hlt_def)
qed (use assms in \<open>simp add: dispatch_hlt_def\<close>)

lemma dispatch_shutdown_ok:
  assumes "clock_frame K" "trapper_safe I K v t" "env_ready I (v_runPage v) e"
  shows "outcome_ok I K v (dispatch_shutdown K t e)"
proof (cases "it_dispatch t")
  case (Some d)
  obtain now e1 where c: "on_host (clock_now K) e = (now, e1)" by fastforce
  with assms(3) have "env_ready I (v_runPage v) e1" using clock_ready(1) [OF assms(1) c] by simp
  from publish_and_return_ok [OF assms(2) Some this] show ?thesis by (simp add: dispatch_shutdown_def Some c)
qed (use assms in \<open>simp add: dispatch_shutdown_def\<close>)

lemma publish_io_ok:
  assumes "reg_laws K" "clock_frame K" "trapper_safe I K v t" "env_ready I (v_runPage v) e"
  shows "outcome_ok I K v (publish_io K t e)"
proof (cases "it_dispatch t")
  case (Some d)
  have v: "it_vcpu t = v" using assms(3) by (simp add: trapper_safe_def)
  from assms(4) obtain run where run: "h_runs (e_host e) (v_runPage v) = Some run" "run_fits run"
    by (auto elim: env_ready_run)
  then obtain data where "load_at (run_bytes run) (unat (io_data_offset (run_io run))) (io_width run) = Some data"
    by (auto simp: load_at_def run_fits_def)
  with run v Some stamped_publish_ok [OF assms(1-3) Some assms(4)] show ?thesis
    by (simp add: publish_io_def io_width_def Let_def)
qed (use assms in \<open>simp add: publish_io_def\<close>)

lemma publish_mmio_ok:
  assumes "reg_laws K" "clock_frame K" "trapper_safe I K v t" "env_ready I (v_runPage v) e"
  shows "outcome_ok I K v (publish_mmio K t e)"
proof (cases "it_dispatch t")
  case (Some d)
  have v: "it_vcpu t = v" using assms(3) by (simp add: trapper_safe_def)
  from assms(4) obtain run where run: "h_runs (e_host e) (v_runPage v) = Some run" "run_wf run"
    by (auto simp: run_fits_def elim: env_ready_run)
  have "unat (min (ucast (mmio_len (run_mmio run))) 8 :: u8) \<le> 8"
    by (simp add: min_def word_le_nat_alt)
  with run(2) obtain data where "load_at (mmio_data (run_mmio run)) 0
      (unat (min (ucast (mmio_len (run_mmio run))) 8 :: u8)) = Some data"
    by (auto simp: load_at_def run_wf_def)
  with run v Some stamped_publish_ok [OF assms(1-3) Some assms(4)] show ?thesis
    by (simp add: publish_mmio_def Let_def)
qed (use assms in \<open>simp add: publish_mmio_def\<close>)

lemma publish_cpuid_ok:
  assumes "reg_laws K" "clock_frame K" "trapper_safe I K v t" "env_ready I (v_runPage v) e"
  shows "outcome_ok I K v (publish_cpuid K t e)"
proof (cases "it_dispatch t")
  case (Some d)
  have v: "it_vcpu t = v" using assms(3) by (simp add: trapper_safe_def)
  obtain rr e1 where g: "on_host (VCpu_getRegs K v) e = (rr, e1)" by fastforce
  have "env_ready I (v_runPage v) e1"
    using assms(4) getRegs_ready [OF assms(1) g] by simp
  from stamped_publish_ok [OF assms(1-3) Some this] show ?thesis
    by (simp add: publish_cpuid_def v Some g Let_def)
qed (use assms in \<open>simp add: publish_cpuid_def\<close>)

lemma dispatch_io_ok:
  assumes laws: "reg_laws K" "clock_frame K" and safe: "trapper_safe I K v t" and page: "env_ready I (v_runPage v) e"
  shows "outcome_ok I K v (dispatch_io K t e)"
proof -
  have v: "it_vcpu t = v" "pred_option (io_quiet I) (it_io t)" using safe by (simp_all add: trapper_safe_def)
  from io_exits.optionally_returns [OF v(2) page, of v] obtain ok io' e1 where
    o: "optionally (IoPortHandler_handle v (v_runPage v)) (it_io t) e = Some (ok, io', e1)"
    and io': "pred_option (io_quiet I) io'" and page1: "env_ready I (v_runPage v) e1" by blast
  from trapper_safe_updates(2) [OF safe io'] page1 publish_io_ok [OF laws _ page1]
  show ?thesis by (simp add: dispatch_io_def v o Let_def)
qed

lemma dispatch_mmio_ok:
  assumes laws: "reg_laws K" "clock_frame K" and safe: "trapper_safe I K v t" and page: "env_ready I (v_runPage v) e"
  shows "outcome_ok I K v (dispatch_mmio K t e)"
proof -
  have v: "it_vcpu t = v" "pred_option (mmio_quiet I) (it_mmio t)" using safe by (simp_all add: trapper_safe_def)
  from mmio_exits.optionally_returns [OF v(2) page] obtain ok mmio' e1 where
    o: "optionally (MmioHandler_handle (v_runPage v)) (it_mmio t) e = Some (ok, mmio', e1)"
    and mmio': "pred_option (mmio_quiet I) mmio'" and page1: "env_ready I (v_runPage v) e1" by blast
  from trapper_safe_updates(3) [OF safe mmio'] page1 publish_mmio_ok [OF laws _ page1]
  show ?thesis by (simp add: dispatch_mmio_def v o Let_def)
qed

lemma cpuid_optionally:
  assumes safe: "trapper_safe I K v t" and page: "env_ready I (v_runPage v) e"
  obtains ok cpuid' e1 where
    "optionally (\<lambda>c s. Some (CpuidHandler_handle K v c s)) (it_cpuid t) e = Some (ok, cpuid', e1)"
    and "trapper_safe I K v (t\<lparr>it_cpuid := cpuid'\<rparr>)" and "env_ready I (v_runPage v) e1"
proof -
  have "pred_option (cpuid_quiet I K) (it_cpuid t)" using safe by (simp add: trapper_safe_def)
  from cpuid_exits.optionally_returns [OF this page, of v] trapper_safe_updates(1) [OF safe] that
  show thesis by blast
qed

lemma dispatch_unknown_ok:
  assumes safe: "trapper_safe I K v t" and page: "env_ready I (v_runPage v) e"
  shows "outcome_ok I K v (dispatch_unknown K t e)"
proof -
  have v: "it_vcpu t = v" using safe by (simp add: trapper_safe_def)
  obtain run where run: "h_runs (e_host e) (v_runPage v) = Some run" using page by (auto elim: env_ready_run)
  obtain ok cpuid' e1 where
    "optionally (\<lambda>c s. Some (CpuidHandler_handle K v c s)) (it_cpuid t) e = Some (ok, cpuid', e1)"
    "trapper_safe I K v (t\<lparr>it_cpuid := cpuid'\<rparr>)" "env_ready I (v_runPage v) e1"
    by (rule cpuid_optionally [OF assms])
  with safe page show ?thesis by (simp add: dispatch_unknown_def v run Let_def)
qed

lemma dispatch_internal_error_ok:
  assumes laws: "reg_laws K" "clock_frame K" and safe: "trapper_safe I K v t" and page: "env_ready I (v_runPage v) e"
  shows "outcome_ok I K v (dispatch_internal_error K t e)"
proof -
  have v: "it_vcpu t = v" using safe by (simp add: trapper_safe_def)
  obtain run where run: "h_runs (e_host e) (v_runPage v) = Some run" using page by (auto elim: env_ready_run)
  obtain ok cpuid' e1 where
    o: "optionally (\<lambda>c s. Some (CpuidHandler_handle K v c s)) (it_cpuid t) e = Some (ok, cpuid', e1)"
    and t1: "trapper_safe I K v (t\<lparr>it_cpuid := cpuid'\<rparr>)" and page1: "env_ready I (v_runPage v) e1"
    by (rule cpuid_optionally [OF safe page])
  from publish_cpuid_ok [OF laws t1 page1] o t1 page1 safe page
  show ?thesis by (simp add: dispatch_internal_error_def v run Let_def)
qed

lemmas dispatch_ok = dispatch_hlt_ok dispatch_shutdown_ok dispatch_io_ok dispatch_unknown_ok
  dispatch_mmio_ok dispatch_internal_error_ok

lemma dispatchExit_ok:
  assumes "reg_laws K" "clock_frame K" "trapper_safe I K v t" "env_ready I (v_runPage v) e"
  shows "outcome_ok I K v (InstructionTrapper_dispatchExit K reason t e)"
  by (cases reason) (simp_all add: assms dispatch_ok)

lemma step_ok:
  assumes laws: "reg_laws K" "clock_frame K" "run_law K"
    and safe: "trapper_safe I K v t" and page: "env_ready I (v_runPage v) e"
  shows "outcome_ok I K v (InstructionTrapper_step K t e)"
proof -
  have v: "it_vcpu t = v" using safe by (simp add: trapper_safe_def)
  obtain rc h1 where io: "sys_ioctl K (v_fd v) KVM_RUN (e_host e) = (rc, h1)" by fastforce
  then have "heap_shape h1 = heap_shape (e_host e)" "page_ready (v_runPage v) (e_host e) \<longrightarrow> page_ready (v_runPage v) h1"
    using laws(3) [unfolded run_law_def, rule_format, OF io] by simp_all
  with page have page1: "env_ready I (v_runPage v) (e\<lparr>e_host := h1\<rparr>)" by (simp add: env_ready_def)
  then obtain run where "h_runs h1 (v_runPage v) = Some run" by (auto elim: env_ready_run)
  with dispatchExit_ok [OF laws(1,2) trapper_safe_updates(5) [OF safe] page1] safe page1 show ?thesis
    by (simp add: InstructionTrapper_step_def VCpu_run_def v io Let_def trapper_safe_updates(5))
qed

text \<open>As long as steps continue they can go on, so a number of steps is either reached or ends before.\<close>

lemma steps_or_end:
  assumes laws: "reg_laws K" "clock_frame K" "run_law K"
    and "trapper_safe I K v t" "env_ready I (v_runPage v) e"
  shows "(\<exists>c. trap_steps K n (t, e) c) \<or>
    (\<exists>m t1 e1 y. m < n \<and> trap_steps K m (t, e) (t1, e1) \<and> InstructionTrapper_step K t1 e1 = Some y \<and> fst y \<noteq> RR_Continue)"
  using assms(4,5)
proof (induction n arbitrary: t e)
  case 0
  show ?case using trap_steps_0 by blast
next
  case (Suc n)
  from step_ok [OF laws Suc.prems] obtain r t1 e1 where s: "InstructionTrapper_step K t e = Some (r, t1, e1)"
    and safe1: "trapper_safe I K v t1" and page1: "env_ready I (v_runPage v) e1"
    unfolding outcome_ok_def by blast
  show ?case
  proof (cases "r = RR_Continue")
    case True
    from Suc.IH [OF safe1 page1] trap_steps_Suc [OF s [unfolded True]] Suc_less_eq show ?thesis by metis
  next
    case False
    with s trap_steps_0 show ?thesis by (metis fst_conv zero_less_Suc)
  qed
qed

lemma steps_keep_safe:
  assumes "trap_steps K n c c'" and "reg_laws K" "clock_frame K" "run_law K"
    and "trapper_safe I K v (fst c)" "env_ready I (v_runPage v) (snd c)"
  shows "trapper_safe I K v (fst c') \<and> env_ready I (v_runPage v) (snd c')"
  using assms
proof (induction rule: trap_steps.induct)
  case (trap_steps_Suc t e t1 e1 n c)
  with step_ok [of K I v t e] show ?case by simp
qed simp

lemma limited_loop_returns:
  assumes laws: "reg_laws K" "clock_frame K" "run_law K" and lim: "max_iterations \<noteq> 0"
    and safe: "trapper_safe I K v t" and page: "env_ready I (v_runPage v) e"
  shows "\<exists>r t' e'. InstructionTrapper_runLoop K max_iterations t e = Some (r, t', e') \<and>
    trapper_safe I K v t' \<and> env_ready I (v_runPage v) e'"
proof -
  let ?n = "unat max_iterations"
  consider c where "trap_steps K ?n (t, e) c"
    | m t1 e1 y where "m < ?n" "trap_steps K m (t, e) (t1, e1)" "InstructionTrapper_step K t1 e1 = Some y" "fst y \<noteq> RR_Continue"
    using steps_or_end [OF laws safe page, of ?n] by blast
  then show ?thesis
  proof cases
    case 1
    then have "run_iterations K max_iterations 0 t e = Some (RR_Continue, c)"
      using lim by (intro run_iterations_complete) (simp_all add: loop_ends_def)
    with steps_keep_safe [OF 1 laws] safe page show ?thesis by (cases c) (simp add: InstructionTrapper_runLoop_def)
  next
    case 2
    then have "run_iterations K max_iterations 0 t e = Some y"
      by (intro run_iterations_complete [OF 2(2)]) (simp add: loop_ends_def)
    moreover have "outcome_ok I K v (Some y)"
      using steps_keep_safe [OF 2(2) laws] safe page step_ok [OF laws, of I v t1 e1] 2(3) by simp
    ultimately show ?thesis by (cases y) (simp add: InstructionTrapper_runLoop_def)
  qed
qed

text \<open>C5: with a nonzero limit the run loop always returns, whatever the guest does: when KVM leaves
  well-formed exits in the page, and callbacks and listeners return where an invariant of the
  application's objects and of the mappings holds, keep it and leave the page alone, then no step
  reads or writes outside the page, and the trapper and host that are left allow the loop to be
  entered again.\<close>

theorem runLoop_returns:
  assumes "reg_laws K" "clock_frame K" "run_law K" and "max_iterations \<noteq> 0"
    and "trapper_safe I K v t" and "env_ready I (v_runPage v) e"
  shows "\<exists>r t' e'. InstructionTrapper_runLoop K max_iterations t e = Some (r, t', e') \<and>
    trapper_safe I K v t' \<and> env_ready I (v_runPage v) e'"
  by (rule limited_loop_returns [OF assms])

section \<open>One event per exit\<close>

definition bump :: "'s EventDispatcher \<Rightarrow> 's EventDispatcher" where
  "bump d = d\<lparr>d_publishedCount := d_publishedCount d + 1\<rparr>"

lemma publish_and_returnD:
  "publish_and_return r d ev t e = Some (r', t', e') \<Longrightarrow> r' = r \<and> t' = t\<lparr>it_dispatch := Some (bump d)\<rparr>"
  by (auto simp: publish_and_return_def EventDispatcher_publish_def bump_def split: Option.bind_splits)

lemma publish_ioD:
  "publish_io K t e = Some (r, t', e') \<Longrightarrow> it_dispatch t = Some d \<Longrightarrow>
     r = RR_Continue \<and> t' = t\<lparr>it_dispatch := Some (bump d)\<rparr>"
  by (auto simp: publish_io_def Let_def split: Option.bind_splits prod.splits dest!: publish_and_returnD)

lemma publish_mmioD:
  "publish_mmio K t e = Some (r, t', e') \<Longrightarrow> it_dispatch t = Some d \<Longrightarrow>
     r = RR_Continue \<and> t' = t\<lparr>it_dispatch := Some (bump d)\<rparr>"
  by (auto simp: publish_mmio_def Let_def split: Option.bind_splits prod.splits dest!: publish_and_returnD)

lemma publish_cpuidD:
  "publish_cpuid K t e = Some (r, t', e') \<Longrightarrow> it_dispatch t = Some d \<Longrightarrow>
     r = RR_Continue \<and> t' = t\<lparr>it_dispatch := Some (bump d)\<rparr>"
  by (auto simp: publish_cpuid_def Let_def split: prod.splits dest!: publish_and_returnD)

text \<open>What a dispatch leaves of a trapper with dispatcher \<open>d\<close>.\<close>

definition dispatched ::
  "ExitReason \<Rightarrow> ('k, 'a) env EventDispatcher \<Rightarrow> ('k, 'a) InstructionTrapper \<Rightarrow> RunResult \<Rightarrow> ('k, 'a) InstructionTrapper \<Rightarrow> bool" where
  "dispatched reason d t r t' \<longleftrightarrow>
     it_dispatch t' = Some (if r \<noteq> RR_Error \<and> reason \<in> {ER_Hlt, ER_Shutdown, ER_Io, ER_Mmio, ER_InternalError}
       then bump d else d) \<and>
     (r = RR_Halt \<longleftrightarrow> reason = ER_Hlt) \<and> (r = RR_Shutdown \<longleftrightarrow> reason = ER_Shutdown) \<and>
     it_vcpu t' = it_vcpu t \<and> it_msr t' = it_msr t \<and> it_exitCount t' = it_exitCount t"

lemma dispatch_hltD:
  "dispatch_hlt K t e = Some (r, t', e') \<Longrightarrow> it_dispatch t = Some d \<Longrightarrow> dispatched ER_Hlt d t r t'"
  by (auto simp: dispatch_hlt_def dispatched_def Let_def split: prod.splits dest!: publish_and_returnD)

lemma dispatch_shutdownD:
  "dispatch_shutdown K t e = Some (r, t', e') \<Longrightarrow> it_dispatch t = Some d \<Longrightarrow> dispatched ER_Shutdown d t r t'"
  by (auto simp: dispatch_shutdown_def dispatched_def Let_def split: prod.splits dest!: publish_and_returnD)

lemma dispatch_ioD:
  "dispatch_io K t e = Some (r, t', e') \<Longrightarrow> it_dispatch t = Some d \<Longrightarrow> dispatched ER_Io d t r t'"
  by (auto simp: dispatch_io_def dispatched_def Let_def split: Option.bind_splits if_splits dest!: publish_ioD)

lemma dispatch_mmioD:
  "dispatch_mmio K t e = Some (r, t', e') \<Longrightarrow> it_dispatch t = Some d \<Longrightarrow> dispatched ER_Mmio d t r t'"
  by (auto simp: dispatch_mmio_def dispatched_def Let_def split: Option.bind_splits if_splits dest!: publish_mmioD)

lemma dispatch_unknownD:
  "dispatch_unknown K t e = Some (r, t', e') \<Longrightarrow> it_dispatch t = Some d \<Longrightarrow> dispatched ER_Unknown d t r t'"
  by (auto simp: dispatch_unknown_def dispatched_def Let_def split: Option.bind_splits if_splits)

lemma dispatch_internal_errorD:
  "dispatch_internal_error K t e = Some (r, t', e') \<Longrightarrow> it_dispatch t = Some d \<Longrightarrow> dispatched ER_InternalError d t r t'"
  by (auto simp: dispatch_internal_error_def dispatched_def Let_def split: Option.bind_splits if_splits
      dest!: publish_cpuidD)

lemmas dispatchD = dispatch_hltD dispatch_shutdownD dispatch_ioD dispatch_mmioD dispatch_unknownD
  dispatch_internal_errorD

lemma dispatchExitD:
  assumes "InstructionTrapper_dispatchExit K reason t e = Some (r, t', e')" and "it_dispatch t = Some d"
  shows "dispatched reason d t r t'"
  using assms by (cases reason) (auto dest: dispatchD simp: dispatched_def)

text \<open>Running the guest changes nothing of the dispatcher but its count.\<close>

lemma step_dispatch:
  assumes "InstructionTrapper_step K t e = Some (r, t', e')" and "it_dispatch t = Some d"
  shows "\<exists>n. it_dispatch t' = Some (d\<lparr>d_publishedCount := n\<rparr>)"
proof -
  have same: "\<exists>n. d = d\<lparr>d_publishedCount := n\<rparr>" by (intro exI [of _ "d_publishedCount d"]) simp
  from assms(1) consider "it_dispatch t' = it_dispatch t"
    | reason e1 where "InstructionTrapper_dispatchExit K reason (t\<lparr>it_exitCount := it_exitCount t + 1\<rparr>) e1 = Some (r, t', e')"
    by (auto simp: InstructionTrapper_step_def Let_def split: Option.bind_splits sum.splits)
  then show ?thesis
  proof cases
    case 1
    with assms(2) same show ?thesis by (metis option.inject)
  next
    case 2
    with assms(2) have "dispatched reason d (t\<lparr>it_exitCount := it_exitCount t + 1\<rparr>) r t'" by (auto dest: dispatchExitD)
    then show ?thesis using same by (auto simp: dispatched_def bump_def split: if_splits)
  qed
qed

lemma steps_dispatch:
  assumes "trap_steps K n c c'" and "it_dispatch (fst c) = Some d"
  shows "\<exists>m. it_dispatch (fst c') = Some (d\<lparr>d_publishedCount := m\<rparr>)"
  using assms
proof (induction arbitrary: d rule: trap_steps.induct)
  case (trap_steps_0 c)
  then show ?case by (intro exI [of _ "d_publishedCount d"]) simp
next
  case (trap_steps_Suc t e t1 e1 n c)
  then obtain m where "it_dispatch t1 = Some (d\<lparr>d_publishedCount := m\<rparr>)" using step_dispatch by fastforce
  with trap_steps_Suc.IH show ?case by fastforce
qed

lemma runLoop_dispatch:
  assumes "InstructionTrapper_runLoop K lim t e = Some (r, t', e')" and "it_dispatch t = Some d"
  shows "\<exists>m. it_dispatch t' = Some (d\<lparr>d_publishedCount := m\<rparr>)"
proof -
  obtain n t1 e1 where n: "trap_steps K n (t, e) (t1, e1)" and ends: "loop_ends K lim 0 n (t1, e1) (r, t', e')"
    using run_iterations_sound [OF assms(1) [unfolded InstructionTrapper_runLoop_def]] by auto
  obtain m where m: "it_dispatch t1 = Some (d\<lparr>d_publishedCount := m\<rparr>)" using steps_dispatch [OF n] assms(2) by auto
  from ends consider "t' = t1" | "InstructionTrapper_step K t1 e1 = Some (r, t', e')" by (auto simp: loop_ends_def)
  then show ?thesis
  proof cases
    case 2
    from step_dispatch [OF this m] show ?thesis by simp
  qed (use m in blast)
qed


section \<open>What the listeners are told\<close>

lemma event_rip_eq:
  assumes "reg_laws K" and "kregs K (v_fd v) (e_host e) = Some regs" and "event_rip K v ev e = (ev', e1)"
  shows "ev' = ev\<lparr>ev_rip := rip regs\<rparr>"
proof -
  obtain rr e2 where g: "on_host (VCpu_getRegs K v) e = (rr, e2)" by fastforce
  with getRegs_kregs(1) [OF assms(1) on_hostD(1) [OF g]] assms(2) have "rr = Inr regs"
    by (auto split: sum.splits)
  with g assms(3) show ?thesis by (simp add: event_rip_def)
qed

lemma publish_and_return_published:
  "publish_and_return r d ev t e = Some (r', t', e') \<Longrightarrow> EventDispatcher_publish d ev e = Some (bump d, e')"
  by (auto simp: publish_and_return_def EventDispatcher_publish_def bump_def split: Option.bind_splits)

lemma publish_cpuid_event:
  assumes laws: "reg_laws K" "clock_frame K" and regs: "kregs K (v_fd (it_vcpu t)) (e_host e) = Some regs"
    and d: "it_dispatch t = Some d" and p: "publish_cpuid K t e = Some (r, t', e')"
  shows "\<exists>now e2. EventDispatcher_publish d \<lparr>ev_type = ET_CpuidAccess, ev_vcpu_id = v_id (it_vcpu t),
      ev_rip = rip regs, ev_timestamp = now, ev_payload = PL_Cpuid \<lparr>cpe_leaf = ucast (rax regs),
        cpe_subleaf = ucast (rcx regs), cpe_eax = ucast (rax regs), cpe_ebx = ucast (rbx regs),
        cpe_ecx = ucast (rcx regs), cpe_edx = ucast (rdx regs)\<rparr>\<rparr> e2 = Some (bump d, e')"
proof -
  obtain rr e1 where g: "on_host (VCpu_getRegs K (it_vcpu t)) e = (rr, e1)" by fastforce
  note g1 = getRegs_kregs [OF laws(1) on_hostD(1) [OF g]]
  have rr: "rr = Inr regs" using g1(1) regs by (auto split: sum.splits)
  obtain now e2 where c: "on_host (clock_now K) e1 = (now, e2)" by fastforce
  have "kregs K (v_fd (it_vcpu t)) (e_host e2) = Some regs"
    using regs g1(4) clock_ready(2) [OF laws(2) c] by simp
  note rip = event_rip_eq [OF laws(1) this]
  let ?c = "\<lparr>cpe_leaf = ucast (rax regs), cpe_subleaf = ucast (rcx regs), cpe_eax = ucast (rax regs),
    cpe_ebx = ucast (rbx regs), cpe_ecx = ucast (rcx regs), cpe_edx = ucast (rdx regs)\<rparr>"
  obtain ev e3 where i: "event_rip K (it_vcpu t) \<lparr>ev_type = ET_CpuidAccess, ev_vcpu_id = v_id (it_vcpu t),
      ev_rip = 0, ev_timestamp = now, ev_payload = PL_Cpuid ?c\<rparr> e2 = (ev, e3)" by fastforce
  have "publish_and_return RR_Continue d ev t e3 = Some (r, t', e')"
    using p by (simp add: publish_cpuid_def d g rr c Let_def HvEvent0_def i)
  then have "EventDispatcher_publish d ev e3 = Some (bump d, e')" by (rule publish_and_return_published)
  with rip [OF i] show ?thesis by auto
qed

text \<open>C36: the event for an emulated CPUID carries the four answers, but its leaf and subleaf are read
  after the answers were injected: they are the answer's EAX and ECX again, not what the guest asked
  for. The instruction pointer is the one before handling.\<close>

theorem cpuid_event_leaf:
  assumes laws: "reg_laws K" "errno_law K" "clock_frame K"
    and regs: "kregs K (v_fd (it_vcpu t)) (e_host e) = Some regs" "bit (rflags regs) 1"
    and page: "h_runs (e_host e) (v_runPage (it_vcpu t)) = Some run"
      "internal_suberror run = KVM_INTERNAL_ERROR_EMULATION"
    and t: "it_cpuid t = Some c" "it_dispatch t = Some d"
    and step: "InstructionTrapper_dispatchExit K ER_InternalError t e = Some (RR_Continue, t', e')"
  shows "\<exists>e0 result ev e2. e_app e0 = e_app e \<and> result = fst (cpuid_answer K c regs e0) \<and>
     EventDispatcher_publish d ev e2 = Some (d\<lparr>d_publishedCount := d_publishedCount d + 1\<rparr>, e') \<and>
     ev_type ev = ET_CpuidAccess \<and> ev_rip ev = rip regs \<and>
     ev_payload ev = PL_Cpuid \<lparr>cpe_leaf = lr_eax result, cpe_subleaf = lr_ecx result, cpe_eax = lr_eax result,
       cpe_ebx = lr_ebx result, cpe_ecx = lr_ecx result, cpe_edx = lr_edx result\<rparr>"
proof -
  obtain ok c' e1 where h: "CpuidHandler_handle K (it_vcpu t) c e = (ok, c', e1)"
    by (cases "CpuidHandler_handle K (it_vcpu t) c e") auto
  have ok: ok and p: "publish_cpuid K (t\<lparr>it_cpuid := Some c'\<rparr>) e1 = Some (RR_Continue, t', e')"
    using step page t(1) h by (auto simp: dispatch_internal_error_def optionally_def Let_def split: if_splits)
  from cpuid_handle_success [OF laws(1,2) regs, of c c' e1] h ok obtain e0 where app: "e_app e0 = e_app e"
    and r1: "kregs K (v_fd (it_vcpu t)) (e_host e1) = Some (with_leaf (fst (cpuid_answer K c regs e0)) regs)" by auto
  let ?a = "fst (cpuid_answer K c regs e0)"
  have "kregs K (v_fd (it_vcpu (t\<lparr>it_cpuid := Some c'\<rparr>))) (e_host e1) = Some (with_leaf ?a regs)"
    and "it_dispatch (t\<lparr>it_cpuid := Some c'\<rparr>) = Some d" using r1 t(2) by simp_all
  note published = publish_cpuid_event [OF laws(1,3) this p]
  let ?ev = "\<lambda>now. \<lparr>ev_type = ET_CpuidAccess, ev_vcpu_id = v_id (it_vcpu t), ev_rip = rip regs,
       ev_timestamp = now, ev_payload = PL_Cpuid \<lparr>cpe_leaf = lr_eax ?a, cpe_subleaf = lr_ecx ?a, cpe_eax = lr_eax ?a,
         cpe_ebx = lr_ebx ?a, cpe_ecx = lr_ecx ?a, cpe_edx = lr_edx ?a\<rparr>\<rparr>"
  from published obtain now e2 where "EventDispatcher_publish d (?ev now) e2 = Some (bump d, e')"
    by (auto simp: with_leaf_def u32_in_u64)
  with app show ?thesis
    by (intro exI [of _ e0] exI [of _ ?a] exI [of _ "?ev now"] exI [of _ e2]) (simp add: bump_def)
qed

text \<open>The event for an IN that its handler answered carries the value the guest receives, the
  answer cut down to the size of the access.\<close>

theorem io_read_event_value:
  assumes laws: "reg_laws K" "clock_frame K"
    and page: "h_runs (e_host e) (v_runPage (it_vcpu t)) = Some run" "run_fits run"
      "io_direction (run_io run) \<noteq> KVM_EXIT_IO_OUT"
    and t: "it_io t = Some io" "it_dispatch t = Some d"
    and answer: "iph_inCallbacks io (io_port (run_io run)) = Some cb"
      "cb \<lparr>ic_port = io_port (run_io run), ic_size = io_size (run_io run), ic_count = io_count (run_io run)\<rparr> e = (result, e1)"
      "h_runs (e_host e1) (v_runPage (it_vcpu t)) = Some run"
    and step: "InstructionTrapper_dispatchExit K ER_Io t e = Some (r, t', e')"
  shows "\<exists>ev e2. EventDispatcher_publish d ev e2 = Some (d\<lparr>d_publishedCount := d_publishedCount d + 1\<rparr>, e') \<and>
     ev_type ev = ET_IoRead \<and>
     ev_payload ev = PL_Io \<lparr>ioe_port = io_port (run_io run), ioe_size = io_size (run_io run),
       ioe_value = take_bit (8 * io_width run) result, ioe_isWrite = False\<rparr>"
proof -
  let ?p = "v_runPage (it_vcpu t)" and ?off = "unat (io_data_offset (run_io run))" and ?n = "io_width run"
  have ans: "in_answer io run e = (result, e1)" using answer by simp
  from io_in_eq [OF page ans answer(3), of "it_vcpu t"] obtain bytes where
    st: "store_at (run_bytes run) ?off (le_bytes ?n result) = Some bytes"
    and h: "IoPortHandler_handle (it_vcpu t) ?p io e =
      Some (True, io\<lparr>iph_inCount := iph_inCount io + 1\<rparr>, set_run ?p (run\<lparr>run_bytes := bytes\<rparr>) e1)" by blast
  let ?e2 = "set_run ?p (run\<lparr>run_bytes := bytes\<rparr>) e1"
  have ld: "load_at bytes ?off ?n = Some (le_bytes ?n result)"
    using blk.ld_st_same [OF st] by simp
  have v: "(le_word (memcpy (le_bytes 4 (0 :: u32)) (le_bytes ?n result) ?n) :: u32) = take_bit (8 * ?n) result"
    using io_width_le [of run] by (subst le_word_take_zero) (simp_all add: le_word_bytes)
  obtain now e3 where c: "on_host (clock_now K) ?e2 = (now, e3)" by fastforce
  let ?ev = "\<lambda>ip. \<lparr>ev_type = ET_IoRead, ev_vcpu_id = v_id (it_vcpu t), ev_rip = ip, ev_timestamp = now,
    ev_payload = PL_Io \<lparr>ioe_port = io_port (run_io run), ioe_size = io_size (run_io run),
       ioe_value = take_bit (8 * ?n) result, ioe_isWrite = False\<rparr>\<rparr>"
  obtain ev e4 where i: "event_rip K (it_vcpu t) (?ev 0) e3 = (ev, e4)" by fastforce
  then obtain ip where ev: "ev = ?ev ip"
    by (auto simp: event_rip_def split: prod.splits sum.splits)
  let ?t1 = "t\<lparr>it_io := Some (io\<lparr>iph_inCount := iph_inCount io + 1\<rparr>)\<rparr>"
  have "publish_and_return RR_Continue d ev ?t1 e4 = Some (r, t', e')"
    using step page(3) by (simp add: dispatch_io_def publish_io_def optionally_def t h ld [unfolded io_width_def]
        v [unfolded io_width_def] c i [unfolded io_width_def] HvEvent0_def Let_def)
  then have "EventDispatcher_publish d (?ev ip) e4 = Some (bump d, e')"
    unfolding ev by (rule publish_and_return_published)
  then show ?thesis by (intro exI [of _ "?ev ip"] exI [of _ e4]) (simp add: bump_def)
qed

text \<open>MSR exits (\<^verbatim>\<open>KVM_EXIT_X86_RDMSR\<close> 29 and \<^verbatim>\<open>KVM_EXIT_X86_WRMSR\<close> 30) have no case in the trapper:
  a step counts them and re-enters the guest, whatever MSR callbacks are registered; no register,
  page, handler or listener is touched.\<close>

theorem msr_exits_ignored:
  assumes "sys_ioctl K (v_fd (it_vcpu t)) KVM_RUN (e_host e) = (rc, h1)" and "0 \<le> rc"
    and "h_runs h1 (v_runPage (it_vcpu t)) = Some run" and "exit_reason run \<in> {29, 30}"
  shows "InstructionTrapper_step K t e =
    Some (RR_Continue, t\<lparr>it_exitCount := it_exitCount t + 1\<rparr>, e\<lparr>e_host := h1\<rparr>)"
proof -
  obtain n where "exit_reason_of (exit_reason run) = ER_Unnamed n"
    using assms(4) by (auto simp: exit_reason_of_def exit_reason_table_def)
  with assms show ?thesis by (simp add: InstructionTrapper_step_def VCpu_run_def)
qed

section \<open>A concrete trapper\<close>

text \<open>Every handler present, one listener that logs the events, a port that answers 65, a CPUID leaf.\<close>

definition demo_dispatcher :: "(sim, HvEvent list) env EventDispatcher" where
  "demo_dispatcher = snd (EventDispatcher_subscribeAll (\<lambda>ev e. Some (e\<lparr>e_app := ev # e_app e\<rparr>)) EventDispatcher0)"

definition demo_trapper :: "(sim, HvEvent list) InstructionTrapper" where
  "demo_trapper = InstructionTrapper_new demo_vcpu
     (Some (CpuidHandler_registerLeaf 0 (\<lambda>l s e. (\<lparr>lr_eax = 1, lr_ebx = 2, lr_ecx = 3, lr_edx = 4\<rparr>, e)) CpuidHandler0))
     (Some (IoPortHandler_registerInPort 0x3F8 (\<lambda>c e. (65, e)) IoPortHandler0))
     None (Some MmioHandler0) (Some demo_dispatcher)"

lemmas demo_trapper_defs = demo_trapper_def InstructionTrapper_new_def demo_dispatcher_def
  CpuidHandler_registerLeaf_def IoPortHandler_registerInPort_def CpuidHandler0_def IoPortHandler0_def
  MmioHandler0_def EventDispatcher0_def EventDispatcher_subscribeAll_def Let_def

lemma demo_trapper_safe: "trapper_safe (\<lambda>_ _. True) sim_kernel demo_vcpu demo_trapper"
  by (auto simp: trapper_safe_def demo_trapper_defs cpuid_quiet_def io_quiet_def mmio_quiet_def keeps_ready_def
      listeners_ok_def env_ready_def split: if_splits)

definition demo_run :: "(kvm_run \<times> kvm_regs) list \<Rightarrow> (sim, HvEvent list) env" where
  "demo_run exits = \<lparr>e_host = demo_host exits, e_app = []\<rparr>"

lemma demo_run_ready: "env_ready (\<lambda>_ _. True) (v_runPage demo_vcpu) (demo_run exits)"
  by (simp add: env_ready_def page_ready_def demo_run_def demo_host_def demo_vcpu_def run_fits_def io_width_def) (simp add: kvm_run0_def)

theorem runLoop_returns_witness:
  "\<exists>r t' e'. InstructionTrapper_runLoop sim_kernel 10 demo_trapper
       (demo_run [(demo_io_run 0, kvm_regs0), (kvm_run0\<lparr>exit_reason := 5\<rparr>, kvm_regs0)]) = Some (r, t', e') \<and>
     trapper_safe (\<lambda>_ _. True) sim_kernel demo_vcpu t' \<and> env_ready (\<lambda>_ _. True) 0x20000000 e'"
  using runLoop_returns [OF sim_reg_laws sim_clock_frame sim_run_law _ demo_trapper_safe demo_run_ready,
      of 10 "[(demo_io_run 0, kvm_regs0), (kvm_run0\<lparr>exit_reason := 5\<rparr>, kvm_regs0)]"]
  by (simp add: demo_vcpu_def)

lemmas demo_step_defs = demo_trapper_defs demo_vcpu_def demo_env_def demo_host_defs on_host_def VCpu_getRegs_def
  VCpu_setRegs_def event_rip_def publish_and_return_def EventDispatcher_publish_def sim_ioctl_def


theorem cpuid_event_leaf_witness:
  "\<exists>t' e' ev e2. InstructionTrapper_dispatchExit sim_kernel ER_InternalError demo_trapper
       (demo_env (kvm_run0\<lparr>internal_suberror := 1\<rparr>) []) = Some (RR_Continue, t', e') \<and>
     map_option snd (EventDispatcher_publish demo_dispatcher ev e2) = Some e' \<and>
     ev_payload ev = PL_Cpuid \<lparr>cpe_leaf = 1, cpe_subleaf = 3, cpe_eax = 1, cpe_ebx = 2, cpe_ecx = 3, cpe_edx = 4\<rparr>"
proof -
  let ?run = "kvm_run0\<lparr>internal_suberror := 1\<rparr>" and ?e = "demo_env (kvm_run0\<lparr>internal_suberror := 1\<rparr>) []"
  let ?c = "CpuidHandler_registerLeaf 0 (\<lambda>l s e. (\<lparr>lr_eax = 1, lr_ebx = 2, lr_ecx = 3, lr_edx = 4\<rparr>, e)) CpuidHandler0
    :: (sim, HvEvent list) CpuidHandler"
  have t: "it_vcpu demo_trapper = demo_vcpu" "it_cpuid demo_trapper = Some ?c" "it_dispatch demo_trapper = Some demo_dispatcher"
    by (simp_all add: demo_trapper_def InstructionTrapper_new_def)
  have page: "h_runs (e_host ?e) (v_runPage (it_vcpu demo_trapper)) = Some ?run"
    "internal_suberror ?run = KVM_INTERNAL_ERROR_EMULATION"
    by (simp_all add: t demo_env_def demo_vcpu_def KVM_INTERNAL_ERROR_EMULATION_def)
  have regs: "kregs sim_kernel (v_fd (it_vcpu demo_trapper)) (e_host ?e) = Some (kvm_regs0\<lparr>rflags := 2\<rparr>)"
    "bit (rflags (kvm_regs0\<lparr>rflags := 2\<rparr>)) 1" by (simp_all add: t bit_iff_odd)
  have "cpuid_answer sim_kernel ?c (kvm_regs0\<lparr>rflags := 2\<rparr>) e0 =
      (\<lparr>lr_eax = 1, lr_ebx = 2, lr_ecx = 3, lr_edx = 4\<rparr>, e0)" for e0
    by (simp add: cpuid_answer_def CpuidHandler_registerLeaf_def kvm_regs0_def)
  moreover obtain t' e' where s: "InstructionTrapper_dispatchExit sim_kernel ER_InternalError demo_trapper ?e = Some (RR_Continue, t', e')"
    by (simp add: dispatch_internal_error_def publish_cpuid_def demo_step_defs optionally_def KVM_INTERNAL_ERROR_EMULATION_def
        CpuidHandler_handle_def kvm_regs0_def)
  ultimately show ?thesis
    using cpuid_event_leaf [OF sim_reg_laws sim_errno_law sim_clock_frame regs page t(2,3) s] s by fastforce
qed

theorem io_read_event_value_witness:
  "\<exists>r t' e' ev e2. InstructionTrapper_dispatchExit sim_kernel ER_Io demo_trapper (demo_env (demo_io_run 0) []) = Some (r, t', e') \<and>
     map_option snd (EventDispatcher_publish demo_dispatcher ev e2) = Some e' \<and>
     ev_payload ev = PL_Io \<lparr>ioe_port = 0x3F8, ioe_size = 1, ioe_value = 65, ioe_isWrite = False\<rparr>"
proof -
  let ?run = "demo_io_run 0" and ?e = "demo_env (demo_io_run 0) [] :: (sim, HvEvent list) env"
  let ?io = "IoPortHandler_registerInPort 0x3F8 (\<lambda>c e. (65, e)) IoPortHandler0 :: (sim, HvEvent list) IoPortHandler"
  have t: "it_vcpu demo_trapper = demo_vcpu" "it_io demo_trapper = Some ?io" "it_dispatch demo_trapper = Some demo_dispatcher"
    by (simp_all add: demo_trapper_def InstructionTrapper_new_def)
  have page: "h_runs (e_host ?e) (v_runPage (it_vcpu demo_trapper)) = Some ?run" "run_fits ?run"
    "io_direction (run_io ?run) \<noteq> KVM_EXIT_IO_OUT"
    by (simp_all add: t demo_vcpu_def demo_env_defs)
  have cb: "iph_inCallbacks ?io (io_port (run_io ?run)) = Some (\<lambda>c e. (65, e))"
    by (simp add: IoPortHandler_registerInPort_def demo_io_run_def)
  obtain r t' e' where s: "InstructionTrapper_dispatchExit sim_kernel ER_Io demo_trapper ?e = Some (r, t', e')"
    using dispatchExit_ok [OF sim_reg_laws sim_clock_frame demo_trapper_safe, of ?e ER_Io] page(1,2)
    unfolding outcome_ok_def t by (auto simp: env_ready_def page_ready_def)
  have "io_port (run_io ?run) = 0x3F8" "io_size (run_io ?run) = 1" "io_width ?run = 1"
    by (simp_all add: demo_io_run_def io_width_def)
  with io_read_event_value [OF sim_reg_laws sim_clock_frame page t(2,3) cb refl page(1) s] s show ?thesis
    by fastforce
qed

theorem msr_exits_ignored_witness:
  "\<exists>h1. InstructionTrapper_step sim_kernel demo_trapper (demo_run [(kvm_run0\<lparr>exit_reason := 29\<rparr>, kvm_regs0)]) =
     Some (RR_Continue, demo_trapper\<lparr>it_exitCount := 1\<rparr>,
       (demo_run [(kvm_run0\<lparr>exit_reason := 29\<rparr>, kvm_regs0)])\<lparr>e_host := h1\<rparr>)"
proof -
  let ?e = "demo_run [(kvm_run0\<lparr>exit_reason := 29\<rparr>, kvm_regs0)]"
  have "run_fits (kvm_run0\<lparr>exit_reason := 29\<rparr>)" by (simp add: run_fits_def run_wf_def io_width_def kvm_run0_def)
  then obtain h1 where "sys_ioctl sim_kernel (v_fd (it_vcpu demo_trapper)) KVM_RUN (e_host ?e) = (0, h1)"
    and "h_runs h1 (v_runPage (it_vcpu demo_trapper)) = Some (kvm_run0\<lparr>exit_reason := 29\<rparr>)"
    by (simp add: demo_run_def demo_trapper_defs demo_vcpu_def demo_host_defs sim_ioctl_def)
  from msr_exits_ignored [OF this(1) _ this(2)] show ?thesis
    by (intro exI [of _ h1]) (simp add: demo_trapper_def InstructionTrapper_new_def)
qed

end
