(* ===== verification/Guest_Loader.thy ===== *)
theory Guest_Loader
  imports Virtual_Machine
begin

text \<open>
  \<^verbatim>\<open>class GuestLoader\<close> (include/hv/GuestLoader.h, src/GuestLoader.cpp): guest memory, the vCPU's initial
  registers in real and long mode, the identity page tables. Storing through the raw table pointers
  is defined inside the region's mapping only.
\<close>

section \<open>Model\<close>

datatype GuestLoadMode = GLM_FlatBinary | GLM_RealMode16

record GuestLoadParams =
  gl_imagePath :: string
  gl_mode :: GuestLoadMode
  gl_loadAddress :: u64
  gl_entryPoint :: u64
  gl_memorySize :: u64

definition setupSeg :: "u16 \<Rightarrow> kvm_segment \<Rightarrow> kvm_segment" where
  "setupSeg selector seg = seg\<lparr>seg_selector := selector, seg_base := push_bit 4 (ucast selector),
     seg_limit := 0xFFFF, seg_type := 3, seg_present := 1, seg_dpl := 0, seg_db := 0, seg_s := 1,
     seg_l := 0, seg_g := 0\<rparr>"

definition GuestLoader_setupRealModeVCpu ::
  "'k kernel \<Rightarrow> VCpu \<Rightarrow> u16 \<Rightarrow> 'k host \<Rightarrow> error_code \<times> 'k host" where
  "GuestLoader_setupRealModeVCpu K vcpu entry_ip h =
     (let (sregsResult, h1) = VCpu_getSregs K vcpu h in
      case sregsResult of
        Inl ec \<Rightarrow> (ec, h1)
      | Inr s \<Rightarrow>
          let sregs = s\<lparr>sr_cs := setupSeg 0 (sr_cs s), sr_ds := setupSeg 0 (sr_ds s), sr_es := setupSeg 0 (sr_es s),
                sr_fs := setupSeg 0 (sr_fs s), sr_gs := setupSeg 0 (sr_gs s), sr_ss := setupSeg 0 (sr_ss s),
                sr_cr0 := sr_cr0 s AND NOT 1\<rparr>;
              (ec, h2) = VCpu_setSregs K vcpu sregs h1
          in if ec \<noteq> ok_code then (ec, h2)
             else VCpu_setRegs K vcpu (kvm_regs0\<lparr>rip := ucast entry_ip, rsp := 0xFFF0, rflags := 0x0002\<rparr>) h2)"

definition cs_seg :: kvm_segment where
  "cs_seg = kvm_segment0\<lparr>seg_selector := 0x08, seg_base := 0, seg_limit := 0xFFFFFFFF, seg_type := 11,
     seg_present := 1, seg_l := 1, seg_db := 0, seg_s := 1, seg_g := 1\<rparr>"

definition ds_seg :: kvm_segment where
  "ds_seg = kvm_segment0\<lparr>seg_selector := 0x10, seg_base := 0, seg_limit := 0xFFFFFFFF, seg_type := 3,
     seg_present := 1, seg_db := 1, seg_s := 1, seg_g := 1\<rparr>"

definition GuestLoader_setup64BitVCpu ::
  "'k kernel \<Rightarrow> VCpu \<Rightarrow> u64 \<Rightarrow> u64 \<Rightarrow> 'k host \<Rightarrow> error_code \<times> 'k host" where
  "GuestLoader_setup64BitVCpu K vcpu ip cr3 h =
     (let (sregsResult, h1) = VCpu_getSregs K vcpu h in
      case sregsResult of
        Inl ec \<Rightarrow> (ec, h1)
      | Inr s \<Rightarrow>
          let sregs = s\<lparr>sr_cs := cs_seg, sr_ds := ds_seg, sr_es := ds_seg, sr_fs := ds_seg, sr_gs := ds_seg,
                sr_ss := ds_seg, sr_cr0 := 0x80050033, sr_cr3 := cr3, sr_cr4 := 0x20, sr_efer := 0x500\<rparr>;
              (ec, h2) = VCpu_setSregs K vcpu sregs h1
          in if ec \<noteq> ok_code then (ec, h2)
             else VCpu_setRegs K vcpu (kvm_regs0\<lparr>rip := ip, rsp := 0x200000, rflags := 0x0002\<rparr>) h2)"

text \<open>\<open>pd[i] = (i << 21) | 0x83\<close> for the \<open>n\<close> indices from \<open>i\<close> on.\<close>

fun fill_pd :: "u64 \<Rightarrow> nat \<Rightarrow> nat \<Rightarrow> nat \<Rightarrow> 'k host \<Rightarrow> 'k host option" where
  "fill_pd p pd i 0 h = Some h"
| "fill_pd p pd i (Suc n) h = do {
     h1 \<leftarrow> heap_store h p (pd + 8 * i) (le_bytes 8 (push_bit 21 (of_nat i :: u64) OR 0x83));
     fill_pd p pd (Suc i) n h1
   }"

definition write_tables :: "u64 \<Rightarrow> nat \<Rightarrow> u64 \<Rightarrow> 'k host \<Rightarrow> 'k host option" where
  "write_tables p offset base_addr h = do {
     let pml4 = offset;
     let pdpt = offset + 8 * 512;
     let pd = offset + 8 * 1024;
     h1 \<leftarrow> heap_store h p pml4 (replicate 4096 0);
     h2 \<leftarrow> heap_store h1 p pdpt (replicate 4096 0);
     h3 \<leftarrow> heap_store h2 p pd (replicate 4096 0);
     h4 \<leftarrow> heap_store h3 p pml4 (le_bytes 8 ((base_addr + 0x1000) OR 0x03));
     h5 \<leftarrow> heap_store h4 p pdpt (le_bytes 8 ((base_addr + 0x2000) OR 0x03));
     fill_pd p pd 0 512 h5
   }"

fun build_in_regions :: "MemoryRegion list \<Rightarrow> u64 \<Rightarrow> 'k host \<Rightarrow> (error_code \<times> 'k host) option" where
  "build_in_regions [] base_addr h = Some (ENONET, h)"
| "build_in_regions (region # regions) base_addr h =
     (let rbase = m_guestPhysAddr region;
          rend = rbase + m_size region
      in if base_addr < rbase \<or> base_addr \<ge> rend then build_in_regions regions base_addr h
         else do { h1 \<leftarrow> write_tables (m_hostAddr region) (unat (base_addr - rbase)) base_addr h;
                   Some (ok_code, h1) })"

definition GuestLoader_buildIdentityPageTables ::
  "VirtualMachine \<Rightarrow> u64 \<Rightarrow> 'k host \<Rightarrow> (error_code \<times> 'k host) option" where
  "GuestLoader_buildIdentityPageTables vm base_addr h = build_in_regions (vm_memoryRegions vm) base_addr h"

definition GuestLoader_readFile :: "'k kernel \<Rightarrow> string \<Rightarrow> 'k host \<Rightarrow> byte list" where
  "GuestLoader_readFile K path h = (case file_bytes K path h of None \<Rightarrow> [] | Some bytes \<Rightarrow> bytes)"

definition GuestLoader_load ::
  "'k kernel \<Rightarrow> VirtualMachine \<Rightarrow> GuestLoadParams \<Rightarrow> 'k host \<Rightarrow> (error_code \<times> VirtualMachine \<times> 'k host) option" where
  "GuestLoader_load K vm params h =
     (let bytes = GuestLoader_readFile K (gl_imagePath params) h in
      if bytes = [] then Some (ENONET, vm, h)
      else
        let (regioResult, vm1, h1) = VirtualMachine_addMemoryRegion K 0 (gl_memorySize params) 0 vm h in
        case regioResult of
          Inl ec \<Rightarrow> Some (ec, vm1, h1)
        | Inr i \<Rightarrow>
            let region = vm_memoryRegions vm1 ! i;
                offset = gl_loadAddress params
            in if offset + of_nat (length bytes) > m_size region then Some (ENOMEM, vm1, h1)
               else do {
                 h2 \<leftarrow> MemoryRegion_write region offset bytes h1;
                 let (vcpuResult, vm2, h3) = VirtualMachine_addVCpu K 0 vm1 h2;
                 case vcpuResult of
                   Inl ec \<Rightarrow> Some (ec, vm2, h3)
                 | Inr j \<Rightarrow>
                     let vcpu = vm_vcpus vm2 ! j in
                     (case gl_mode params of
                        GLM_RealMode16 \<Rightarrow>
                          let (ec, h4) = GuestLoader_setupRealModeVCpu K vcpu (ucast (gl_entryPoint params AND 0xFFFF)) h3
                          in Some (ec, vm2, h4)
                      | GLM_FlatBinary \<Rightarrow> do {
                          (ec, h4) \<leftarrow> GuestLoader_buildIdentityPageTables vm2 0x2000 h3;
                          if ec \<noteq> ok_code then Some (ec, vm2, h4)
                          else let (ec', h5) = GuestLoader_setup64BitVCpu K vcpu (gl_entryPoint params) 0x2000 h4
                               in Some (ec', vm2, h5)
                        })
               })"

definition GuestLoader_loadBytes ::
  "'k kernel \<Rightarrow> VirtualMachine \<Rightarrow> byte list \<Rightarrow> u64 \<Rightarrow> u64 \<Rightarrow> 'k host \<Rightarrow> (error_code \<times> VirtualMachine \<times> 'k host) option" where
  "GuestLoader_loadBytes K vm code load_addr memory_size h =
     (let (regionResult, vm1, h1) = VirtualMachine_addMemoryRegion K 0 memory_size 0 vm h in
      case regionResult of
        Inl ec \<Rightarrow> Some (ec, vm1, h1)
      | Inr i \<Rightarrow>
          let region = vm_memoryRegions vm1 ! i in
          if load_addr + of_nat (length code) > m_size region then Some (ENOMEM, vm1, h1)
          else do {
            h2 \<leftarrow> MemoryRegion_write region load_addr code h1;
            let (vcpuResult, vm2, h3) = VirtualMachine_addVCpu K 0 vm1 h2;
            case vcpuResult of
              Inl ec \<Rightarrow> Some (ec, vm2, h3)
            | Inr j \<Rightarrow>
                let (ec, h4) = GuestLoader_setupRealModeVCpu K (vm_vcpus vm2 ! j) (ucast (load_addr AND 0xFFFF)) h3
                in Some (ec, vm2, h4)
          })"

section \<open>Stores into one mapping\<close>

lemma heap_store_live:
  assumes "heap_store h p off bs = Some h'" and "h_heap h p = Some b"
  shows "\<exists>b'. h_heap h' p = Some b' \<and> length b' = length b"
  using assms by (auto simp: heap_store_def block_def store_at_def split: if_splits)

text \<open>\<open>same_outside lo hi p h h'\<close>: \<open>h'\<close> differs from \<open>h\<close> at most in bytes \<open>lo\<close> to \<open>hi\<close> of mapping \<open>p\<close>.\<close>

definition same_outside :: "nat \<Rightarrow> nat \<Rightarrow> u64 \<Rightarrow> 'k host \<Rightarrow> 'k host \<Rightarrow> bool" where
  "same_outside lo hi p h h' \<longleftrightarrow>
     (\<forall>q. q \<noteq> p \<longrightarrow> h_heap h' q = h_heap h q) \<and> h_runs h' = h_runs h \<and> h_kern h' = h_kern h \<and>
     length (block h' p) = length (block h p) \<and>
     (\<forall>off n. off + n \<le> length (block h p) \<longrightarrow> off + n \<le> lo \<or> hi \<le> off \<longrightarrow> heap_load h' p off n = heap_load h p off n)"

lemma same_outside_refl: "same_outside lo hi p h h"
  by (simp add: same_outside_def)

lemma same_outside_trans:
  "same_outside lo hi p h h1 \<Longrightarrow> same_outside lo hi p h1 h2 \<Longrightarrow> same_outside lo hi p h h2"
  unfolding same_outside_def by metis

lemma same_outside_store:
  assumes "heap_store h p off bs = Some h'" and "lo \<le> off" and "off + length bs \<le> hi"
  shows "same_outside lo hi p h h'"
  using assms heap_store_block [OF assms(1)] hb.st_size [OF assms(1)] hb.ld_st_disjoint [OF assms(1)]
  by (auto simp: same_outside_def)

lemma same_outside_load:
  "same_outside lo hi p h h' \<Longrightarrow> off + n \<le> length (block h p) \<Longrightarrow> off + n \<le> lo \<or> hi \<le> off \<Longrightarrow>
     heap_load h' p off n = heap_load h p off n"
  unfolding same_outside_def by blast

lemma same_outside_mono:
  "same_outside lo hi p h h' \<Longrightarrow> lo' \<le> lo \<Longrightarrow> hi \<le> hi' \<Longrightarrow> same_outside lo' hi' p h h'"
  unfolding same_outside_def by (meson le_trans)

lemma same_outside_length: "same_outside lo hi p h h' \<Longrightarrow> length (block h' p) = length (block h p)"
  by (simp add: same_outside_def)

lemma heap_store_defined:
  assumes "off + length bs \<le> length (block h p)"
  obtains h' where "heap_store h p off bs = Some h'"
  using assms hb.st_iff [of h p off bs] by auto

section \<open>Contents of the page tables\<close>

definition pd_entry :: "nat \<Rightarrow> u64" where
  "pd_entry i = push_bit 21 (of_nat i) OR 0x83"

lemma fill_pd_spec:
  assumes "pd + 8 * (i + n) \<le> length (block h p)"
  shows "\<exists>h'. fill_pd p pd i n h = Some h' \<and> same_outside (pd + 8 * i) (pd + 8 * (i + n)) p h h' \<and>
    (\<forall>j. i \<le> j \<and> j < i + n \<longrightarrow> heap_load h' p (pd + 8 * j) 8 = Some (le_bytes 8 (pd_entry j)))"
  using assms
proof (induction n arbitrary: i h)
  case 0
  show ?case by (auto simp: same_outside_refl)
next
  case (Suc n)
  have "pd + 8 * i + length (le_bytes 8 (pd_entry i)) \<le> length (block h p)" using Suc.prems by simp
  then obtain h1 where st: "heap_store h p (pd + 8 * i) (le_bytes 8 (pd_entry i)) = Some h1"
    by (rule heap_store_defined)
  have o1: "same_outside (pd + 8 * i) (pd + 8 * Suc i) p h h1"
    using st by (rule same_outside_store) simp_all
  note len = same_outside_length [OF o1]
  obtain h' where fill: "fill_pd p pd (Suc i) n h1 = Some h'"
    and o2: "same_outside (pd + 8 * Suc i) (pd + 8 * (Suc i + n)) p h1 h'"
    and entries: "\<forall>j. Suc i \<le> j \<and> j < Suc i + n \<longrightarrow> heap_load h' p (pd + 8 * j) 8 = Some (le_bytes 8 (pd_entry j))"
    using Suc.IH [of "Suc i" h1] Suc.prems len by auto
  have "heap_load h' p (pd + 8 * i) 8 = heap_load h1 p (pd + 8 * i) 8"
    using o2 by (rule same_outside_load) (use Suc.prems len in auto)
  also have "\<dots> = Some (le_bytes 8 (pd_entry i))" using hb.ld_st_same [OF st] by simp
  finally have "heap_load h' p (pd + 8 * j) 8 = Some (le_bytes 8 (pd_entry j))" if "i \<le> j \<and> j < i + Suc n" for j
    using that entries by (cases "j = i") simp_all
  moreover have "same_outside (pd + 8 * i) (pd + 8 * (i + Suc n)) p h h'"
    using same_outside_trans [OF same_outside_mono [OF o1] same_outside_mono [OF o2]] by simp
  ultimately show ?case using st fill by (simp add: pd_entry_def)
qed

text \<open>Clearing a page and setting its first entry.\<close>

lemma cleared_entry:
  assumes "heap_store h p off (replicate 4096 0) = Some h'" and "k < 512"
  shows "heap_load h' p (off + 8 * k) 8 = Some (replicate 8 0)"
proof -
  have "heap_load h' p off 4096 = Some (replicate 4096 0)" using hb.ld_st_same [OF assms(1)] by simp
  from hb.ld_sub [OF this, of "8 * k" 8] assms(2) show ?thesis by (simp add: min_def)
qed

definition tables_at :: "'k host \<Rightarrow> u64 \<Rightarrow> nat \<Rightarrow> u64 \<Rightarrow> bool" where
  "tables_at h p off base \<longleftrightarrow>
     (\<forall>k < 512. heap_load h p (off + 8 * k) 8 =
        Some (if k = 0 then le_bytes 8 ((base + 0x1000) OR 3) else replicate 8 0)) \<and>
     (\<forall>k < 512. heap_load h p (off + 0x1000 + 8 * k) 8 =
        Some (if k = 0 then le_bytes 8 ((base + 0x2000) OR 3) else replicate 8 0)) \<and>
     (\<forall>k < 512. heap_load h p (off + 0x2000 + 8 * k) 8 = Some (le_bytes 8 (pd_entry k)))"

text \<open>The stores of one table set, one after the other.\<close>

lemma write_tables_stores:
  assumes "off + 0x3000 \<le> length (block h p)"
  obtains h1 h2 h3 h4 h5 h' where
    "heap_store h p off (replicate 4096 0) = Some h1"
    "heap_store h1 p (off + 0x1000) (replicate 4096 0) = Some h2"
    "heap_store h2 p (off + 0x2000) (replicate 4096 0) = Some h3"
    "heap_store h3 p off (le_bytes 8 ((base + 0x1000) OR 3)) = Some h4"
    "heap_store h4 p (off + 0x1000) (le_bytes 8 ((base + 0x2000) OR 3)) = Some h5"
    "fill_pd p (off + 0x2000) 0 512 h5 = Some h'"
    "write_tables p off base h = Some h'"
proof -
  have "off + length (replicate 4096 (0 :: byte)) \<le> length (block h p)" using assms by simp
  then obtain h1 where s1: "heap_store h p off (replicate 4096 0) = Some h1" by (rule heap_store_defined)
  have "off + 0x1000 + length (replicate 4096 (0 :: byte)) \<le> length (block h1 p)"
    using assms hb.st_size [OF s1] by simp
  then obtain h2 where s2: "heap_store h1 p (off + 0x1000) (replicate 4096 0) = Some h2" by (rule heap_store_defined)
  have "off + 0x2000 + length (replicate 4096 (0 :: byte)) \<le> length (block h2 p)"
    using assms hb.st_size [OF s1] hb.st_size [OF s2] by simp
  then obtain h3 where s3: "heap_store h2 p (off + 0x2000) (replicate 4096 0) = Some h3" by (rule heap_store_defined)
  note len = hb.st_size [OF s1] hb.st_size [OF s2] hb.st_size [OF s3]
  have "off + length (le_bytes 8 ((base + 0x1000) OR 3)) \<le> length (block h3 p)" using assms len by simp
  then obtain h4 where s4: "heap_store h3 p off (le_bytes 8 ((base + 0x1000) OR 3)) = Some h4" by (rule heap_store_defined)
  have "off + 0x1000 + length (le_bytes 8 ((base + 0x2000) OR 3)) \<le> length (block h4 p)"
    using assms len hb.st_size [OF s4] by simp
  then obtain h5 where s5: "heap_store h4 p (off + 0x1000) (le_bytes 8 ((base + 0x2000) OR 3)) = Some h5"
    by (rule heap_store_defined)
  have "off + 0x2000 + 8 * (0 + 512) \<le> length (block h5 p)"
    using assms len hb.st_size [OF s4] hb.st_size [OF s5] by simp
  from fill_pd_spec [OF this] obtain h' where fill: "fill_pd p (off + 0x2000) 0 512 h5 = Some h'" by blast
  with s1 s2 s3 s4 s5 have "write_tables p off base h = Some h'" by (simp add: write_tables_def Let_def)
  with s1 s2 s3 s4 s5 fill show thesis by (rule that)
qed

lemma write_tables_spec:
  assumes "off + 0x3000 \<le> length (block h p)"
  shows "\<exists>h'. write_tables p off base h = Some h' \<and> same_outside off (off + 0x3000) p h h' \<and> tables_at h' p off base"
proof -
  obtain h1 h2 h3 h4 h5 h' where s1: "heap_store h p off (replicate 4096 0) = Some h1"
    and s2: "heap_store h1 p (off + 0x1000) (replicate 4096 0) = Some h2"
    and s3: "heap_store h2 p (off + 0x2000) (replicate 4096 0) = Some h3"
    and s4: "heap_store h3 p off (le_bytes 8 ((base + 0x1000) OR 3)) = Some h4"
    and s5: "heap_store h4 p (off + 0x1000) (le_bytes 8 ((base + 0x2000) OR 3)) = Some h5"
    and fill: "fill_pd p (off + 0x2000) 0 512 h5 = Some h'"
    and w: "write_tables p off base h = Some h'" by (rule write_tables_stores [OF assms])
  note len = hb.st_size [OF s1] hb.st_size [OF s2] hb.st_size [OF s3] hb.st_size [OF s4] hb.st_size [OF s5]
  have o6: "same_outside (off + 0x2000) (0x3000 + off) p h5 h'"
    and pd: "\<forall>j < 512. heap_load h' p (off + 0x2000 + 8 * j) 8 = Some (le_bytes 8 (pd_entry j))"
    using fill_pd_spec [of "off + 0x2000" 0 512 h5 p] assms len fill by auto
  have "same_outside off (off + 0x3000) p h h'"
    by (rule same_outside_trans [OF same_outside_store [OF s1] same_outside_trans [OF same_outside_store [OF s2]
        same_outside_trans [OF same_outside_store [OF s3] same_outside_trans [OF same_outside_store [OF s4]
        same_outside_trans [OF same_outside_store [OF s5] same_outside_mono [OF o6]]]]]]) simp_all
  moreover have "heap_load h' p (off + 8 * k) 8 =
      Some (if k = 0 then le_bytes 8 ((base + 0x1000) OR 3) else replicate 8 0)" if k: "k < 512" for k
  proof -
    have "heap_load h' p (off + 8 * k) 8 = heap_load h4 p (off + 8 * k) 8"
      using k assms len same_outside_load [OF o6, of "off + 8 * k" 8] hb.ld_st_disjoint [OF s5, of "off + 8 * k" 8] by simp
    moreover have "heap_load h3 p (off + 8 * k) 8 = Some (replicate 8 0)"
      using k assms len cleared_entry [OF s1 k] hb.ld_st_disjoint [OF s2, of "off + 8 * k" 8]
        hb.ld_st_disjoint [OF s3, of "off + 8 * k" 8] by simp
    ultimately show ?thesis
      using k assms len hb.ld_st_disjoint [OF s4, of "off + 8 * k" 8] hb.ld_st_same [OF s4] by simp
  qed
  moreover have "heap_load h' p (off + 0x1000 + 8 * k) 8 =
      Some (if k = 0 then le_bytes 8 ((base + 0x2000) OR 3) else replicate 8 0)" if k: "k < 512" for k
  proof -
    let ?o = "off + 0x1000 + 8 * k"
    have "heap_load h' p ?o 8 = heap_load h5 p ?o 8" using k assms len same_outside_load [OF o6, of ?o 8] by simp
    moreover have "heap_load h4 p ?o 8 = Some (replicate 8 0)"
      using k assms len cleared_entry [OF s2 k] hb.ld_st_disjoint [OF s3, of ?o 8] hb.ld_st_disjoint [OF s4, of ?o 8] by simp
    ultimately show ?thesis
      using k assms len hb.ld_st_disjoint [OF s5, of ?o 8] hb.ld_st_same [OF s5] by simp
  qed
  ultimately show ?thesis using pd w by (auto simp: tables_at_def)
qed

section \<open>Address translation\<close>

text \<open>
  The architecture's four-level walk over 64-bit entries read from guest-physical memory: entries are
  present when bit 0 is set, bit 7 ends the walk with a large page, bits 12 to 51 are the next frame.
\<close>

definition pte_frame :: "u64 \<Rightarrow> u64" where
  "pte_frame e = e AND 0x000FFFFFFFFFF000"

definition walk_index :: "nat \<Rightarrow> u64 \<Rightarrow> u64" where
  "walk_index n va = drop_bit n va AND 511"

definition walk :: "(u64 \<Rightarrow> u64 option) \<Rightarrow> u64 \<Rightarrow> u64 \<Rightarrow> u64 option" where
  "walk rd cr3 va = do {
     pml4e \<leftarrow> rd (pte_frame cr3 + 8 * walk_index 39 va);
     if \<not> bit pml4e 0 then None else do {
       pdpte \<leftarrow> rd (pte_frame pml4e + 8 * walk_index 30 va);
       if \<not> bit pdpte 0 then None
       else if bit pdpte 7 then Some ((pdpte AND 0x000FFFFFC0000000) + (va AND 0x3FFFFFFF))
       else do {
         pde \<leftarrow> rd (pte_frame pdpte + 8 * walk_index 21 va);
         if \<not> bit pde 0 then None
         else if bit pde 7 then Some ((pde AND 0x000FFFFFFFE00000) + (va AND 0x1FFFFF))
         else do {
           pte \<leftarrow> rd (pte_frame pde + 8 * walk_index 12 va);
           if bit pte 0 then Some (pte_frame pte + (va AND 0xFFF)) else None
         }
       }
     }
   }"

text \<open>Guest-physical memory as far as one region backs it.\<close>

definition phys_read :: "'k host \<Rightarrow> MemoryRegion \<Rightarrow> u64 \<Rightarrow> u64 option" where
  "phys_read h r addr =
     (if m_guestPhysAddr r \<le> addr
      then map_option le_word (heap_load h (m_hostAddr r) (unat (addr - m_guestPhysAddr r)) 8) else None)"

lemma take_bit_small: "unat (a :: u64) < 2 ^ n \<Longrightarrow> take_bit n a = a"
  by (simp add: word_unat_eq_iff unsigned_take_bit_eq take_bit_nat_eq_self)

lemma bit_take_bitD: "take_bit n a = a \<Longrightarrow> bit a i \<Longrightarrow> i < n"
  using bit_take_bit_iff [of n a i] by simp

lemma take_bit_nat: "unat (take_bit n (a :: u64)) = unat a mod 2 ^ n"
  by (simp add: unsigned_take_bit_eq) (simp add: take_bit_eq_mod)

lemma walk_index_nat: "unat (walk_index n va) = unat va div 2 ^ n mod 512"
proof -
  have "(511 :: u64) = mask 9" by (simp add: mask_eq_exp_minus_1)
  then have "walk_index n va = take_bit 9 (drop_bit n va)"
    by (simp add: walk_index_def take_bit_eq_mask)
  moreover have "unat (drop_bit n va) = unat va div 2 ^ n"
    using unsigned_less [of va, where ?'a = nat]
    by (simp only: unsigned_drop_bit_eq) (simp add: drop_bit_eq_div take_bit_nat_eq_self)
  ultimately show ?thesis by (simp add: take_bit_nat)
qed

lemma frame_mask: "(0x000FFFFFFFFFF000 :: u64) = mask 52 AND NOT (mask 12)"
  by (simp add: mask_eq_exp_minus_1)

lemma frame_entry:
  assumes "take_bit 12 a = (0 :: u64)" and "unat a < 2 ^ 52"
  shows "pte_frame (a OR 3) = a" and "pte_frame a = a"
proof -
  have lo: "\<not> bit a i" if "i < 12" for i
    using that arg_cong [OF assms(1), of "\<lambda>w. bit w i"] by (simp add: bit_take_bit_iff)
  note hi = bit_take_bitD [OF take_bit_small [OF assms(2)]]
  have three: "bit (3 :: u64) i \<longleftrightarrow> i < 2" for i
  proof -
    have "(3 :: u64) = mask 2" by (simp add: mask_eq_exp_minus_1)
    then have "bit (3 :: u64) i \<longleftrightarrow> bit (mask 2 :: u64) i" by simp
    then show ?thesis unfolding bit_mask_iff by auto
  qed
  have "bit (pte_frame (a OR 3)) i = bit a i" "bit (pte_frame a) i = bit a i" for i
    unfolding pte_frame_def frame_mask bit_and_iff bit_or_iff bit_not_iff bit_mask_iff
    using lo [of i] hi [of i] three [of i] by (auto simp: not_less)
  then show "pte_frame (a OR 3) = a" "pte_frame a = a" by (auto intro: bit_eqI)
qed

lemma aligned_nat: "take_bit 12 (a :: u64) = 0 \<longleftrightarrow> 2 ^ 12 dvd unat a"
  using take_bit_nat [of 12 a] by (auto simp: word_unat_eq_iff dvd_eq_mod_eq_0)

lemma aligned_add:
  assumes "take_bit 12 a = (0 :: u64)" and "take_bit 12 b = 0"
  shows "take_bit 12 (a + b) = 0"
proof -
  have "(2 :: nat) ^ 12 dvd 2 ^ LENGTH(64)" by (simp add: le_imp_power_dvd)
  with assms show ?thesis
    unfolding aligned_nat unat_word_ariths by (metis dvd_add dvd_mod)
qed

lemma pd_entry_bits: "bit (pd_entry k) 0" "bit (pd_entry k) 7"
proof -
  have "bit (0x83 :: u64) 0" "bit (0x83 :: u64) 7" by simp_all
  then show "bit (pd_entry k) 0" "bit (pd_entry k) 7" unfolding pd_entry_def bit_or_iff by simp_all
qed

lemma pd_entry_frame:
  assumes "k < 512"
  shows "pd_entry k AND 0x000FFFFFFFE00000 = push_bit 21 (of_nat k)"
proof -
  let ?k = "of_nat k :: u64"
  have m: "(0x000FFFFFFFE00000 :: u64) = mask 52 AND NOT (mask 21)" by (simp add: mask_eq_exp_minus_1)
  have "unat ?k < 2 ^ 9" using assms by (simp add: unat_of_nat_id)
  note hi = bit_take_bitD [OF take_bit_small [OF this]]
  have "unat (0x83 :: u64) < 2 ^ 8" by simp
  note c = bit_take_bitD [OF take_bit_small [OF this]]
  show ?thesis
  proof (rule bit_word_eqI)
    fix i
    show "bit (pd_entry k AND 0x000FFFFFFFE00000) i = bit (push_bit 21 ?k) i"
      unfolding pd_entry_def m bit_and_iff bit_or_iff bit_not_iff bit_mask_iff bit_push_bit_iff
      using hi [of "i - 21"] c [of i] by auto
  qed
qed

lemma large_page_address:
  assumes "unat va < 2 ^ 30"
  shows "push_bit 21 (of_nat (unat (walk_index 21 va))) + (va AND 0x1FFFFF) = va"
proof -
  have "(0x1FFFFF :: u64) = mask 21" by (simp add: mask_eq_exp_minus_1)
  then have "va AND 0x1FFFFF = take_bit 21 va" by (simp add: take_bit_eq_mask)
  then have "unat (va AND 0x1FFFFF) = unat va mod 2 ^ 21" by (simp add: take_bit_nat)
  moreover have "of_nat (unat (va AND 0x1FFFFF)) = va AND 0x1FFFFF" by simp
  ultimately have lo: "va AND 0x1FFFFF = of_nat (unat va mod 2 ^ 21)" by (simp only:)
  have "unat (walk_index 21 va) = unat va div 2 ^ 21"
    using assms by (simp add: walk_index_nat)
  then have "push_bit 21 (of_nat (unat (walk_index 21 va)) :: u64) = of_nat (unat va div 2 ^ 21 * 2 ^ 21)"
    by (simp only: push_bit_eq_mult of_nat_mult of_nat_power) simp
  with lo have "push_bit 21 (of_nat (unat (walk_index 21 va))) + (va AND 0x1FFFFF) =
      of_nat (unat va div 2 ^ 21 * 2 ^ 21 + unat va mod 2 ^ 21)" by (simp only: of_nat_add)
  also have "\<dots> = va" by (simp only: div_mult_mod_eq) simp
  finally show ?thesis .
qed

lemma le_word_zero: "(le_word (replicate n 0) :: u64) = 0"
  by (induction n) simp_all

lemma phys_read_at:
  assumes "m_guestPhysAddr r \<le> base" and "unat base + unat d < 2 ^ 64"
  shows "phys_read h r (base + d) =
    map_option le_word (heap_load h (m_hostAddr r) (unat (base - m_guestPhysAddr r) + unat d) 8)"
proof -
  have sum: "unat (base + d) = unat base + unat d" using assms(2) by (simp add: unat_add_no_wrap)
  then have ge: "m_guestPhysAddr r \<le> base + d" using assms(1) by (simp add: word_le_nat_alt)
  have "unat (base + d - m_guestPhysAddr r) = unat (base + d) - unat (m_guestPhysAddr r)"
    using ge by (rule unat_sub)
  also have "\<dots> = unat (base - m_guestPhysAddr r) + unat d"
    using assms(1) sum by (simp add: unat_sub word_le_nat_alt)
  finally show ?thesis using ge by (simp add: phys_read_def)
qed

lemma phys_read_entry:
  assumes "m_guestPhysAddr r \<le> base" and "unat base + 0x3000 \<le> 2 ^ 52" and "unat c \<le> 0x2000" and "unat i < 512"
  shows "phys_read h r (base + c + 8 * i) =
    map_option le_word (heap_load h (m_hostAddr r) (unat (base - m_guestPhysAddr r) + unat c + 8 * unat i) 8)"
proof -
  have i: "unat (8 * i) = 8 * unat i" using assms(4) by (simp add: unat_word_ariths)
  then have "unat (c + 8 * i) = unat c + 8 * unat i" using assms(3,4) by (simp add: unat_add_no_wrap)
  with phys_read_at [OF assms(1), of "c + 8 * i" h] assms(2-4) show ?thesis by (simp add: add.assoc)
qed

lemma tables_walk:
  assumes tables: "tables_at h (m_hostAddr r) (unat (base - m_guestPhysAddr r)) base"
    and base: "m_guestPhysAddr r \<le> base" "unat base + 0x3000 \<le> 2 ^ 52" "take_bit 12 base = 0"
    and va: "unat va < 2 ^ 48"
  shows "walk (phys_read h r) base va = (if unat va < 2 ^ 30 then Some va else None)"
proof -
  let ?i4 = "walk_index 39 va" and ?i3 = "walk_index 30 va" and ?i2 = "walk_index 21 va"
  note idx = walk_index_nat [of 39 va] walk_index_nat [of 30 va] walk_index_nat [of 21 va]
  have small: "unat ?i4 < 512" "unat ?i3 < 512" "unat ?i2 < 512" by (simp_all add: idx)
  have e4: "phys_read h r (base + 8 * ?i4) = Some (if unat ?i4 = 0 then (base + 0x1000) OR 3 else 0)"
    using phys_read_entry [OF base(1,2) _ small(1), of 0 h] tables small(1)
    by (simp add: tables_at_def c64.dec_enc le_word_zero)
  have e3: "phys_read h r (base + 0x1000 + 8 * ?i3) = Some (if unat ?i3 = 0 then (base + 0x2000) OR 3 else 0)"
    using phys_read_entry [OF base(1,2) _ small(2), of "0x1000" h] tables small(2)
    by (simp add: tables_at_def c64.dec_enc le_word_zero)
  have e2: "phys_read h r (base + 0x2000 + 8 * ?i2) = Some (pd_entry (unat ?i2))"
    using phys_read_entry [OF base(1,2) _ small(3), of "0x2000" h] tables small(3)
    by (simp add: tables_at_def c64.dec_enc)
  have b: "unat (base + 0x1000) < 2 ^ 52" "unat (base + 0x2000) < 2 ^ 52"
    using base(2) by (simp_all add: unat_add_no_wrap)
  have frames: "pte_frame base = base" "pte_frame ((base + 0x1000) OR 3) = base + 0x1000"
    "pte_frame ((base + 0x2000) OR 3) = base + 0x2000"
    using frame_entry(2) [OF base(3)] base(2) frame_entry(1) [OF aligned_add [OF base(3)] b(1)]
      frame_entry(1) [OF aligned_add [OF base(3)] b(2)] by simp_all
  have present: "bit ((base + 0x1000) OR 3) 0" "bit ((base + 0x2000) OR 3) 0"
    by (simp_all add: bit_or_iff)
  have not_large: "\<not> bit ((base + 0x2000) OR 3) 7"
    using arg_cong [OF aligned_add [OF base(3), of "0x2000"], of "\<lambda>w. bit w 7"]
    by (simp add: bit_take_bit_iff bit_or_iff)
  show ?thesis
  proof (cases "unat va < 2 ^ 30")
    case True
    then have "unat ?i4 = 0" "unat ?i3 = 0" by (simp_all add: idx)
    with True e4 e3 e2 frames present not_large pd_entry_bits pd_entry_frame [OF small(3)] large_page_address [OF True]
    show ?thesis by (simp add: walk_def)
  next
    case False
    have "unat ?i4 \<noteq> 0 \<or> unat ?i3 \<noteq> 0"
    proof (cases "unat va div 2 ^ 39 = 0")
      case True
      then have "unat va div 2 ^ 30 < 512" by (simp add: div_eq_0_iff less_mult_imp_div_less)
      with False show ?thesis by (simp add: idx div_eq_0_iff)
    next
      case False
      have "unat va div 2 ^ 39 < 512" using va by (simp add: less_mult_imp_div_less)
      with False show ?thesis by (simp add: idx)
    qed
    with False e4 e3 frames present show ?thesis by (auto simp: walk_def)
  qed
qed

lemma build_in_regions_find:
  "build_in_regions rs base h =
     (case find (\<lambda>r. m_guestPhysAddr r \<le> base \<and> base < m_guestPhysAddr r + m_size r) rs of
        None \<Rightarrow> Some (ENONET, h)
      | Some r \<Rightarrow> do { h1 \<leftarrow> write_tables (m_hostAddr r) (unat (base - m_guestPhysAddr r)) base h; Some (ok_code, h1) })"
  by (induction rs) (auto simp: Let_def not_less)

text \<open>C12: with room for three pages in the region that holds the page-aligned table address, building the
  tables succeeds, changes nothing but those three pages, and from then on the processor's walk maps
  every virtual address below 1 GiB to the same physical address and every other one to nothing.\<close>

theorem identity_page_tables:
  assumes "find (\<lambda>r. m_guestPhysAddr r \<le> base \<and> base < m_guestPhysAddr r + m_size r) (vm_memoryRegions vm) = Some r"
    and "region_live h r" and "unat (base - m_guestPhysAddr r) + 0x3000 \<le> unat (m_size r)"
    and "take_bit 12 base = 0" and "unat base + 0x3000 \<le> 2 ^ 52"
  shows "\<exists>h'. GuestLoader_buildIdentityPageTables vm base h = Some (ok_code, h') \<and>
    (\<forall>va. unat va < 2 ^ 48 \<longrightarrow> walk (phys_read h' r) base va = (if unat va < 2 ^ 30 then Some va else None)) \<and>
    same_outside (unat (base - m_guestPhysAddr r)) (unat (base - m_guestPhysAddr r) + 0x3000) (m_hostAddr r) h h'"
proof -
  have fit: "unat (base - m_guestPhysAddr r) + 0x3000 \<le> length (block h (m_hostAddr r))"
    using assms(2,3) region_live_length [of h r] by (simp add: region_bytes_def)
  have r: "m_guestPhysAddr r \<le> base" using assms(1) by (auto simp: find_Some_iff)
  from write_tables_spec [OF fit, of base] obtain h' where
    "write_tables (m_hostAddr r) (unat (base - m_guestPhysAddr r)) base h = Some h'"
    and "same_outside (unat (base - m_guestPhysAddr r)) (unat (base - m_guestPhysAddr r) + 0x3000) (m_hostAddr r) h h'"
    and "tables_at h' (m_hostAddr r) (unat (base - m_guestPhysAddr r)) base" by blast
  moreover from this(3) have "\<forall>va. unat va < 2 ^ 48 \<longrightarrow>
      walk (phys_read h' r) base va = (if unat va < 2 ^ 30 then Some va else None)"
    using tables_walk [OF _ r assms(5,4)] by blast
  moreover have "GuestLoader_buildIdentityPageTables vm base h = Some (ok_code, h')"
    using assms(1) calculation(1) by (simp add: GuestLoader_buildIdentityPageTables_def build_in_regions_find)
  ultimately show ?thesis by blast
qed

text \<open>A machine with 32 KiB of memory at guest-physical address 0.\<close>

definition demo_ram :: MemoryRegion where
  "demo_ram = \<lparr>m_vmFd = 4, m_slot = 0, m_guestPhysAddr = 0, m_size = 0x8000, m_hostAddr = 0x10000000\<rparr>"

definition demo_ram_host :: "sim host" where
  "demo_ram_host = (demo_host [])\<lparr>h_heap := [0x10000000 \<mapsto> replicate 0x8000 0]\<rparr>"

lemma demo_ram_live: "region_live demo_ram_host demo_ram"
  by (simp add: region_live_def demo_ram_def demo_ram_host_def MAP_FAILED_def)

theorem identity_page_tables_witness:
  "\<exists>h'. GuestLoader_buildIdentityPageTables (demo_vm\<lparr>vm_memoryRegions := [demo_ram]\<rparr>) 0x2000 demo_ram_host = Some (ok_code, h') \<and>
     walk (phys_read h' demo_ram) 0x2000 0x3FFFFFFF = Some 0x3FFFFFFF \<and> walk (phys_read h' demo_ram) 0x2000 0x40000000 = None"
proof -
  let ?vm = "demo_vm\<lparr>vm_memoryRegions := [demo_ram]\<rparr>"
  have f: "find (\<lambda>r. m_guestPhysAddr r \<le> 0x2000 \<and> 0x2000 < m_guestPhysAddr r + m_size r) (vm_memoryRegions ?vm) = Some demo_ram"
    by (simp add: demo_ram_def)
  have "unat (0x2000 - m_guestPhysAddr demo_ram) + 0x3000 \<le> unat (m_size demo_ram)"
    by (simp add: demo_ram_def)
  moreover have "take_bit 12 (0x2000 :: u64) = 0" "unat (0x2000 :: u64) + 0x3000 \<le> 2 ^ 52" by simp_all
  ultimately obtain h' where b: "GuestLoader_buildIdentityPageTables ?vm 0x2000 demo_ram_host = Some (ok_code, h')"
    and w: "\<forall>va. unat va < 2 ^ 48 \<longrightarrow> walk (phys_read h' demo_ram) 0x2000 va = (if unat va < 2 ^ 30 then Some va else None)"
    using identity_page_tables [OF f demo_ram_live] by blast
  from w [rule_format, of "0x3FFFFFFF"] w [rule_format, of "0x40000000"] b show ?thesis by simp
qed

end
