(* ===== verification/Guest_Boot.thy ===== *)
theory Guest_Boot
  imports Guest_Loader
begin

text \<open>
  What a machine looks like after \<^verbatim>\<open>GuestLoader::load\<close> and \<^verbatim>\<open>loadBytes\<close>: where the image is, which mode the
  vCPU starts in, and what happens when the arguments do not fit the memory.
\<close>

section \<open>The parts\<close>

lemma region_create_errno:
  assumes "mapping_law K" "errno_law K" and "MemoryRegion_create K fd slot gpa n flags h = (Inl ec, h')"
  shows "ec \<noteq> ok_code"
proof -
  obtain p h1 where mm: "sys_mmap K n h = (p, h1)" by fastforce
  obtain rc2 h2 where adv: "sys_madvise K p n h1 = (rc2, h2)" by fastforce
  let ?q = "KVM_SET_USER_MEMORY_REGION \<lparr>umr_slot = slot, umr_flags = flags, umr_guest_phys_addr = gpa,
    umr_memory_size = n, umr_userspace_addr = p\<rparr>"
  obtain rc h3 where io: "sys_ioctl K fd ?q h2 = (rc, h3)" by fastforce
  have m: "p = MAP_FAILED \<Longrightarrow> h_errno h1 \<noteq> 0" using assms(1) mm unfolding mapping_law_def by blast
  have i: "rc < 0 \<Longrightarrow> h_errno h3 \<noteq> 0" using assms(2) io unfolding errno_law_def by blast
  show ?thesis
    using assms(3) m i by (auto simp: MemoryRegion_create_def mm adv io Let_def split: if_splits prod.splits)
qed

lemma vcpu_create_split:
  assumes "mem_laws K" "mapping_law K" "errno_law K" and "VCpu_create K fd i n h = (res, h')"
  shows "h_heap h' = h_heap h"
    and "res = Inl ec \<Longrightarrow> ec \<noteq> ok_code"
    and "res = Inr v \<Longrightarrow> v_id v = i \<and> page_ready (v_runPage v) h'"
proof -
  obtain f h1 where io: "sys_ioctl K fd (KVM_CREATE_VCPU (ucast i)) h = (f, h1)" by fastforce
  obtain p h2 where mm: "sys_mmap_vcpu K f (of_int n) h1 = (p, h2)" by fastforce
  obtain rc h3 where cl: "sys_close K f h2 = (rc, h3)" by fastforce
  have h1: "h_heap h1 = h_heap h" using ioctlD(1) [OF assms(1) io] by simp
  have h2: "h_heap h2 = h_heap h1" "if p = MAP_FAILED then h_errno h2 \<noteq> 0 else page_ready p h2"
    using assms(2) mm unfolding mapping_law_def by blast+
  have h3: "h_heap h3 = h_heap h2" using assms(1) cl unfolding mem_laws_def close_frame_def by blast
  have e: "f < 0 \<Longrightarrow> h_errno h1 \<noteq> 0" using assms(3) io unfolding errno_law_def by blast
  show "h_heap h' = h_heap h" and "res = Inl ec \<Longrightarrow> ec \<noteq> ok_code"
    and "res = Inr v \<Longrightarrow> v_id v = i \<and> page_ready (v_runPage v) h'"
    using assms(4) h1 h2 h3 e by (auto simp: VCpu_create_def io mm cl Let_def split: if_splits)
qed

lemma getSregs_errno: "get_errno_law K \<Longrightarrow> VCpu_getSregs K v h = (Inl ec, h') \<Longrightarrow> ec \<noteq> ok_code"
  by (auto simp: get_errno_law_def VCpu_getSregs_def split: prod.splits if_splits)

definition real_mode :: "kvm_sregs \<Rightarrow> bool" where
  "real_mode s \<longleftrightarrow> \<not> bit (sr_cr0 s) 0 \<and>
     (\<forall>seg \<in> {sr_cs s, sr_ds s, sr_es s, sr_fs s, sr_gs s, sr_ss s}.
        seg_base seg = 0 \<and> seg_selector seg = 0 \<and> seg_limit seg = 0xFFFF \<and> seg_present seg = 1)"

definition long_mode :: "u64 \<Rightarrow> kvm_sregs \<Rightarrow> bool" where
  "long_mode cr3 s \<longleftrightarrow>
     bit (sr_cr0 s) 0 \<and> bit (sr_cr0 s) 31 \<and> bit (sr_cr4 s) 5 \<and> bit (sr_efer s) 8 \<and> bit (sr_efer s) 10 \<and>
     sr_cr3 s = cr3 \<and> seg_l (sr_cs s) = 1 \<and> seg_db (sr_cs s) = 0 \<and> seg_base (sr_cs s) = 0"

lemma setupRealMode_spec:
  assumes laws: "reg_laws K" "errno_law K" "get_errno_law K" and "GuestLoader_setupRealModeVCpu K v ip h = (ec, h')"
  shows "h_heap h' = h_heap h"
    and "ec = ok_code \<Longrightarrow>
      kregs K (v_fd v) h' = Some (kvm_regs0\<lparr>rip := ucast ip, rsp := 0xFFF0, rflags := 2\<rparr>) \<and>
      (\<exists>s'. ksregs K (v_fd v) h' = Some s' \<and> real_mode s')"
proof -
  obtain sr h1 where g: "VCpu_getSregs K v h = (sr, h1)" by fastforce
  note g1 = getSregs_ksregs [OF laws(1) g]
  let ?sregs = "\<lambda>s. s\<lparr>sr_cs := setupSeg 0 (sr_cs s), sr_ds := setupSeg 0 (sr_ds s), sr_es := setupSeg 0 (sr_es s),
    sr_fs := setupSeg 0 (sr_fs s), sr_gs := setupSeg 0 (sr_gs s), sr_ss := setupSeg 0 (sr_ss s),
    sr_cr0 := sr_cr0 s AND NOT 1\<rparr>"
  let ?regs = "kvm_regs0\<lparr>rip := ucast ip, rsp := 0xFFF0, rflags := 2\<rparr>"
  have one: "\<not> bit (w AND NOT 1 :: u64) 0" for w by (simp add: bit_and_iff bit_not_iff)
  have rm: "real_mode (?sregs s)" for s unfolding real_mode_def using one by (simp add: setupSeg_def)
  obtain ec2 h2 where s2: "VCpu_setSregs K v (?sregs t) h1 = (ec2, h2)" if "sr = Inr t" for t
    by (cases sr) fastforce+
  obtain ec3 h3 where s3: "VCpu_setRegs K v ?regs h2 = (ec3, h3)" by fastforce
  note d3 = setRegs_ok [OF laws(1) s3]
  show "h_heap h' = h_heap h"
    using assms(4) g g1(2) s2 s3 d3(1) setSregs_ok(1) [OF laws(1) s2]
    by (auto simp: GuestLoader_setupRealModeVCpu_def Let_def split: sum.splits if_splits)
  assume ok: "ec = ok_code"
  then obtain s where sr: "sr = Inr s"
    using assms(4) g getSregs_errno [OF laws(3)] by (auto simp: GuestLoader_setupRealModeVCpu_def split: sum.splits)
  note d2 = setSregs_ok [OF laws(1) s2 [OF sr]]
  have "ec2 = ok_code" "ec3 = ok_code" "h3 = h'"
    using assms(4) ok g sr s2 [OF sr] s3 by (auto simp: GuestLoader_setupRealModeVCpu_def Let_def split: if_splits)
  moreover have "bit (2 :: u64) 1" by (simp add: bit_iff_odd)
  ultimately show "kregs K (v_fd v) h' = Some ?regs \<and> (\<exists>s'. ksregs K (v_fd v) h' = Some s' \<and> real_mode s')"
    using d3(3,4) d2(4) laws(2) rm by simp
qed

lemma setup64Bit_spec:
  assumes laws: "reg_laws K" "errno_law K" "get_errno_law K" and "GuestLoader_setup64BitVCpu K v ip cr3 h = (ec, h')"
  shows "h_heap h' = h_heap h"
    and "ec = ok_code \<Longrightarrow>
      kregs K (v_fd v) h' = Some (kvm_regs0\<lparr>rip := ip, rsp := 0x200000, rflags := 2\<rparr>) \<and>
      (\<exists>s'. ksregs K (v_fd v) h' = Some s' \<and> long_mode cr3 s')"
proof -
  obtain sr h1 where g: "VCpu_getSregs K v h = (sr, h1)" by fastforce
  note g1 = getSregs_ksregs [OF laws(1) g]
  let ?sregs = "\<lambda>s. s\<lparr>sr_cs := cs_seg, sr_ds := ds_seg, sr_es := ds_seg, sr_fs := ds_seg, sr_gs := ds_seg,
    sr_ss := ds_seg, sr_cr0 := 0x80050033, sr_cr3 := cr3, sr_cr4 := 0x20, sr_efer := 0x500\<rparr>"
  let ?regs = "kvm_regs0\<lparr>rip := ip, rsp := 0x200000, rflags := 2\<rparr>"
  have lm: "long_mode cr3 (?sregs s)" for s by (simp add: long_mode_def cs_seg_def bit_iff_odd)
  obtain ec2 h2 where s2: "VCpu_setSregs K v (?sregs t) h1 = (ec2, h2)" if "sr = Inr t" for t
    by (cases sr) fastforce+
  obtain ec3 h3 where s3: "VCpu_setRegs K v ?regs h2 = (ec3, h3)" by fastforce
  note d3 = setRegs_ok [OF laws(1) s3]
  show "h_heap h' = h_heap h"
    using assms(4) g g1(2) s2 s3 d3(1) setSregs_ok(1) [OF laws(1) s2]
    by (auto simp: GuestLoader_setup64BitVCpu_def Let_def split: sum.splits if_splits)
  assume ok: "ec = ok_code"
  then obtain s where sr: "sr = Inr s"
    using assms(4) g getSregs_errno [OF laws(3)] by (auto simp: GuestLoader_setup64BitVCpu_def split: sum.splits)
  note d2 = setSregs_ok [OF laws(1) s2 [OF sr]]
  have "ec2 = ok_code" "ec3 = ok_code" "h3 = h'"
    using assms(4) ok g sr s2 [OF sr] s3 by (auto simp: GuestLoader_setup64BitVCpu_def Let_def split: if_splits)
  moreover have "bit (2 :: u64) 1" by (simp add: bit_iff_odd)
  ultimately show "kregs K (v_fd v) h' = Some ?regs \<and> (\<exists>s'. ksregs K (v_fd v) h' = Some s' \<and> long_mode cr3 s')"
    using d3(3,4) d2(4) laws(2) lm by simp
qed

lemma addMemoryRegion_cases:
  assumes laws: "mem_laws K" "mapping_law K" "errno_law K"
    and "VirtualMachine_addMemoryRegion K gpa n flags vm h = (res, vm1, h1)"
  obtains (failed) ec where "res = Inl ec" "ec \<noteq> ok_code" "vm1 = vm" "h_heap h1 = h_heap h"
  | (added) r where "res = Inr (length (vm_memoryRegions vm))"
      "vm1 = vm\<lparr>vm_memoryRegions := vm_memoryRegions vm @ [r], vm_nextSlot := vm_nextSlot vm + 1\<rparr>"
      "m_guestPhysAddr r = gpa" "m_size r = n" "region_live h1 r" "region_bytes h1 r = replicate (unat n) 0"
proof -
  obtain cres h2 where cr: "MemoryRegion_create K (vm_fd vm) (vm_nextSlot vm) gpa n flags h = (cres, h2)" by fastforce
  from region_create_split [OF laws(1) cr] show thesis
  proof (elim disjE exE conjE)
    fix ec assume "cres = Inl ec" "h_heap h2 = h_heap h"
    with assms(4) cr region_create_errno [OF laws(2,3), of "vm_fd vm" "vm_nextSlot vm" gpa n flags h ec h2] show thesis
      by (intro failed) (auto simp: VirtualMachine_addMemoryRegion_def)
  next
    fix r assume "cres = Inr r" "m_guestPhysAddr r = gpa" "m_size r = n" "region_live h2 r"
      "h_heap h2 = (h_heap h)(m_hostAddr r \<mapsto> replicate (unat n) 0)"
    with assms(4) cr show thesis
      by (intro added [of r]) (auto simp: VirtualMachine_addMemoryRegion_def region_bytes_def block_def)
  qed
qed

lemma addVCpu_cases:
  assumes laws: "mem_laws K" "mapping_law K" "errno_law K"
    and "VirtualMachine_addVCpu K i vm h = (res, vm1, h1)"
  obtains (failed) ec where "res = Inl ec" "ec \<noteq> ok_code" "vm1 = vm" "h_heap h1 = h_heap h"
  | (added) v where "res = Inr (length (vm_vcpus vm))" "vm1 = vm\<lparr>vm_vcpus := vm_vcpus vm @ [v]\<rparr>"
      "v_id v = i" "page_ready (v_runPage v) h1" "h_heap h1 = h_heap h"
proof -
  obtain cres h2 where cr: "VCpu_create K (vm_fd vm) i (vm_vcpuMmapSize vm) h = (cres, h2)" by fastforce
  note split = vcpu_create_split [OF laws cr]
  show thesis
  proof (cases cres)
    case (Inl ec)
    with assms(4) cr split show thesis by (intro failed) (auto simp: VirtualMachine_addVCpu_def)
  next
    case (Inr v)
    with assms(4) cr split show thesis by (intro added [of v]) (auto simp: VirtualMachine_addVCpu_def)
  qed
qed

section \<open>Placing the image\<close>

definition image_at :: "u64 \<Rightarrow> u64 \<Rightarrow> byte list \<Rightarrow> byte list" where
  "image_at n addr code = replicate (unat addr) 0 @ code @ replicate (unat n - unat addr - length code) 0"

lemma image_end:
  assumes "unat addr + length code < 2 ^ 64"
  shows "unat (addr + of_nat (length code) :: u64) = unat addr + length code"
proof -
  have "unat (of_nat (length code) :: u64) = length code" using assms by (simp add: unat_of_nat_id)
  with assms show ?thesis by (simp add: unat_add_no_wrap)
qed

lemma region_live_store:
  assumes "heap_store h (m_hostAddr r) off bs = Some h'" and "region_live h r"
  shows "region_live h' r"
  using heap_store_live [OF assms(1)] assms(2) by (force simp: region_live_def)

lemma place_image:
  assumes "region_live h r" "region_bytes h r = replicate (unat (m_size r)) 0"
    and "unat addr + length code \<le> unat (m_size r)"
  shows "\<exists>h'. MemoryRegion_write r addr code h = Some h' \<and> region_live h' r \<and>
    region_bytes h' r = image_at (m_size r) addr code"
proof -
  have no_wrap: "unat addr + length code < 2 ^ 64"
    using assms(3) unsigned_less [of "m_size r", where ?'a = nat] by simp
  then have le: "addr + of_nat (length code) \<le> m_size r"
    using assms(3) image_end [OF no_wrap] by (simp add: word_le_nat_alt)
  have "unat addr + length code \<le> length (block h (m_hostAddr r))"
    using assms(2,3) by (simp add: region_bytes_def)
  then obtain h' where st: "heap_store h (m_hostAddr r) (unat addr) code = Some h'"
    by (rule heap_store_defined)
  have "store_at (replicate (unat (m_size r)) 0) (unat addr) code = Some (region_bytes h' r)"
    using heap_store_block(1) [OF st] assms(2) by (simp add: region_bytes_def)
  then have "region_bytes h' r = image_at (m_size r) addr code"
    using assms(3) by (simp add: store_at_def image_at_def min_def)
  with le st region_live_store [OF st assms(1)] show ?thesis by (simp add: MemoryRegion_write_def)
qed

text \<open>
  What both loaders do before they set up the registers: add the memory, check and write the image,
  add the vCPU. \<^const>\<open>Inl\<close> is an early return, \<^const>\<open>Inr\<close> gives the region, the vCPU, the machine and the host.
\<close>

definition boot ::
  "'k kernel \<Rightarrow> VirtualMachine \<Rightarrow> byte list \<Rightarrow> u64 \<Rightarrow> u64 \<Rightarrow> 'k host \<Rightarrow>
     ((error_code \<times> VirtualMachine \<times> 'k host) + (MemoryRegion \<times> VCpu \<times> VirtualMachine \<times> 'k host)) option" where
  "boot K vm code addr n h =
     (let (res, vm1, h1) = VirtualMachine_addMemoryRegion K 0 n 0 vm h in
      case res of
        Inl ec \<Rightarrow> Some (Inl (ec, vm1, h1))
      | Inr i \<Rightarrow>
          if addr + of_nat (length code) > m_size (vm_memoryRegions vm1 ! i) then Some (Inl (ENOMEM, vm1, h1))
          else do {
            h2 \<leftarrow> MemoryRegion_write (vm_memoryRegions vm1 ! i) addr code h1;
            let (vres, vm2, h3) = VirtualMachine_addVCpu K 0 vm1 h2;
            case vres of
              Inl ec \<Rightarrow> Some (Inl (ec, vm2, h3))
            | Inr j \<Rightarrow> Some (Inr (vm_memoryRegions vm1 ! i, vm_vcpus vm2 ! j, vm2, h3))
          })"

lemma loadBytes_boot:
  "GuestLoader_loadBytes K vm code addr n h = do {
     y \<leftarrow> boot K vm code addr n h;
     case y of
       Inl early \<Rightarrow> Some early
     | Inr (r, v, vm2, h3) \<Rightarrow>
         let (ec, h4) = GuestLoader_setupRealModeVCpu K v (ucast (addr AND 0xFFFF)) h3 in Some (ec, vm2, h4)
   }"
  by (auto simp: GuestLoader_loadBytes_def boot_def Let_def split: prod.splits sum.splits Option.bind_splits)

lemma load_flat_boot:
  assumes "gl_mode params = GLM_FlatBinary" and "GuestLoader_readFile K (gl_imagePath params) h = code" and "code \<noteq> []"
  shows "GuestLoader_load K vm params h = do {
     y \<leftarrow> boot K vm code (gl_loadAddress params) (gl_memorySize params) h;
     case y of
       Inl early \<Rightarrow> Some early
     | Inr (r, v, vm2, h3) \<Rightarrow> do {
         (ec, h4) \<leftarrow> GuestLoader_buildIdentityPageTables vm2 0x2000 h3;
         if ec \<noteq> ok_code then Some (ec, vm2, h4)
         else let (ec', h5) = GuestLoader_setup64BitVCpu K v (gl_entryPoint params) 0x2000 h4 in Some (ec', vm2, h5)
       }
   }"
  using assms
  by (auto simp: GuestLoader_load_def boot_def Let_def split: prod.splits sum.splits Option.bind_splits)

lemma boot_cases:
  assumes laws: "mem_laws K" "mapping_law K" "errno_law K" and wrap: "unat addr + length code < 2 ^ 64"
  obtains (early) ec vm1 h1 where "boot K vm code addr n h = Some (Inl (ec, vm1, h1))" "ec \<noteq> ok_code"
  | (booted) r v vm2 h3 where "boot K vm code addr n h = Some (Inr (r, v, vm2, h3))"
      "unat addr + length code \<le> unat n" "m_guestPhysAddr r = 0" "m_size r = n" "region_live h3 r"
      "region_bytes h3 r = image_at n addr code" "v_id v = 0" "page_ready (v_runPage v) h3"
      "vm_memoryRegions vm2 = vm_memoryRegions vm @ [r]" "vm_vcpus vm2 = vm_vcpus vm @ [v]"
proof -
  obtain res vm1 h1 where add: "VirtualMachine_addMemoryRegion K 0 n 0 vm h = (res, vm1, h1)" by (metis prod_cases3)
  from laws add show thesis
  proof (cases rule: addMemoryRegion_cases)
    case (failed ec)
    with add show thesis by (intro early [of ec]) (simp_all add: boot_def)
  next
    case region: (added r)
    have nth: "vm_memoryRegions vm1 ! length (vm_memoryRegions vm) = r" using region(2) by simp
    have fits: "addr + of_nat (length code) > m_size r \<longleftrightarrow> \<not> unat addr + length code \<le> unat n"
      using image_end [OF wrap] region(4) by (simp add: word_less_nat_alt not_le)
    show thesis
    proof (cases "unat addr + length code \<le> unat n")
      case False
      with add region(1) nth fits show thesis by (intro early [of ENOMEM]) (simp_all add: boot_def ENOMEM_def)
    next
      case True
      from place_image [of h1 r addr code] region(4-6) True obtain h2 where
        w: "MemoryRegion_write r addr code h1 = Some h2" "region_bytes h2 r = image_at n addr code" "region_live h2 r" by auto
      obtain vres vm2 h3 where addv: "VirtualMachine_addVCpu K 0 vm1 h2 = (vres, vm2, h3)" by (metis prod_cases3)
      from laws addv show thesis
      proof (cases rule: addVCpu_cases)
        case (failed ec)
        with add region(1) nth fits True w(1) addv show thesis by (intro early [of ec]) (simp_all add: boot_def Let_def)
      next
        case (added v)
        have "vm_vcpus vm2 ! length (vm_vcpus vm1) = v" using added(2) by simp
        with add region(1) nth fits True w(1) addv added(1)
        have "boot K vm code addr n h = Some (Inr (r, v, vm2, h3))" by (simp add: boot_def Let_def)
        moreover have "region_bytes h3 r = image_at n addr code" "region_live h3 r"
          using w(2,3) added(5) by (simp_all add: region_bytes_def block_def region_live_def)
        moreover have "vm_memoryRegions vm2 = vm_memoryRegions vm @ [r]" "vm_vcpus vm2 = vm_vcpus vm @ [v]"
          by (simp_all only: added(2) region(2)) simp_all
        ultimately show thesis
          using True region(3,4) added(3,4) by (intro booted)
      qed
    qed
  qed
qed

section \<open>Real-mode guests\<close>

text \<open>C11: loading code whose end address does not wrap around is always defined. When it reports success,
  the machine has one more region, with the code at the load address and zeros everywhere else, and
  one more vCPU, in real mode with flat zero-based segments and its instruction pointer at the low
  16 bits of the load address. Code that does not fit is never reported as loaded.\<close>

theorem loadBytes_spec:
  assumes laws: "mem_laws K" "mapping_law K" "errno_law K" "reg_laws K" "get_errno_law K"
    and wrap: "unat load_addr + length code < 2 ^ 64"
  shows "\<exists>ec vm' h'. GuestLoader_loadBytes K vm code load_addr memory_size h = Some (ec, vm', h') \<and>
    (ec = ok_code \<longrightarrow> unat load_addr + length code \<le> unat memory_size \<and>
      (\<exists>r v s. vm_memoryRegions vm' = vm_memoryRegions vm @ [r] \<and> m_guestPhysAddr r = 0 \<and> m_size r = memory_size \<and>
         region_bytes h' r = image_at memory_size load_addr code \<and>
         vm_vcpus vm' = vm_vcpus vm @ [v] \<and> v_id v = 0 \<and>
         kregs K (v_fd v) h' = Some (kvm_regs0\<lparr>rip := ucast (ucast (load_addr AND 0xFFFF) :: u16), rsp := 0xFFF0, rflags := 2\<rparr>) \<and>
         ksregs K (v_fd v) h' = Some s \<and> real_mode s))"
  using laws(1-3) wrap
proof (cases rule: boot_cases [where vm = vm and n = memory_size and h = h])
  case (early ec vm1 h1)
  then show ?thesis by (simp add: loadBytes_boot)
next
  case (booted r v vm2 h3)
  obtain ec h4 where su: "GuestLoader_setupRealModeVCpu K v (ucast (load_addr AND 0xFFFF)) h3 = (ec, h4)" by fastforce
  note started = setupRealMode_spec [OF laws(4,3,5) su]
  have "GuestLoader_loadBytes K vm code load_addr memory_size h = Some (ec, vm2, h4)"
    using booted(1) su by (simp add: loadBytes_boot)
  moreover have "region_bytes h4 r = image_at memory_size load_addr code"
    using booted(6) started(1) by (simp add: region_bytes_def block_def)
  ultimately show ?thesis using booted started(2) by auto
qed

section \<open>Long-mode guests\<close>

lemma phys_read_cong: "h_heap h' = h_heap h \<Longrightarrow> phys_read h' r = phys_read h r"
  by (simp add: phys_read_def heap_load_def block_def fun_eq_iff)

lemma same_outside_nth:
  assumes "same_outside lo hi p h h'" and "i < length (block h p)" and "i < lo \<or> hi \<le> i"
  shows "block h' p ! i = block h p ! i"
proof -
  have "heap_load h' p i 1 = heap_load h p i 1"
    using assms by (intro same_outside_load [OF assms(1)]) auto
  moreover have "i < length (block h' p)" using assms(2) same_outside_length [OF assms(1)] by simp
  ultimately show ?thesis using assms(2) by (simp add: heap_load_def load_at_byte)
qed

text \<open>C17: loading a flat image into an empty machine with at least 20 KiB of memory is always defined. When it
  reports success, the vCPU is in long mode with paging, PAE and a 64-bit code segment, at the entry
  point, every address below 1 GiB translates to itself, and the memory holds the image except in
  the three pages from \<open>0x2000\<close> on: these hold the page tables, also where the image lies there.\<close>

theorem load_flat_spec:
  assumes laws: "mem_laws K" "mapping_law K" "errno_law K" "reg_laws K" "get_errno_law K"
    and params: "gl_mode params = GLM_FlatBinary" "file_bytes K (gl_imagePath params) h = Some code" "code \<noteq> []"
    and wrap: "unat (gl_loadAddress params) + length code < 2 ^ 64"
    and vm: "vm_memoryRegions vm = []" and size: "0x5000 \<le> unat (gl_memorySize params)"
  shows "\<exists>ec vm' h'. GuestLoader_load K vm params h = Some (ec, vm', h') \<and>
    (ec = ok_code \<longrightarrow>
      (\<exists>r v s. vm_memoryRegions vm' = [r] \<and> vm_vcpus vm' = vm_vcpus vm @ [v] \<and>
         (\<forall>i < unat (gl_memorySize params). i < 0x2000 \<or> 0x5000 \<le> i \<longrightarrow>
            region_bytes h' r ! i = image_at (gl_memorySize params) (gl_loadAddress params) code ! i) \<and>
         phys_read h' r 0x2000 = Some 0x3003 \<and>
         (\<forall>va. unat va < 2 ^ 48 \<longrightarrow> walk (phys_read h' r) 0x2000 va = (if unat va < 2 ^ 30 then Some va else None)) \<and>
         kregs K (v_fd v) h' = Some (kvm_regs0\<lparr>rip := gl_entryPoint params, rsp := 0x200000, rflags := 2\<rparr>) \<and>
         ksregs K (v_fd v) h' = Some s \<and> long_mode 0x2000 s))"
  using laws(1-3) wrap
proof (cases rule: boot_cases [where vm = vm and n = "gl_memorySize params" and h = h])
  case (early ec vm1 h1)
  with params show ?thesis by (simp add: load_flat_boot GuestLoader_readFile_def)
next
  case (booted r v vm2 h3)
  let ?n = "gl_memorySize params"
  have room: "unat (0x2000 - m_guestPhysAddr r) + 0x3000 \<le> length (block h3 (m_hostAddr r))"
    using size booted(3-5) region_live_length [of h3 r] by (simp add: region_bytes_def)
  from write_tables_spec [OF room, of "0x2000"] booted(3) obtain h4 where
    w: "write_tables (m_hostAddr r) 0x2000 0x2000 h3 = Some h4"
    and outside: "same_outside 0x2000 0x5000 (m_hostAddr r) h3 h4"
    and tab: "tables_at h4 (m_hostAddr r) 0x2000 0x2000" by auto
  have "vm_memoryRegions vm2 = [r]" using booted(9) vm by simp
  moreover have "0x2000 < ?n" using size by (simp add: word_less_nat_alt)
  ultimately have b: "GuestLoader_buildIdentityPageTables vm2 0x2000 h3 = Some (ok_code, h4)"
    using booted(3,4) w by (simp add: GuestLoader_buildIdentityPageTables_def not_le [symmetric])
  obtain ec h5 where su: "GuestLoader_setup64BitVCpu K v (gl_entryPoint params) 0x2000 h4 = (ec, h5)" by fastforce
  note started = setup64Bit_spec [OF laws(4,3,5) su]
  have "GuestLoader_load K vm params h = Some (ec, vm2, h5)"
    using booted(1) b su params by (simp add: load_flat_boot GuestLoader_readFile_def)
  moreover have "region_bytes h5 r ! i = image_at ?n (gl_loadAddress params) code ! i"
    if "i < unat ?n" "i < 0x2000 \<or> 0x5000 \<le> i" for i
    using same_outside_nth [OF outside _ that(2)] that(1) booted(4-6) region_live_length [of h3 r] started(1)
    by (simp add: region_bytes_def block_def)
  moreover have "phys_read h5 r 0x2000 = Some 0x3003"
    using tab [unfolded tables_at_def, THEN conjunct1, rule_format, of 0] booted(3) phys_read_cong [OF started(1)]
    by (simp add: phys_read_def c64.dec_enc)
  moreover have "walk (phys_read h5 r) 0x2000 va = (if unat va < 2 ^ 30 then Some va else None)" if "unat va < 2 ^ 48" for va
    using tables_walk [of h4 r "0x2000" va] tab booted(3) that phys_read_cong [OF started(1)] by simp
  ultimately show ?thesis using \<open>vm_memoryRegions vm2 = [r]\<close> booted(10) started(2) by blast
qed

section \<open>Arguments that do not fit\<close>

text \<open>C38: the loader checks only that the table address lies in a region. When fewer than three pages
  follow it there, building the tables writes past the end of the mapping: it is undefined.\<close>

theorem tables_overrun:
  assumes "find (\<lambda>r. m_guestPhysAddr r \<le> base \<and> base < m_guestPhysAddr r + m_size r) (vm_memoryRegions vm) = Some r"
    and "region_live h r" and "unat (m_size r) < unat (base - m_guestPhysAddr r) + 0x3000"
  shows "GuestLoader_buildIdentityPageTables vm base h = None"
proof -
  let ?p = "m_hostAddr r" and ?off = "unat (base - m_guestPhysAddr r)"
  have short: "length (block h ?p) < ?off + 0x3000"
    using assms(2,3) region_live_length [of h r] by (simp add: region_bytes_def)
  have "write_tables ?p ?off base h = None"
  proof (rule ccontr)
    assume "write_tables ?p ?off base h \<noteq> None"
    then obtain h1 h2 h3 where "heap_store h ?p ?off (replicate 4096 0) = Some h1"
      "heap_store h1 ?p (?off + 0x1000) (replicate 4096 0) = Some h2"
      "heap_store h2 ?p (?off + 0x2000) (replicate 4096 0) = Some h3"
      by (auto simp: write_tables_def Let_def split: Option.bind_splits)
    then have "?off + 0x2000 + 4096 \<le> length (block h ?p)"
      using hb.st_iff [of h2 ?p "?off + 0x2000" "replicate 4096 0"] hb.st_size by (metis length_replicate)
    with short show False by simp
  qed
  with assms(1) show ?thesis by (simp add: GuestLoader_buildIdentityPageTables_def build_in_regions_find)
qed

theorem tables_overrun_witness:
  "GuestLoader_buildIdentityPageTables (demo_vm\<lparr>vm_memoryRegions := [demo_ram]\<rparr>) 0x6000 demo_ram_host = None"
  by (rule tables_overrun [where r = demo_ram, OF _ demo_ram_live]) (simp_all add: demo_ram_def)

text \<open>C39: the size check of \<^verbatim>\<open>loadBytes\<close> adds in 64 bits. A load address so high that address plus length
  wraps around to a small number passes the check of the loader and the assertion of the region, and
  the copy then writes far outside the mapping: loading is undefined.\<close>

theorem loadBytes_wraps:
  assumes laws: "mem_laws K" "mapping_law K" "errno_law K"
    and "VirtualMachine_addMemoryRegion K 0 memory_size 0 vm h = (Inr i, vm1, h1)"
    and "length code < 2 ^ 64" and "2 ^ 64 \<le> unat load_addr + length code"
    and "load_addr + of_nat (length code) \<le> memory_size"
  shows "GuestLoader_loadBytes K vm code load_addr memory_size h = None"
  using laws assms(4)
proof (cases rule: addMemoryRegion_cases)
  case (added r)
  have "unat memory_size < unat load_addr + length code"
    using assms(6) unsigned_less [of memory_size, where ?'a = nat] by simp
  then have "heap_store h1 (m_hostAddr r) (unat load_addr) code = None"
    using hb.st_none_iff [of h1 "m_hostAddr r"] added(6) by (simp add: region_bytes_def)
  moreover have "vm_memoryRegions vm1 ! i = r" using added(1,2) by simp
  ultimately have "boot K vm code load_addr memory_size h = None"
    using assms(4,7) added(4) by (simp add: boot_def MemoryRegion_write_def not_less)
  then show ?thesis by (simp add: loadBytes_boot)
qed simp

section \<open>Witnesses\<close>

definition demo_empty :: VirtualMachine where
  "demo_empty = \<lparr>vm_fd = 4, vm_vcpuMmapSize = 16, vm_nextSlot = 0, vm_memoryRegions = [], vm_vcpus = []\<rparr>"

lemmas boot_eval = boot_def VirtualMachine_addMemoryRegion_def MemoryRegion_create_def VirtualMachine_addVCpu_def
  VCpu_create_def MemoryRegion_write_def heap_store_def store_at_def block_def sim_defs demo_host_defs demo_empty_def
  MAP_FAILED_def errno_defs

theorem loadBytes_wraps_witness:
  "GuestLoader_loadBytes sim_kernel demo_empty [0xF4, 0xF4] 0xFFFFFFFFFFFFFFFF 0x1000 (demo_host []) = None"
proof -
  obtain i vm1 h1 where add: "VirtualMachine_addMemoryRegion sim_kernel 0 0x1000 0 demo_empty (demo_host []) = (Inr i, vm1, h1)"
    by (simp add: boot_eval)
  show ?thesis
    by (rule loadBytes_wraps [OF sim_mem_laws sim_mapping_law sim_errno_law add]) simp_all
qed

theorem loadBytes_spec_witness:
  "\<exists>ec vm' h'. GuestLoader_loadBytes sim_kernel demo_empty [0xE4, 0x60, 0xF4] 0x10 0x20 (demo_host []) = Some (ec, vm', h') \<and>
    ec = ok_code \<and>
    (\<exists>r v. vm_memoryRegions vm' = [r] \<and> vm_vcpus vm' = [v] \<and>
      region_bytes h' r = image_at 0x20 0x10 [0xE4, 0x60, 0xF4] \<and>
      kregs sim_kernel (v_fd v) h' = Some (kvm_regs0\<lparr>rip := 0x10, rsp := 0xFFF0, rflags := 2\<rparr>))"
proof -
  let ?load = "GuestLoader_loadBytes sim_kernel demo_empty [0xE4, 0x60, 0xF4] 0x10 0x20 (demo_host [])"
  have ok: "map_option fst ?load = Some ok_code"
    by (simp add: loadBytes_boot boot_eval GuestLoader_setupRealModeVCpu_def VCpu_getSregs_def VCpu_setSregs_def
        VCpu_setRegs_def)
  have "unat (0x10 :: u64) + length [0xE4, 0x60, 0xF4 :: byte] < 2 ^ 64" by simp
  from loadBytes_spec [OF sim_mem_laws sim_mapping_law sim_errno_law sim_reg_laws sim_get_errno_law this,
      of demo_empty "0x20" "demo_host []"]
  obtain ec vm' h' where l: "?load = Some (ec, vm', h')"
    and spec: "ec = ok_code \<longrightarrow> (\<exists>r v s. vm_memoryRegions vm' = [r] \<and>
         region_bytes h' r = image_at 0x20 0x10 [0xE4, 0x60, 0xF4] \<and> vm_vcpus vm' = [v] \<and>
         kregs sim_kernel (v_fd v) h' = Some (kvm_regs0\<lparr>rip := 0x10, rsp := 0xFFF0, rflags := 2\<rparr>) \<and>
         ksregs sim_kernel (v_fd v) h' = Some s)"
    by (auto simp: demo_empty_def)
  from ok l have "ec = ok_code" by simp
  with l spec show ?thesis by blast
qed

theorem load_flat_spec_witness:
  "\<exists>ec vm' h'. GuestLoader_load sim_kernel demo_empty
       \<lparr>gl_imagePath = ''guest.bin'', gl_mode = GLM_FlatBinary, gl_loadAddress = 0x6000, gl_entryPoint = 0x6000, gl_memorySize = 0x8000\<rparr>
       (demo_host []) = Some (ec, vm', h') \<and>
    (ec = ok_code \<longrightarrow> (\<exists>r. vm_memoryRegions vm' = [r] \<and> walk (phys_read h' r) 0x2000 0x6000 = Some 0x6000))"
proof -
  let ?p = "\<lparr>gl_imagePath = ''guest.bin'', gl_mode = GLM_FlatBinary, gl_loadAddress = 0x6000, gl_entryPoint = 0x6000, gl_memorySize = 0x8000\<rparr>"
  have "gl_mode ?p = GLM_FlatBinary" "file_bytes sim_kernel (gl_imagePath ?p) (demo_host []) = Some [0xE4, 0x60, 0x31, 0xC0, 0x0F, 0xA2, 0xF4, 0x00]"
    "[0xE4, 0x60, 0x31, 0xC0, 0x0F, 0xA2, 0xF4, 0x00 :: byte] \<noteq> []"
    "unat (gl_loadAddress ?p) + length [0xE4, 0x60, 0x31, 0xC0, 0x0F, 0xA2, 0xF4, 0x00 :: byte] < 2 ^ 64"
    "vm_memoryRegions demo_empty = []" "0x5000 \<le> unat (gl_memorySize ?p)"
    by (simp_all add: demo_empty_def)
  from load_flat_spec [OF sim_mem_laws sim_mapping_law sim_errno_law sim_reg_laws sim_get_errno_law this] obtain ec vm' h' where
    l: "GuestLoader_load sim_kernel demo_empty ?p (demo_host []) = Some (ec, vm', h')"
    and w: "ec = ok_code \<longrightarrow> (\<exists>r. vm_memoryRegions vm' = [r] \<and>
      (\<forall>va. unat va < 2 ^ 48 \<longrightarrow> walk (phys_read h' r) 0x2000 va = (if unat va < 2 ^ 30 then Some va else None)))" by blast
  have "unat (0x6000 :: u64) < 2 ^ 30" "unat (0x6000 :: u64) < 2 ^ 48" by simp_all
  with l w show ?thesis by metis
qed

end
