(* ===== verification/Text_Format.thy ===== *)
theory Text_Format
  imports Hv_Prelude
begin

text \<open>
  How the standard streams print numbers: \<^verbatim>\<open>std::dec\<close>, \<^verbatim>\<open>std::hex\<close> with and without \<^verbatim>\<open>std::uppercase\<close>, and
  bytes with \<^verbatim>\<open>std::setw(2)\<close> and \<^verbatim>\<open>std::setfill('0')\<close>; reading the text back gives the number. The
  format fields \<^verbatim>\<open>{}\<close>, \<^verbatim>\<open>{:x}\<close> and \<^verbatim>\<open>{:08x}\<close> of \<^verbatim>\<open>std::println\<close> print the same way. What a program has
  written to its two standard streams is the list of the pieces it wrote, in order.
\<close>

abbreviation (input) nl :: char where "nl \<equiv> CHR 0x0A"
abbreviation (input) dq :: char where "dq \<equiv> CHR 0x22"

definition digit_chars :: "bool \<Rightarrow> string" where
  "digit_chars upper = (if upper then ''0123456789ABCDEF'' else ''0123456789abcdef'')"

definition digit_char :: "bool \<Rightarrow> nat \<Rightarrow> char" where
  "digit_char upper d = digit_chars upper ! d"

fun hex_nat :: "bool \<Rightarrow> nat \<Rightarrow> string" where
  "hex_nat upper n =
     (if n < 16 then [digit_char upper n] else hex_nat upper (n div 16) @ [digit_char upper (n mod 16)])"

fun dec_nat :: "nat \<Rightarrow> string" where
  "dec_nat n = (if n < 10 then [digit_char False n] else dec_nat (n div 10) @ [digit_char False (n mod 10)])"

definition dec_int :: "int \<Rightarrow> string" where
  "dec_int i = (if i < 0 then CHR ''-'' # dec_nat (nat (- i)) else dec_nat (nat i))"

definition hex_word :: "bool \<Rightarrow> 'a::len word \<Rightarrow> string" where
  "hex_word upper w = hex_nat upper (unat w)"

definition dec_word :: "'a::len word \<Rightarrow> string" where
  "dec_word w = dec_nat (unat w)"

text \<open>At least \<open>n\<close> digits, padded with zeros.\<close>

definition hex_pad :: "nat \<Rightarrow> 'a::len word \<Rightarrow> string" where
  "hex_pad n w = (let s = hex_word False w in replicate (n - length s) CHR ''0'' @ s)"

text \<open>Two digits, padded with a zero.\<close>

definition hex_byte :: "byte \<Rightarrow> string" where
  "hex_byte b = (let s = hex_word False b in replicate (2 - length s) CHR ''0'' @ s)"

declare hex_nat.simps [simp del] dec_nat.simps [simp del]

section \<open>Standard output and standard error\<close>

datatype stream = Stdout | Stderr

type_synonym console = "(stream \<times> string) list"

definition print_on :: "stream \<Rightarrow> string \<Rightarrow> console \<Rightarrow> console" where
  "print_on s text c = c @ [(s, text)]"

definition println_on :: "stream \<Rightarrow> string \<Rightarrow> console \<Rightarrow> console" where
  "println_on s text c = print_on s (text @ [nl]) c"

text \<open>The pieces that begin with a given tag.\<close>

definition tagged :: "string \<Rightarrow> console \<Rightarrow> console" where
  "tagged tag c = filter (\<lambda>(s, text). take (length tag) text = tag) c"

lemma tagged_print:
  "tagged tag (print_on s text c) = tagged tag c @ (if take (length tag) text = tag then [(s, text)] else [])"
  by (simp add: tagged_def print_on_def)

section \<open>Reading back\<close>

definition digit_value :: "char \<Rightarrow> nat" where
  "digit_value c = (let n = of_char c :: nat in
     if n < 58 then n - 48 else if n < 71 then n - 55 else n - 87)"

definition read_base :: "nat \<Rightarrow> string \<Rightarrow> nat" where
  "read_base base s = foldl (\<lambda>acc c. base * acc + digit_value c) 0 s"

lemma digit_value_char: "d < 16 \<Longrightarrow> digit_value (digit_char upper d) = d"
proof -
  assume "d < 16"
  then have "d \<in> set [0 ..< 16]" by simp
  moreover have "\<forall>d \<in> set [0 ..< 16]. digit_value (digit_char upper d) = d"
    by (cases upper) (simp_all add: digit_value_def digit_char_def digit_chars_def upt_rec)
  ultimately show ?thesis by blast
qed

lemma read_hex: "read_base 16 (hex_nat upper n) = n"
proof (induction upper n rule: hex_nat.induct)
  case (1 upper n)
  then show ?case
    by (subst hex_nat.simps) (auto simp: read_base_def digit_value_char)
qed

lemma read_dec: "read_base 10 (dec_nat n) = n"
proof (induction n rule: dec_nat.induct)
  case (1 n)
  then show ?case
    by (subst dec_nat.simps) (auto simp: read_base_def digit_value_char)
qed

lemma hex_word_inj: "hex_word upper v = hex_word upper w \<longleftrightarrow> v = (w :: 'a::len word)"
  by (metis hex_word_def read_hex word_unat_eq_iff)

lemma hex_word_zero: "hex_word upper 0 = ''0''"
  by (simp add: hex_word_def hex_nat.simps [of upper 0] digit_char_def digit_chars_def)

text \<open>Every character of a printed number is a digit, so it never needs an escape.\<close>

lemma digit_char_mem: "d < 16 \<Longrightarrow> digit_char upper d \<in> set (digit_chars upper)"
proof -
  assume "d < 16"
  then have "d < length (digit_chars upper)" by (simp add: digit_chars_def)
  then show ?thesis unfolding digit_char_def by (rule nth_mem)
qed

lemma hex_nat_chars: "set (hex_nat upper n) \<subseteq> set (digit_chars upper)"
proof (induction upper n rule: hex_nat.induct)
  case (1 upper n)
  then show ?case by (subst hex_nat.simps) (auto simp: digit_char_mem)
qed

lemma dec_nat_chars: "set (dec_nat n) \<subseteq> set (digit_chars False)"
proof (induction n rule: dec_nat.induct)
  case (1 n)
  then show ?case by (subst dec_nat.simps) (auto simp: digit_char_mem)
qed

lemma hex_byte_eq: "hex_byte b = [digit_char False (unat b div 16), digit_char False (unat b mod 16)]"
proof (cases "unat b < 16")
  case True
  then show ?thesis
    by (simp add: hex_byte_def hex_word_def hex_nat.simps [of False "unat b"] Let_def) (simp add: digit_char_def digit_chars_def)
next
  case False
  moreover have "unat b div 16 < 16" using unsigned_less [of b, where ?'a = nat] by simp
  ultimately show ?thesis
    by (simp add: hex_byte_def hex_word_def hex_nat.simps [of False "unat b"] hex_nat.simps [of False "unat b div 16"] Let_def)
qed

fun read_bytes :: "string \<Rightarrow> byte list" where
  "read_bytes (c # d # s) = of_nat (16 * digit_value c + digit_value d) # read_bytes s"
| "read_bytes _ = []"

lemma read_hex_bytes: "read_bytes (concat (map hex_byte bs)) = bs"
proof (induction bs)
  case (Cons b bs)
  have "unat b div 16 < 16" using unsigned_less [of b, where ?'a = nat] by simp
  then have "of_nat (16 * digit_value (digit_char False (unat b div 16)) + digit_value (digit_char False (unat b mod 16))) = b"
    by (simp add: digit_value_char mult.commute)
  with Cons show ?case by (simp add: hex_byte_eq)
qed simp

end
