(* ===== verification/Vmi_Agent.thy ===== *)
theory Vmi_Agent
  imports Virtual_Machine Event_Dispatcher Exit_Interface Text_Format
begin

text \<open>
  \<^verbatim>\<open>class VmiAgent\<close> (include/hv/VmiAgent.h, src/VmiAgent.cpp): a listener of the event dispatcher that
  adds a register snapshot, a memory dump and a one-line summary to every event, keeps the log, and
  writes it out as JSON. The agent is captured by the handler it subscribes, so it is part of the
  application's state, next to the state \<open>'u\<close> that its own callbacks work on. The machine behind
  \<^verbatim>\<open>m_vm\<close> is part of the agent's record, a null pointer is \<^const>\<open>None\<close>.
\<close>

section \<open>Model\<close>

record GuestSnapshot =
  gs_rip :: u64
  gs_rsp :: u64
  gs_rax :: u64
  gs_rbx :: u64
  gs_rcx :: u64
  gs_rdx :: u64
  gs_rsi :: u64
  gs_rdi :: u64
  gs_r8 :: u64
  gs_r9 :: u64
  gs_r10 :: u64
  gs_r11 :: u64
  gs_r12 :: u64
  gs_r13 :: u64
  gs_r14 :: u64
  gs_r15 :: u64
  gs_rflags :: u64
  gs_cr0 :: u64
  gs_cr3 :: u64
  gs_cr4 :: u64
  gs_timestamp :: int

definition GuestSnapshot0 :: GuestSnapshot where
  "GuestSnapshot0 = \<lparr>gs_rip = 0, gs_rsp = 0, gs_rax = 0, gs_rbx = 0, gs_rcx = 0, gs_rdx = 0, gs_rsi = 0,
     gs_rdi = 0, gs_r8 = 0, gs_r9 = 0, gs_r10 = 0, gs_r11 = 0, gs_r12 = 0, gs_r13 = 0, gs_r14 = 0, gs_r15 = 0,
     gs_rflags = 0, gs_cr0 = 0, gs_cr3 = 0, gs_cr4 = 0, gs_timestamp = 0\<rparr>"

record IntrospectionEvent =
  ie_base :: HvEvent
  ie_snapshot :: GuestSnapshot
  ie_memDump :: "byte list option"
  ie_summary :: string

type_synonym ('k, 'u) IntrospectionCallback =
  "IntrospectionEvent \<Rightarrow> 'k host \<times> 'u \<Rightarrow> ('k host \<times> 'u) option"

record ('k, 'u) VmiAgent =
  vmi_vm :: "VirtualMachine option"
  vmi_dispatch :: bool \<comment> \<open>the dispatcher's pointer is not null\<close>
  vmi_callbacks :: "('k, 'u) IntrospectionCallback list"
  vmi_eventLog :: "IntrospectionEvent list"
  vmi_subId :: u32
  vmi_memDumpEnabled :: bool
  vmi_memDumpAddr :: u64
  vmi_memDumpSize :: u64

record ('k, 'u) agent_app =
  aa_agent :: "('k, 'u) VmiAgent"
  aa_user :: 'u

type_synonym ('k, 'u) agent_env = "('k, ('k, 'u) agent_app) env"

definition VmiAgent_onEvent :: "('k, 'u) IntrospectionCallback \<Rightarrow> ('k, 'u) VmiAgent \<Rightarrow> ('k, 'u) VmiAgent" where
  "VmiAgent_onEvent cb a = a\<lparr>vmi_callbacks := vmi_callbacks a @ [cb]\<rparr>"

definition VmiAgent_enableMemoryDump :: "u64 \<Rightarrow> u64 \<Rightarrow> ('k, 'u) VmiAgent \<Rightarrow> ('k, 'u) VmiAgent" where
  "VmiAgent_enableMemoryDump guest_phys_addr nbytes a =
     a\<lparr>vmi_memDumpEnabled := True, vmi_memDumpAddr := guest_phys_addr, vmi_memDumpSize := nbytes\<rparr>"

definition VmiAgent_disableMemoryDump :: "('k, 'u) VmiAgent \<Rightarrow> ('k, 'u) VmiAgent" where
  "VmiAgent_disableMemoryDump a = a\<lparr>vmi_memDumpEnabled := False\<rparr>"

text \<open>
  The search for a region compares wrapped sums; a copy from outside the mapping is undefined. The
  result is empty when no region matches.
\<close>

fun read_in_regions :: "MemoryRegion list \<Rightarrow> u64 \<Rightarrow> u64 \<Rightarrow> 'k host \<Rightarrow> byte list option" where
  "read_in_regions [] guest_phys_addr nbytes h = Some []"
| "read_in_regions (region # regions) guest_phys_addr nbytes h =
     (let base = m_guestPhysAddr region; end_addr = base + m_size region in
      if guest_phys_addr \<ge> base \<and> guest_phys_addr + nbytes \<le> end_addr
      then heap_load h (m_hostAddr region) (unat (guest_phys_addr - base)) (unat nbytes)
      else read_in_regions regions guest_phys_addr nbytes h)"

definition VmiAgent_readGuestPhysMemory ::
  "('k, 'u) VmiAgent \<Rightarrow> u64 \<Rightarrow> u64 \<Rightarrow> 'k host \<Rightarrow> byte list option" where
  "VmiAgent_readGuestPhysMemory a guest_phys_addr nbytes h =
     (case vmi_vm a of
        None \<Rightarrow> Some []
      | Some vm \<Rightarrow> read_in_regions (vm_memoryRegions vm) guest_phys_addr nbytes h)"

text \<open>Both register files are read before either result is looked at.\<close>

definition VmiAgent_snapshotRegisters ::
  "'k kernel \<Rightarrow> ('k, 'u) VmiAgent \<Rightarrow> u32 \<Rightarrow> 'k host \<Rightarrow> GuestSnapshot option \<times> 'k host" where
  "VmiAgent_snapshotRegisters K a vcpu_index h =
     (case vmi_vm a of
        None \<Rightarrow> (None, h)
      | Some vm \<Rightarrow>
          if unat vcpu_index \<ge> length (vm_vcpus vm) then (None, h)
          else
            let vcpu = vm_vcpus vm ! unat vcpu_index;
                (regsResult, h1) = VCpu_getRegs K vcpu h;
                (sregsResult, h2) = VCpu_getSregs K vcpu h1
            in case (regsResult, sregsResult) of
                 (Inr r, Inr sr) \<Rightarrow>
                   let (now, h3) = clock_now K h2
                   in (Some \<lparr>gs_rip = rip r, gs_rsp = rsp r, gs_rax = rax r, gs_rbx = rbx r, gs_rcx = rcx r,
                        gs_rdx = rdx r, gs_rsi = rsi r, gs_rdi = rdi r, gs_r8 = r8 r, gs_r9 = r9 r, gs_r10 = r10 r,
                        gs_r11 = r11 r, gs_r12 = r12 r, gs_r13 = r13 r, gs_r14 = r14 r, gs_r15 = r15 r,
                        gs_rflags = rflags r, gs_cr0 = sr_cr0 sr, gs_cr3 = sr_cr3 sr, gs_cr4 = sr_cr4 sr,
                        gs_timestamp = now\<rparr>, h3)
               | _ \<Rightarrow> (None, h2))"

text \<open>Numbers are printed in upper-case hexadecimal, the vCPU's included, sizes in decimal.\<close>

definition payload_summary :: "EventType \<Rightarrow> EventPayload \<Rightarrow> string" where
  "payload_summary type payload = (case payload of
       PL_Cpuid p \<Rightarrow> ''CPUID leaf=0x'' @ hex_word True (cpe_leaf p) @ '' sub=0x'' @ hex_word True (cpe_subleaf p) @
         '' => EAX=0x'' @ hex_word True (cpe_eax p) @ '' EBX=0x'' @ hex_word True (cpe_ebx p) @
         '' ECX=0x'' @ hex_word True (cpe_ecx p) @ '' EDX=0x'' @ hex_word True (cpe_edx p)
     | PL_Io p \<Rightarrow> (if ioe_isWrite p then ''OUT'' else ''IN'') @ '' port=0x'' @ hex_word True (ioe_port p) @
         '' size='' @ dec_word (ioe_size p) @ ''B'' @ '' value=0x'' @ hex_word True (ioe_value p)
     | PL_Msr p \<Rightarrow> (if mse_isWrite p then ''WRMSR'' else ''RDMSR'') @ '' index=0x'' @ hex_word True (mse_index p) @
         '' value=0x'' @ hex_word True (mse_value p)
     | PL_Mmio p \<Rightarrow> (if mme_isWrite p then ''MMIO-WR'' else ''MMIO-RD'') @ '' gpa=0x'' @
         hex_word True (mme_guest_phys_addr p) @ '' size='' @ dec_word (mme_size p) @ ''B'' @
         '' value=0x'' @ hex_word True (mme_value p)
     | PL_Monostate \<Rightarrow> (case type of
           ET_GuestHalt \<Rightarrow> ''HLT''
         | ET_GuestShutdown \<Rightarrow> ''SHUTDOWN''
         | _ \<Rightarrow> ''EVENT''))"

definition VmiAgent_buildSummary :: "HvEvent \<Rightarrow> GuestSnapshot \<Rightarrow> string" where
  "VmiAgent_buildSummary event snap =
     ''[VCPU'' @ hex_word True (ev_vcpu_id event) @ ''] RIP=0x'' @ hex_word True (gs_rip snap) @ '' | '' @
     payload_summary (ev_type event) (ev_payload event)"

definition VmiAgent_handleHvEvent ::
  "'k kernel \<Rightarrow> HvEvent \<Rightarrow> ('k, 'u) agent_env \<Rightarrow> ('k, 'u) agent_env option" where
  "VmiAgent_handleHvEvent K event e = do {
     let a = aa_agent (e_app e);
     let (snap, h1) = VmiAgent_snapshotRegisters K a (ev_vcpu_id event) (e_host e);
     let snapshot = (case snap of None \<Rightarrow> GuestSnapshot0 | Some s \<Rightarrow> s);
     dump \<leftarrow> (if vmi_memDumpEnabled a
             then VmiAgent_readGuestPhysMemory a (vmi_memDumpAddr a) (vmi_memDumpSize a) h1 else Some []);
     let ie = \<lparr>ie_base = event, ie_snapshot = snapshot,
               ie_memDump = (if dump \<noteq> [] then Some dump else None),
               ie_summary = VmiAgent_buildSummary event snapshot\<rparr>;
     (h2, u2) \<leftarrow> run_all (vmi_callbacks a) ie (h1, aa_user (e_app e));
     Some \<lparr>e_host = h2, e_app = \<lparr>aa_agent = a\<lparr>vmi_eventLog := vmi_eventLog a @ [ie]\<rparr>, aa_user = u2\<rparr>\<rparr>
   }"

text \<open>The constructor subscribes the handler, the destructor unsubscribes it.\<close>

definition VmiAgent_new ::
  "'k kernel \<Rightarrow> VirtualMachine option \<Rightarrow> ('k, 'u) agent_env EventDispatcher option \<Rightarrow>
     ('k, 'u) VmiAgent \<times> ('k, 'u) agent_env EventDispatcher option" where
  "VmiAgent_new K vm dispatcher =
     (let a = \<lparr>vmi_vm = vm, vmi_dispatch = (dispatcher \<noteq> None), vmi_callbacks = [], vmi_eventLog = [],
               vmi_subId = 0, vmi_memDumpEnabled = False, vmi_memDumpAddr = 0, vmi_memDumpSize = 0\<rparr>
      in case dispatcher of
           None \<Rightarrow> (a, None)
         | Some d \<Rightarrow> let (i, d') = EventDispatcher_subscribeAll (VmiAgent_handleHvEvent K) d
                   in (a\<lparr>vmi_subId := i\<rparr>, Some d'))"

definition VmiAgent_release ::
  "('k, 'u) VmiAgent \<Rightarrow> ('k, 'u) agent_env EventDispatcher \<Rightarrow> ('k, 'u) agent_env EventDispatcher" where
  "VmiAgent_release a d =
     (if vmi_dispatch a \<and> vmi_subId a \<noteq> 0 then EventDispatcher_unsubscribe (vmi_subId a) d else d)"

text \<open>
  The defaulted moves go member by member. A moved-from vector is empty after move construction, every other
  member is copied: the pointers, and the subscription's identifier. Of a move assignment only the target's
  new value is specified.
\<close>

definition VmiAgent_move :: "('k, 'u) VmiAgent \<Rightarrow> ('k, 'u) VmiAgent \<times> ('k, 'u) VmiAgent" where
  "VmiAgent_move other = (other, other\<lparr>vmi_callbacks := [], vmi_eventLog := []\<rparr>)"

definition VmiAgent_assign :: "('k, 'u) VmiAgent \<Rightarrow> ('k, 'u) VmiAgent \<Rightarrow> ('k, 'u) VmiAgent" where
  "VmiAgent_assign this other = other"

section \<open>The log as JSON text\<close>

text \<open>\<^verbatim>\<open>duration_cast<milliseconds>\<close> of a number of nanoseconds rounds towards zero.\<close>

definition milliseconds :: "int \<Rightarrow> int" where
  "milliseconds t = (if t < 0 then - ((- t) div 1000000) else t div 1000000)"

definition entry_text :: "bool \<Rightarrow> IntrospectionEvent \<Rightarrow> string" where
  "entry_text sep ie =
     ''  {'' @ [nl] @
     ''    '' @ [dq] @ ''timestamp'' @ [dq] @ '': '' @ dec_int (milliseconds (gs_timestamp (ie_snapshot ie))) @ '','' @ [nl] @
     ''    '' @ [dq] @ ''vcpu_id'' @ [dq] @ '': '' @ dec_word (ev_vcpu_id (ie_base ie)) @ '','' @ [nl] @
     ''    '' @ [dq] @ ''rip'' @ [dq] @ '': '' @ [dq] @ ''0x'' @ hex_word False (gs_rip (ie_snapshot ie)) @ [dq] @ '','' @ [nl] @
     ''    '' @ [dq] @ ''summary'' @ [dq] @ '': '' @ [dq] @ ie_summary ie @ [dq] @
     (case ie_memDump ie of
        None \<Rightarrow> []
      | Some bytes \<Rightarrow> '','' @ [nl] @ ''    '' @ [dq] @ ''mem_dump'' @ [dq] @ '': '' @ [dq] @
          concat (map hex_byte bytes) @ [dq]) @
     [nl] @ ''  }'' @ (if sep then '','' else []) @ [nl]"

fun entries_text :: "IntrospectionEvent list \<Rightarrow> string" where
  "entries_text [] = []"
| "entries_text (ie # ies) = entry_text (ies \<noteq> []) ie @ entries_text ies"

text \<open>
  The file is a parameter: opening it for writing may fail, writing appends text to it.
\<close>

definition VmiAgent_dumpEventLog ::
  "(string \<Rightarrow> 'k host \<Rightarrow> bool \<times> 'k host) \<Rightarrow> (string \<Rightarrow> string \<Rightarrow> 'k host \<Rightarrow> 'k host) \<Rightarrow>
     ('k, 'u) VmiAgent \<Rightarrow> string \<Rightarrow> 'k host \<Rightarrow> 'k host" where
  "VmiAgent_dumpEventLog open_out write_out a path h =
     (let (ok, h1) = open_out path h in
      if \<not> ok then h1
      else write_out path (''['' @ [nl] @ entries_text (vmi_eventLog a) @ '']'' @ [nl]) h1)"

section \<open>Reading guest memory\<close>

text \<open>The region covers the range, as unwrapped numbers.\<close>

definition covers :: "u64 \<Rightarrow> u64 \<Rightarrow> MemoryRegion \<Rightarrow> bool" where
  "covers gpa n r \<longleftrightarrow> unat (m_guestPhysAddr r) \<le> unat gpa \<and>
     unat gpa + unat n \<le> unat (m_guestPhysAddr r) + unat (m_size r)"

definition region_placed :: "'k host \<Rightarrow> MemoryRegion \<Rightarrow> bool" where
  "region_placed h r \<longleftrightarrow> region_live h r \<and> unat (m_guestPhysAddr r) + unat (m_size r) < 2 ^ 64"

lemma read_in_regions_cong: "h_heap h' = h_heap h \<Longrightarrow> read_in_regions rs gpa n h' = read_in_regions rs gpa n h"
  by (induction rs) (simp_all add: Let_def heap_load_def block_def)

lemma covers_test:
  assumes "region_placed h r" and "unat gpa + unat n < 2 ^ 64"
  shows "m_guestPhysAddr r \<le> gpa \<and> gpa + n \<le> m_guestPhysAddr r + m_size r \<longleftrightarrow> covers gpa n r"
proof -
  have "unat (m_guestPhysAddr r + m_size r) = unat (m_guestPhysAddr r) + unat (m_size r)"
    "unat (gpa + n) = unat gpa + unat n"
    using assms by (simp_all add: region_placed_def unat_add_no_wrap)
  then show ?thesis by (simp add: covers_def word_le_nat_alt)
qed

lemma covers_offset:
  "covers gpa n r \<Longrightarrow> unat gpa - unat (m_guestPhysAddr r) + unat n \<le> unat (m_size r)"
  unfolding covers_def by linarith

lemma unat_offset: "b \<le> (a :: u64) \<Longrightarrow> unat (a - b) = unat a - unat b"
  by (simp add: unat_sub)

lemma read_in_regions_find:
  assumes "\<forall>r \<in> set rs. region_placed h r" and "unat gpa + unat n < 2 ^ 64"
  shows "read_in_regions rs gpa n h = Some (case find (covers gpa n) rs of
      None \<Rightarrow> []
    | Some r \<Rightarrow> take (unat n) (drop (unat gpa - unat (m_guestPhysAddr r)) (region_bytes h r)))"
  using assms
proof (induction rs)
  case (Cons r rs)
  note test = covers_test [of h r gpa n]
  show ?case
  proof (cases "covers gpa n r")
    case True
    then have "m_guestPhysAddr r \<le> gpa" by (simp add: covers_def word_le_nat_alt)
    then have "unat (gpa - m_guestPhysAddr r) = unat gpa - unat (m_guestPhysAddr r)" by (rule unat_offset)
    moreover have "length (region_bytes h r) = unat (m_size r)"
      using Cons.prems(1) by (simp add: region_placed_def region_live_length)
    ultimately show ?thesis
      using True covers_offset [OF True] test Cons.prems
      by (simp add: Let_def heap_load_def load_at_def region_bytes_def del: Nat.diff_add_assoc2)
  qed (use Cons test in \<open>auto simp: Let_def\<close>)
qed simp

text \<open>C23: reading guest memory is defined for every range that does not wrap around, when the machine's
  regions are mapped and lie below the end of the address space: the result is the bytes of the first
  region that covers the whole range, the same as that region's own \<^verbatim>\<open>read\<close>, and empty when no single
  region covers it.\<close>

theorem readGuestPhys_spec:
  assumes "vmi_vm a = Some vm" and "\<forall>r \<in> set (vm_memoryRegions vm). region_placed h r"
    and "unat gpa + unat n < 2 ^ 64"
  shows "VmiAgent_readGuestPhysMemory a gpa n h =
    (case find (covers gpa n) (vm_memoryRegions vm) of
       None \<Rightarrow> Some []
     | Some r \<Rightarrow> MemoryRegion_read r (gpa - m_guestPhysAddr r) (unat n) h)"
proof (cases "find (covers gpa n) (vm_memoryRegions vm)")
  case None
  with assms show ?thesis by (simp add: VmiAgent_readGuestPhysMemory_def read_in_regions_find)
next
  case (Some r)
  then have r: "r \<in> set (vm_memoryRegions vm)" "covers gpa n r"
    by (auto simp: find_Some_iff)
  have le: "m_guestPhysAddr r \<le> gpa" using r(2) by (simp add: covers_def word_le_nat_alt)
  note off = unat_offset [OF le]
  have len: "length (region_bytes h r) = unat (m_size r)"
    using assms(2) r(1) by (simp add: region_placed_def region_live_length)
  have in_r: "unat gpa - unat (m_guestPhysAddr r) + unat n \<le> unat (m_size r)"
    by (rule covers_offset [OF r(2)])
  then have "unat (gpa - m_guestPhysAddr r) + unat n < 2 ^ 64"
    using off unsigned_less [of "m_size r", where ?'a = nat] by simp
  then have "gpa - m_guestPhysAddr r + n \<le> m_size r"
    using in_r off by (simp add: word_le_nat_alt unat_add_no_wrap)
  with Some assms off len in_r show ?thesis
    by (simp add: VmiAgent_readGuestPhysMemory_def read_in_regions_find MemoryRegion_read_def heap_load_def
        load_at_def region_bytes_def)
qed

text \<open>The comparison of wrapped sums lets a range through that starts at or above the first region
  and runs over the end of the address space: the copy then leaves the mapping.\<close>

theorem readGuestPhys_wraps:
  assumes "vmi_vm a = Some vm" and "vm_memoryRegions vm = r # rs" and "region_placed h r"
    and "m_guestPhysAddr r \<le> gpa" and "2 ^ 64 \<le> unat gpa + unat n"
    and "unat gpa + unat n - 2 ^ 64 \<le> unat (m_guestPhysAddr r) + unat (m_size r)"
  shows "VmiAgent_readGuestPhysMemory a gpa n h = None"
proof -
  have lt: "unat gpa < 2 ^ 64" "unat n < 2 ^ 64"
    using unsigned_less [of gpa, where ?'a = nat] unsigned_less [of n, where ?'a = nat] by simp_all
  have "unat (gpa + n) = unat gpa + unat n - 2 ^ 64"
    using assms(5) lt by (simp add: unat_word_ariths mod_if)
  moreover have "unat (m_guestPhysAddr r + m_size r) = unat (m_guestPhysAddr r) + unat (m_size r)"
    using assms(3) by (simp add: region_placed_def unat_add_no_wrap)
  ultimately have test: "gpa + n \<le> m_guestPhysAddr r + m_size r"
    using assms(6) by (simp add: word_le_nat_alt)
  have "length (block h (m_hostAddr r)) = unat (m_size r)"
    using assms(3) region_live_length [of h r] by (simp add: region_placed_def region_bytes_def)
  moreover have "unat (m_size r) < unat (gpa - m_guestPhysAddr r) + unat n"
    using assms(3-5) unfolding unat_offset [OF assms(4)] region_placed_def word_le_nat_alt by linarith
  ultimately have "heap_load h (m_hostAddr r) (unat (gpa - m_guestPhysAddr r)) (unat n) = None"
    by (simp add: hb.ld_none_iff)
  with test assms(1,2,4) show ?thesis by (simp add: VmiAgent_readGuestPhysMemory_def Let_def)
qed

section \<open>Enriching an event\<close>

definition snapshot_of :: "kvm_regs \<Rightarrow> kvm_sregs \<Rightarrow> int \<Rightarrow> GuestSnapshot" where
  "snapshot_of r sr now =
     \<lparr>gs_rip = rip r, gs_rsp = rsp r, gs_rax = rax r, gs_rbx = rbx r, gs_rcx = rcx r,
      gs_rdx = rdx r, gs_rsi = rsi r, gs_rdi = rdi r, gs_r8 = r8 r, gs_r9 = r9 r, gs_r10 = r10 r,
      gs_r11 = r11 r, gs_r12 = r12 r, gs_r13 = r13 r, gs_r14 = r14 r, gs_r15 = r15 r,
      gs_rflags = rflags r, gs_cr0 = sr_cr0 sr, gs_cr3 = sr_cr3 sr, gs_cr4 = sr_cr4 sr, gs_timestamp = now\<rparr>"

text \<open>Introspection does not disturb the guest.\<close>

definition undisturbed :: "'k kernel \<Rightarrow> 'k host \<Rightarrow> 'k host \<Rightarrow> bool" where
  "undisturbed K h h' \<longleftrightarrow> h_heap h' = h_heap h \<and> h_runs h' = h_runs h \<and>
     (\<forall>fd. kregs K fd h' = kregs K fd h \<and> ksregs K fd h' = ksregs K fd h)"

lemma snapshotRegisters_frame:
  assumes laws: "reg_laws K" "clock_frame K" and s: "VmiAgent_snapshotRegisters K a i h = (snap, h')"
  shows "undisturbed K h h'"
proof -
  have "undisturbed K h h" by (simp add: undisturbed_def)
  moreover have "undisturbed K h h'"
    if vm: "vmi_vm a = Some vm" and i: "\<not> length (vm_vcpus vm) \<le> unat i" for vm
  proof -
    let ?v = "vm_vcpus vm ! unat i"
    obtain g h1 where g: "VCpu_getRegs K ?v h = (g, h1)" by fastforce
    obtain g' h2 where g': "VCpu_getSregs K ?v h1 = (g', h2)" by fastforce
    obtain now h3 where c: "clock_now K h2 = (now, h3)" by fastforce
    have "undisturbed K h h2"
      using getRegs_kregs(2-5) [OF laws(1) g] getSregs_ksregs(2-5) [OF laws(1) g'] by (simp add: undisturbed_def)
    moreover from this have "undisturbed K h h3"
      using laws(2) [unfolded clock_frame_def, rule_format, OF c] by (simp add: undisturbed_def)
    ultimately show ?thesis
      using s vm i g g' c by (auto simp: VmiAgent_snapshotRegisters_def split: sum.splits)
  qed
  ultimately show ?thesis using s by (auto simp: VmiAgent_snapshotRegisters_def split: option.splits if_splits)
qed

lemma snapshotRegisters_regs:
  assumes laws: "reg_laws K" and vm: "vmi_vm a = Some vm" "unat i < length (vm_vcpus vm)"
    and regs: "kregs K (v_fd (vm_vcpus vm ! unat i)) h = Some r" "ksregs K (v_fd (vm_vcpus vm ! unat i)) h = Some sr"
  shows "\<exists>now. fst (VmiAgent_snapshotRegisters K a i h) = Some (snapshot_of r sr now)"
proof -
  let ?v = "vm_vcpus vm ! unat i"
  obtain g h1 where g: "VCpu_getRegs K ?v h = (g, h1)" by fastforce
  obtain g' h2 where g': "VCpu_getSregs K ?v h1 = (g', h2)" by fastforce
  obtain now h3 where c: "clock_now K h2 = (now, h3)" by fastforce
  have "g = Inr r" "g' = Inr sr"
    using getRegs_kregs(1,5) [OF laws g] getSregs_ksregs(1) [OF laws g'] regs by (auto split: sum.splits)
  with vm g g' c show ?thesis by (simp add: VmiAgent_snapshotRegisters_def snapshot_of_def)
qed

lemma handle_eq:
  assumes "VmiAgent_snapshotRegisters K (aa_agent (e_app e)) (ev_vcpu_id event) (e_host e) = (snap, h1)"
    and "(if vmi_memDumpEnabled (aa_agent (e_app e))
      then VmiAgent_readGuestPhysMemory (aa_agent (e_app e)) (vmi_memDumpAddr (aa_agent (e_app e)))
        (vmi_memDumpSize (aa_agent (e_app e))) h1 else Some []) = Some dump"
    and "s = (case snap of None \<Rightarrow> GuestSnapshot0 | Some s \<Rightarrow> s)"
    and "ie = \<lparr>ie_base = event, ie_snapshot = s, ie_memDump = (if dump \<noteq> [] then Some dump else None),
         ie_summary = VmiAgent_buildSummary event s\<rparr>"
  shows "VmiAgent_handleHvEvent K event e =
    map_option (\<lambda>(h2, u2). \<lparr>e_host = h2, e_app = \<lparr>aa_agent = (aa_agent (e_app e))\<lparr>vmi_eventLog :=
        vmi_eventLog (aa_agent (e_app e)) @ [ie]\<rparr>, aa_user = u2\<rparr>\<rparr>)
      (run_all (vmi_callbacks (aa_agent (e_app e))) ie (h1, aa_user (e_app e)))"
  unfolding VmiAgent_handleHvEvent_def Let_def assms(1) prod.case assms(2) Option.bind.bind_lunit assms(3,4)
  by (simp only: map_conv_bind_option split_def comp_def)

text \<open>C20: an event of a vCPU whose registers can be read is logged exactly once, after all earlier
  ones, with the registers the vCPU has at that moment, the configured memory dump and the summary;
  then every callback is called with that record, in registration order. Looking at the guest changes
  neither its registers nor any mapping.\<close>

theorem handle_logs_one:
  assumes laws: "reg_laws K" "clock_frame K"
    and a: "aa_agent (e_app e) = a" and vm: "vmi_vm a = Some vm" "unat (ev_vcpu_id event) < length (vm_vcpus vm)"
    and regs: "kregs K (v_fd (vm_vcpus vm ! unat (ev_vcpu_id event))) (e_host e) = Some r"
      "ksregs K (v_fd (vm_vcpus vm ! unat (ev_vcpu_id event))) (e_host e) = Some sr"
    and dump: "VmiAgent_readGuestPhysMemory a (vmi_memDumpAddr a) (vmi_memDumpSize a) (e_host e) = Some bytes"
  shows "\<exists>now h1 ie. ie = \<lparr>ie_base = event, ie_snapshot = snapshot_of r sr now,
       ie_memDump = (if vmi_memDumpEnabled a \<and> bytes \<noteq> [] then Some bytes else None),
       ie_summary = VmiAgent_buildSummary event (snapshot_of r sr now)\<rparr> \<and>
     undisturbed K (e_host e) h1 \<and>
     VmiAgent_handleHvEvent K event e =
       map_option (\<lambda>(h2, u2). \<lparr>e_host = h2, e_app = \<lparr>aa_agent = a\<lparr>vmi_eventLog := vmi_eventLog a @ [ie]\<rparr>, aa_user = u2\<rparr>\<rparr>)
         (run_all (vmi_callbacks a) ie (h1, aa_user (e_app e)))"
proof -
  obtain snap h1 where s: "VmiAgent_snapshotRegisters K a (ev_vcpu_id event) (e_host e) = (snap, h1)" by fastforce
  obtain now where snap: "snap = Some (snapshot_of r sr now)"
    using snapshotRegisters_regs [OF laws(1) vm regs] s by auto
  have und: "undisturbed K (e_host e) h1" by (rule snapshotRegisters_frame [OF laws s])
  then have "VmiAgent_readGuestPhysMemory a (vmi_memDumpAddr a) (vmi_memDumpSize a) h1 = Some bytes"
    using dump read_in_regions_cong [of h1 "e_host e"] by (simp add: VmiAgent_readGuestPhysMemory_def vm undisturbed_def)
  then have d: "(if vmi_memDumpEnabled a then VmiAgent_readGuestPhysMemory a (vmi_memDumpAddr a) (vmi_memDumpSize a) h1
      else Some []) = Some (if vmi_memDumpEnabled a then bytes else [])" by simp
  let ?ie = "\<lparr>ie_base = event, ie_snapshot = snapshot_of r sr now,
       ie_memDump = (if vmi_memDumpEnabled a \<and> bytes \<noteq> [] then Some bytes else None),
       ie_summary = VmiAgent_buildSummary event (snapshot_of r sr now)\<rparr>"
  note eq = handle_eq [of K e event, unfolded a, OF s d, of "snapshot_of r sr now" ?ie]
  show ?thesis
  proof (intro exI [of _ now] exI [of _ h1] exI [of _ ?ie] conjI)
    show "VmiAgent_handleHvEvent K event e =
       map_option (\<lambda>(h2, u2). \<lparr>e_host = h2, e_app = \<lparr>aa_agent = a\<lparr>vmi_eventLog := vmi_eventLog a @ [?ie]\<rparr>, aa_user = u2\<rparr>\<rparr>)
         (run_all (vmi_callbacks a) ?ie (h1, aa_user (e_app e)))"
      by (rule eq) (simp_all add: snap)
  qed (rule refl, rule und)
qed

section \<open>The agent as a listener\<close>

definition log_of :: "('k, 'u) agent_env \<Rightarrow> HvEvent list" where
  "log_of e = map ie_base (vmi_eventLog (aa_agent (e_app e)))"

definition keeps_agent :: "(HvEvent \<Rightarrow> ('k, 'u) agent_env \<Rightarrow> ('k, 'u) agent_env option) \<Rightarrow> bool" where
  "keeps_agent f \<longleftrightarrow> (\<forall>ev e e'. f ev e = Some e' \<longrightarrow> aa_agent (e_app e') = aa_agent (e_app e))"

lemma handle_log:
  assumes "VmiAgent_handleHvEvent K ev e = Some e'"
  shows "\<exists>ie. ie_base ie = ev \<and> ie_summary ie = VmiAgent_buildSummary ev (ie_snapshot ie) \<and>
    aa_agent (e_app e') = (aa_agent (e_app e))\<lparr>vmi_eventLog := vmi_eventLog (aa_agent (e_app e)) @ [ie]\<rparr>"
proof -
  let ?a = "aa_agent (e_app e)"
  obtain snap h1 where s: "VmiAgent_snapshotRegisters K ?a (ev_vcpu_id ev) (e_host e) = (snap, h1)" by fastforce
  then obtain dump where "(if vmi_memDumpEnabled ?a
      then VmiAgent_readGuestPhysMemory ?a (vmi_memDumpAddr ?a) (vmi_memDumpSize ?a) h1 else Some []) = Some dump"
    using assms by (auto simp: VmiAgent_handleHvEvent_def Let_def split: Option.bind_splits)
  note eq = trans [OF handle_eq [OF s this refl refl, symmetric] assms]
  let ?s = "case snap of None \<Rightarrow> GuestSnapshot0 | Some s \<Rightarrow> s"
  let ?ie = "\<lparr>ie_base = ev, ie_snapshot = ?s, ie_memDump = (if dump \<noteq> [] then Some dump else None),
    ie_summary = VmiAgent_buildSummary ev ?s\<rparr>"
  obtain z where z: "(case z of (h2, u2) \<Rightarrow> \<lparr>e_host = h2,
      e_app = \<lparr>aa_agent = ?a\<lparr>vmi_eventLog := vmi_eventLog ?a @ [?ie]\<rparr>, aa_user = u2\<rparr>\<rparr>) = e'"
    using eq unfolding map_option_eq_Some by (elim exE conjE)
  have "aa_agent (e_app e') = ?a\<lparr>vmi_eventLog := vmi_eventLog ?a @ [?ie]\<rparr>"
    unfolding z [symmetric] split_def by simp
  then show ?thesis by (intro exI [of _ ?ie]) simp
qed

lemma log_of_handle: "VmiAgent_handleHvEvent K ev e = Some e' \<Longrightarrow> log_of e' = log_of e @ [ev]"
  using handle_log [of K ev e e'] by (auto simp: log_of_def)

lemma run_all_keeps_agent:
  "\<forall>f \<in> set fs. keeps_agent f \<Longrightarrow> run_all fs ev e = Some e' \<Longrightarrow> log_of e' = log_of e"
  by (induction fs arbitrary: e) (auto simp: keeps_agent_def log_of_def split: Option.bind_splits)

text \<open>The dispatcher has the agent's handler once, among listeners that leave the agent alone.\<close>

definition agent_subscribed :: "'k kernel \<Rightarrow> ('k, 'u) agent_env EventDispatcher \<Rightarrow> bool" where
  "agent_subscribed K d \<longleftrightarrow> (\<exists>before after i.
     d_subscriptions d = before @ \<lparr>sub_id = i, sub_filter = None, sub_handler = VmiAgent_handleHvEvent K\<rparr> # after \<and>
     (\<forall>s \<in> set before \<union> set after. keeps_agent (sub_handler s)))"

lemma publish_logs:
  assumes "agent_subscribed K d" and "EventDispatcher_publish d ev e = Some (d', e')"
  shows "log_of e' = log_of e @ [ev] \<and> agent_subscribed K d' \<and> d_publishedCount d' = d_publishedCount d + 1"
proof -
  from assms(1) obtain before after i where
    subs: "d_subscriptions d = before @ \<lparr>sub_id = i, sub_filter = None, sub_handler = VmiAgent_handleHvEvent K\<rparr> # after"
    and quiet: "\<forall>s \<in> set before \<union> set after. keeps_agent (sub_handler s)"
    unfolding agent_subscribed_def by blast
  let ?flt = "filter (\<lambda>s. sub_filter s \<in> {None, Some (ev_type ev)})"
  from assms(2) have d': "d' = d\<lparr>d_publishedCount := d_publishedCount d + 1\<rparr>" and
    run: "run_all (map sub_handler (matching d ev)) ev e = Some e'"
    using bus.publish_runs [of d ev e] by auto
  have "map sub_handler (matching d ev) =
      map sub_handler (?flt before) @ VmiAgent_handleHvEvent K # map sub_handler (?flt after)"
    by (simp add: matching_def subs)
  with run obtain e1 e2 where
    r: "run_all (map sub_handler (?flt before)) ev e = Some e1" "VmiAgent_handleHvEvent K ev e1 = Some e2"
      "run_all (map sub_handler (?flt after)) ev e2 = Some e'"
    by (auto simp: run_all_append split: Option.bind_splits)
  have "log_of e1 = log_of e" "log_of e' = log_of e2"
    using quiet by (auto intro!: run_all_keeps_agent [OF _ r(1)] run_all_keeps_agent [OF _ r(3)])
  with log_of_handle [OF r(2)] have "log_of e' = log_of e @ [ev]" by simp
  with assms(1) d' show ?thesis by (simp add: agent_subscribed_def)
qed

text \<open>C21: as long as the other listeners leave the agent alone, the agent's log is the complete history:
  publishing any sequence of events appends exactly these events, in order, and the dispatcher's
  count grows by their number.\<close>

theorem log_complete:
  assumes "agent_subscribed K d" and "bus.publish_list d evs e = Some (d', e')"
  shows "log_of e' = log_of e @ evs \<and> d_publishedCount d' = d_publishedCount d + of_nat (length evs)"
  using assms
proof (induction evs arbitrary: d e)
  case (Cons ev evs)
  then obtain d1 e1 where p: "EventDispatcher_publish d ev e = Some (d1, e1)"
    and rest: "bus.publish_list d1 evs e1 = Some (d', e')" by (auto split: Option.bind_splits)
  from publish_logs [OF Cons.prems(1) p] Cons.IH [OF _ rest] show ?case by simp
qed simp

text \<open>C24: constructing an agent on a dispatcher adds its handler as the last listener of every event;
  destroying it leaves the dispatcher with the listeners it had before, for every event. An agent
  without a dispatcher subscribes and unsubscribes nothing.\<close>

theorem agent_lifetime:
  assumes "dispatcher_reach n d" and "n < 2 ^ 32 - 1"
  shows "\<exists>a d'. VmiAgent_new K vm (Some d) = (a, Some d') \<and> vmi_subId a \<noteq> 0 \<and>
    (\<forall>ev. map sub_handler (matching d' ev) = map sub_handler (matching d ev) @ [VmiAgent_handleHvEvent K]) \<and>
    d_subscriptions (VmiAgent_release a d') = d_subscriptions d \<and>
    VmiAgent_release (fst (VmiAgent_new K vm None)) d' = d'"
proof -
  let ?s = "EventDispatcher_subscribeAll (VmiAgent_handleHvEvent K) d"
  have wf: "dispatcher_wf d" and i: "unat (d_nextId d) = Suc n"
    using dispatcher_reach_wf [OF assms] by simp_all
  have "d_nextId d \<noteq> 0" using i by auto
  with unsubscribe_fresh [OF wf] bus.listeners_subscribe [of "VmiAgent_handleHvEvent K" d] show ?thesis
    by (intro exI [of _ "fst (VmiAgent_new K vm (Some d))"] exI [of _ "snd ?s"])
      (auto simp: VmiAgent_new_def VmiAgent_release_def EventDispatcher_unsubscribe_def subscribeAll_simps Let_def split_beta)
qed

text \<open>
  Moving an agent does not move its subscription: destroying the moved-from object takes the listener away
  from the agent that was moved to, whose own destructor then finds nothing to unsubscribe.
\<close>

lemma unsubscribe_twice:
  "EventDispatcher_unsubscribe i (EventDispatcher_unsubscribe i d) = EventDispatcher_unsubscribe i d"
  by (simp add: EventDispatcher_unsubscribe_def)

lemma moved_agent_unsubscribed:
  assumes "dispatcher_reach n d" and "n < 2 ^ 32 - 1" and new: "VmiAgent_new K vm (Some d) = (a, Some d')"
    and move: "VmiAgent_move a = (b, a')"
  shows "d_subscriptions (VmiAgent_release a' d') = d_subscriptions d"
    and "d_subscriptions (VmiAgent_release b (VmiAgent_release a' d')) = d_subscriptions d"
proof -
  let ?s = "EventDispatcher_subscribeAll (VmiAgent_handleHvEvent K) d"
  have wf: "dispatcher_wf d" and i: "unat (d_nextId d) = Suc n"
    using dispatcher_reach_wf [OF assms(1,2)] by simp_all
  have "d_nextId d \<noteq> 0" using i by auto
  with new move have ids: "vmi_subId a' = fst ?s" "vmi_subId b = fst ?s" "vmi_dispatch a'" "vmi_dispatch b" "vmi_subId b \<noteq> 0" "d' = snd ?s"
    by (auto simp: VmiAgent_new_def VmiAgent_move_def subscribeAll_simps Let_def split_beta)
  with unsubscribe_fresh [OF wf] show gone: "d_subscriptions (VmiAgent_release a' d') = d_subscriptions d"
    by (simp add: VmiAgent_release_def EventDispatcher_unsubscribe_def subscribeAll_simps)
  with ids gone show "d_subscriptions (VmiAgent_release b (VmiAgent_release a' d')) = d_subscriptions d"
    by (simp add: VmiAgent_release_def unsubscribe_twice)
qed

text \<open>
  The event the trapper publishes for a guest's shutdown has no payload of its own: its summary
  describes a CPUID access of leaf 0.
\<close>

lemma shutdown_summary:
  "VmiAgent_buildSummary ((HvEvent0 ET_GuestShutdown)\<lparr>ev_vcpu_id := i, ev_timestamp := now\<rparr>) snap =
     ''[VCPU'' @ hex_word True i @ ''] RIP=0x'' @ hex_word True (gs_rip snap) @
     '' | CPUID leaf=0x0 sub=0x0 => EAX=0x0 EBX=0x0 ECX=0x0 EDX=0x0''"
  by (simp add: VmiAgent_buildSummary_def payload_summary_def HvEvent0_def CpuidEvent0_def hex_word_zero)

section \<open>When the handler returns\<close>

text \<open>
  Mapped regions by address and size; the agent's callbacks return and leave pages and mappings; a
  configured dump does not wrap around.
\<close>

definition region_mapped :: "(u64 \<rightharpoonup> nat) \<Rightarrow> MemoryRegion \<Rightarrow> bool" where
  "region_mapped shape r \<longleftrightarrow> m_hostAddr r \<noteq> 0 \<and> m_hostAddr r \<noteq> MAP_FAILED \<and>
     shape (m_hostAddr r) = Some (unat (m_size r))"

lemma region_live_shape: "region_live h r \<longleftrightarrow> region_mapped (heap_shape h) r"
  by (auto simp: region_live_def region_mapped_def heap_shape_def)

definition callback_quiet :: "('k, 'u) IntrospectionCallback \<Rightarrow> bool" where
  "callback_quiet cb \<longleftrightarrow> (\<forall>ie h u. \<exists>h' u'. cb ie (h, u) = Some (h', u') \<and>
     h_runs h' = h_runs h \<and> heap_shape h' = heap_shape h)"

definition agent_inv :: "('k, 'u) VmiAgent \<Rightarrow> (u64 \<rightharpoonup> nat) \<Rightarrow> bool" where
  "agent_inv a shape \<longleftrightarrow>
     (vmi_memDumpEnabled a \<longrightarrow> unat (vmi_memDumpAddr a) + unat (vmi_memDumpSize a) < 2 ^ 64 \<and>
        (\<forall>vm. vmi_vm a = Some vm \<longrightarrow> (\<forall>r \<in> set (vm_memoryRegions vm). region_mapped shape r \<and>
           unat (m_guestPhysAddr r) + unat (m_size r) < 2 ^ 64))) \<and>
     (\<forall>cb \<in> set (vmi_callbacks a). callback_quiet cb)"

lemma run_all_quiet:
  assumes "\<forall>cb \<in> set cbs. callback_quiet cb"
  shows "\<exists>h' u'. run_all cbs ie (h, u) = Some (h', u') \<and> h_runs h' = h_runs h \<and> heap_shape h' = heap_shape h"
  using assms
proof (induction cbs arbitrary: h u)
  case (Cons cb cbs)
  then have "callback_quiet cb" by simp
  then obtain h1 u1 where "cb ie (h, u) = Some (h1, u1)" "h_runs h1 = h_runs h" "heap_shape h1 = heap_shape h"
    unfolding callback_quiet_def by blast
  with Cons.IH [of h1 u1] Cons.prems show ?case by simp
qed simp

lemma dump_defined:
  assumes "agent_inv a (heap_shape h)"
  shows "\<exists>dump. (if vmi_memDumpEnabled a
    then VmiAgent_readGuestPhysMemory a (vmi_memDumpAddr a) (vmi_memDumpSize a) h else Some []) = Some dump"
proof (cases "vmi_vm a")
  case None
  then show ?thesis by (simp add: VmiAgent_readGuestPhysMemory_def)
next
  case (Some vm)
  show ?thesis
  proof (cases "vmi_memDumpEnabled a")
    case True
    with assms Some have "\<forall>r \<in> set (vm_memoryRegions vm). region_placed h r"
      and "unat (vmi_memDumpAddr a) + unat (vmi_memDumpSize a) < 2 ^ 64"
      by (simp_all add: agent_inv_def region_placed_def region_live_shape)
    from read_in_regions_find [OF this] True Some show ?thesis by (simp add: VmiAgent_readGuestPhysMemory_def)
  qed simp
qed

lemma handle_returns:
  assumes laws: "reg_laws K" "clock_frame K" and inv: "agent_inv (aa_agent (e_app e)) (heap_shape (e_host e))"
  shows "\<exists>e' ie. VmiAgent_handleHvEvent K ev e = Some e' \<and>
    h_runs (e_host e') = h_runs (e_host e) \<and> heap_shape (e_host e') = heap_shape (e_host e) \<and>
    aa_agent (e_app e') = (aa_agent (e_app e))\<lparr>vmi_eventLog := vmi_eventLog (aa_agent (e_app e)) @ [ie]\<rparr>"
proof -
  let ?a = "aa_agent (e_app e)"
  obtain snap h1 where s: "VmiAgent_snapshotRegisters K ?a (ev_vcpu_id ev) (e_host e) = (snap, h1)" by fastforce
  have h1: "heap_shape h1 = heap_shape (e_host e)" "h_runs h1 = h_runs (e_host e)"
    using snapshotRegisters_frame [OF laws s] by (simp_all add: undisturbed_def heap_shape_def)
  then obtain dump where d: "(if vmi_memDumpEnabled ?a
      then VmiAgent_readGuestPhysMemory ?a (vmi_memDumpAddr ?a) (vmi_memDumpSize ?a) h1 else Some []) = Some dump"
    using dump_defined [of ?a h1] inv by auto
  let ?s = "case snap of None \<Rightarrow> GuestSnapshot0 | Some s \<Rightarrow> s"
  let ?ie = "\<lparr>ie_base = ev, ie_snapshot = ?s, ie_memDump = (if dump \<noteq> [] then Some dump else None),
    ie_summary = VmiAgent_buildSummary ev ?s\<rparr>"
  obtain h2 u2 where "run_all (vmi_callbacks ?a) ?ie (h1, aa_user (e_app e)) = Some (h2, u2)"
    "h_runs h2 = h_runs h1" "heap_shape h2 = heap_shape h1"
    using run_all_quiet [of "vmi_callbacks ?a" ?ie h1 "aa_user (e_app e)"] inv by (auto simp: agent_inv_def)
  with handle_eq [OF s d refl refl] h1 show ?thesis
    by (intro exI [of _ "\<lparr>e_host = h2, e_app = \<lparr>aa_agent = ?a\<lparr>vmi_eventLog := vmi_eventLog ?a @ [?ie]\<rparr>, aa_user = u2\<rparr>\<rparr>"]
        exI [of _ ?ie]) simp
qed

lemma agent_inv_log [simp]: "agent_inv (a\<lparr>vmi_eventLog := l\<rparr>) shape = agent_inv a shape"
  by (simp add: agent_inv_def)

section \<open>A concrete agent\<close>

text \<open>An agent on the machine of theory \<open>Virtual_Machine\<close>, with a dump of three bytes and a counting callback.\<close>

definition demo_agent :: "(sim, nat) VmiAgent" where
  "demo_agent = VmiAgent_enableMemoryDump 1 3 (VmiAgent_onEvent (\<lambda>ie (h, n). Some (h, n + 1))
     (fst (VmiAgent_new sim_kernel (Some demo_vm) None)))"

lemmas demo_agent_defs = demo_agent_def VmiAgent_new_def VmiAgent_onEvent_def VmiAgent_enableMemoryDump_def

definition demo_agent_env :: "(sim, nat) agent_env" where
  "demo_agent_env = \<lparr>e_host = demo_host [], e_app = \<lparr>aa_agent = demo_agent, aa_user = 0\<rparr>\<rparr>"

lemma demo_agent_vm: "vmi_vm demo_agent = Some demo_vm" "vm_memoryRegions demo_vm = [demo_region]"
  by (simp_all add: demo_agent_defs demo_vm_def)

lemma demo_region_placed: "region_placed (demo_host []) demo_region"
  by (simp add: region_placed_def) (simp add: demo_region_def)

lemma demo_read: "VmiAgent_readGuestPhysMemory demo_agent 1 3 (demo_host []) = Some [2, 3, 4]"
  by (simp add: VmiAgent_readGuestPhysMemory_def demo_agent_vm demo_region_def heap_load_def load_at_def block_def
      demo_host_def)

theorem readGuestPhys_spec_witness:
  "find (covers 1 3) [demo_region] = Some demo_region \<and>
   VmiAgent_readGuestPhysMemory demo_agent 1 3 (demo_host []) = MemoryRegion_read demo_region 1 (unat (3 :: u64)) (demo_host []) \<and>
   VmiAgent_readGuestPhysMemory demo_agent 2 3 (demo_host []) = Some []"
proof -
  have "find (covers 1 3) [demo_region] = Some demo_region" "find (covers 2 3) [demo_region] = None"
    by (simp_all add: covers_def demo_region_def)
  with readGuestPhys_spec [OF demo_agent_vm(1), of "demo_host []" 1 3]
    readGuestPhys_spec [OF demo_agent_vm(1), of "demo_host []" 2 3]
  show ?thesis by (simp add: demo_agent_vm(2) demo_region_placed) (simp add: demo_region_def)
qed

theorem readGuestPhys_wraps_witness:
  "VmiAgent_readGuestPhysMemory demo_agent 0xFFFFFFFFFFFFFFFF 2 (demo_host []) = None"
  by (rule readGuestPhys_wraps [OF demo_agent_vm demo_region_placed]) (simp_all add: demo_region_def)

theorem handle_logs_one_witness:
  "\<exists>e' ie. VmiAgent_handleHvEvent sim_kernel (HvEvent0 ET_IoRead) demo_agent_env = Some e' \<and>
     vmi_eventLog (aa_agent (e_app e')) = [ie] \<and> aa_user (e_app e') = 1 \<and>
     ie_base ie = HvEvent0 ET_IoRead \<and> ie_memDump ie = Some [2, 3, 4] \<and> gs_rflags (ie_snapshot ie) = 2"
proof -
  let ?ev = "HvEvent0 ET_IoRead"
  have v: "unat (ev_vcpu_id ?ev) < length (vm_vcpus demo_vm)" "vm_vcpus demo_vm ! unat (ev_vcpu_id ?ev) = demo_vcpu"
    by (simp_all add: HvEvent0_def demo_vm_def)
  have regs: "kregs sim_kernel (v_fd demo_vcpu) (e_host demo_agent_env) = Some (kvm_regs0\<lparr>rflags := 2\<rparr>)"
    "ksregs sim_kernel (v_fd demo_vcpu) (e_host demo_agent_env) = Some kvm_sregs0"
    by (simp_all add: kregs_def ksregs_def demo_vcpu_def demo_agent_env_def demo_host_defs)
  have a: "aa_agent (e_app demo_agent_env) = demo_agent" "vmi_memDumpAddr demo_agent = 1" "vmi_memDumpSize demo_agent = 3"
    "vmi_memDumpEnabled demo_agent" "vmi_eventLog demo_agent = []" "aa_user (e_app demo_agent_env) = 0"
    by (simp_all add: demo_agent_env_def demo_agent_defs)
  have dump: "VmiAgent_readGuestPhysMemory demo_agent (vmi_memDumpAddr demo_agent) (vmi_memDumpSize demo_agent)
      (e_host demo_agent_env) = Some [2, 3, 4]"
    using demo_read by (simp add: a demo_agent_env_def)
  have cbs: "vmi_callbacks demo_agent = [\<lambda>ie (h, n). Some (h, n + 1)]" by (simp add: demo_agent_defs)
  obtain now h1 ie where ie: "ie = \<lparr>ie_base = ?ev, ie_snapshot = snapshot_of (kvm_regs0\<lparr>rflags := 2\<rparr>) kvm_sregs0 now,
       ie_memDump = (if vmi_memDumpEnabled demo_agent \<and> [2, 3, 4] \<noteq> ([] :: byte list) then Some [2, 3, 4] else None),
       ie_summary = VmiAgent_buildSummary ?ev (snapshot_of (kvm_regs0\<lparr>rflags := 2\<rparr>) kvm_sregs0 now)\<rparr>"
    and h: "VmiAgent_handleHvEvent sim_kernel ?ev demo_agent_env = map_option (\<lambda>(h2, u2). \<lparr>e_host = h2,
        e_app = \<lparr>aa_agent = demo_agent\<lparr>vmi_eventLog := vmi_eventLog demo_agent @ [ie]\<rparr>, aa_user = u2\<rparr>\<rparr>)
       (run_all (vmi_callbacks demo_agent) ie (h1, aa_user (e_app demo_agent_env)))"
    using handle_logs_one [OF sim_reg_laws sim_clock_frame a(1) demo_agent_vm(1) v(1) regs [folded v(2)] dump]
    by (elim exE conjE)
  have ies: "ie_base ie = ?ev" "ie_memDump ie = Some [2, 3, 4]" "gs_rflags (ie_snapshot ie) = 2"
    by (simp_all add: ie a snapshot_of_def)
  have "run_all (vmi_callbacks demo_agent) ie (h1, aa_user (e_app demo_agent_env)) = Some (h1, 1)"
    by (simp add: cbs a)
  with h ies show ?thesis by (simp add: a)
qed

definition demo_agent_bus :: "(sim, nat) agent_env EventDispatcher" where
  "demo_agent_bus = snd (EventDispatcher_subscribe ET_GuestHalt (\<lambda>ev e. Some e)
     (snd (EventDispatcher_subscribeAll (VmiAgent_handleHvEvent sim_kernel) EventDispatcher0)))"

lemma demo_agent_bus: "agent_subscribed sim_kernel demo_agent_bus"
  unfolding agent_subscribed_def
  by (rule exI [of _ "[]"], rule exI [of _ "[\<lparr>sub_id = 2, sub_filter = Some ET_GuestHalt, sub_handler = \<lambda>ev e. Some e\<rparr>]"],
      rule exI [of _ 1])
    (simp add: demo_agent_bus_def EventDispatcher_subscribe_def EventDispatcher_subscribeAll_def EventDispatcher0_def
      keeps_agent_def Let_def)

lemma demo_agent_inv: "agent_inv (aa_agent (e_app demo_agent_env)) (heap_shape (e_host demo_agent_env))"
proof -
  have "region_mapped (heap_shape (demo_host [])) demo_region"
    using demo_region_placed by (simp add: region_placed_def region_live_shape)
  then show ?thesis
    by (simp add: agent_inv_def demo_agent_env_def demo_agent_defs demo_vm_def callback_quiet_def) (simp add: demo_region_def)
qed

theorem log_complete_witness:
  "\<exists>d' e'. bus.publish_list demo_agent_bus [HvEvent0 ET_IoRead] demo_agent_env = Some (d', e') \<and>
     log_of e' = [HvEvent0 ET_IoRead] \<and> d_publishedCount d' = 1"
proof -
  obtain e' where h: "VmiAgent_handleHvEvent sim_kernel (HvEvent0 ET_IoRead) demo_agent_env = Some e'"
    using handle_returns [OF sim_reg_laws sim_clock_frame demo_agent_inv] by blast
  let ?d = "demo_agent_bus\<lparr>d_publishedCount := d_publishedCount demo_agent_bus + 1\<rparr>"
  have p: "bus.publish_list demo_agent_bus [HvEvent0 ET_IoRead] demo_agent_env = Some (?d, e')"
    using h by (simp add: EventDispatcher_publish_def demo_agent_bus_def EventDispatcher_subscribe_def
        EventDispatcher_subscribeAll_def EventDispatcher0_def HvEvent0_def Let_def)
  have "log_of demo_agent_env = []" "d_publishedCount demo_agent_bus = 0"
    by (simp_all add: log_of_def demo_agent_env_def demo_agent_defs demo_agent_bus_def EventDispatcher_subscribe_def
        EventDispatcher_subscribeAll_def EventDispatcher0_def Let_def)
  with log_complete [OF demo_agent_bus p] p show ?thesis by fastforce
qed

theorem agent_lifetime_witness:
  "\<exists>a d'. VmiAgent_new sim_kernel (Some demo_vm) (Some EventDispatcher0) = (a :: (sim, nat) VmiAgent, Some d') \<and>
     vmi_subId a \<noteq> 0 \<and> d_subscriptions (VmiAgent_release a d') = []"
  using agent_lifetime [OF reach_new, of sim_kernel "Some demo_vm"] by (auto simp: EventDispatcher0_def)

end
