(* ===== verification/Vmi_Log.thy ===== *)
theory Vmi_Log
  imports Vmi_Agent
begin

text \<open>
  The text that \<^verbatim>\<open>VmiAgent::dumpEventLog\<close> writes, read by a JSON tokenizer: the file is an array of
  objects with the log's fields. The agent never escapes a string, so this needs that no summary
  contains a quotation mark, a backslash or a control character.
\<close>

section \<open>Tokens\<close>

datatype token = TPunct char | TStr string | TNum string

definition white :: "char \<Rightarrow> bool" where
  "white c \<longleftrightarrow> c \<in> {CHR 0x20, CHR 0x09, CHR 0x0A, CHR 0x0D}"

definition numeric :: "char \<Rightarrow> bool" where
  "numeric c \<longleftrightarrow> c \<in> set ''-0123456789''"

text \<open>Strings without escapes, integer numbers, and single characters.\<close>

function tokens :: "string \<Rightarrow> token list" where
  "tokens [] = []"
| "tokens (c # s) =
     (if white c then tokens s
      else if c = dq then TStr (takeWhile (\<lambda>x. x \<noteq> dq) s) # tokens (drop 1 (dropWhile (\<lambda>x. x \<noteq> dq) s))
      else if numeric c then TNum (c # takeWhile numeric s) # tokens (dropWhile numeric s)
      else TPunct c # tokens s)"
  by pat_completeness auto
termination
  by (relation "measure length") (auto simp: less_Suc_eq_le intro: le_trans [OF diff_le_self] length_dropWhile_le)

declare tokens.simps(2) [simp del]

lemma lex_white: "white c \<Longrightarrow> tokens (c # s) = tokens s"
  by (simp add: tokens.simps)

lemma lex_punct: "\<not> white c \<Longrightarrow> c \<noteq> dq \<Longrightarrow> \<not> numeric c \<Longrightarrow> tokens (c # s) = TPunct c # tokens s"
  by (simp add: tokens.simps)

lemma lex_string:
  assumes "dq \<notin> set w"
  shows "tokens (dq # w @ dq # s) = TStr w # tokens s"
proof -
  have "\<forall>x \<in> set w. x \<noteq> dq" using assms by blast
  then show ?thesis by (simp add: tokens.simps white_def takeWhile_append2 dropWhile_append2)
qed

lemma lex_number:
  assumes "w \<noteq> []" and "\<forall>x \<in> set w. numeric x" and "\<not> numeric c"
  shows "tokens (w @ c # s) = TNum w # tokens (c # s)"
proof -
  from assms(1) obtain x w' where w: "w = x # w'" by (cases w) auto
  have "numeric x" using assms(2) by (simp add: w)
  then have "\<not> white x" "x \<noteq> dq" by (auto simp: numeric_def white_def)
  with assms(2,3) show ?thesis
    by (simp add: w tokens.simps(2) [of x] takeWhile_append2 dropWhile_append2)
qed

lemma lex_blanks: "\<forall>c \<in> set w. white c \<Longrightarrow> tokens (w @ s) = tokens s"
  by (induction w) (simp_all add: lex_white)

section \<open>Strings that need no escape\<close>

definition plain_char :: "char \<Rightarrow> bool" where
  "plain_char c \<longleftrightarrow> c \<noteq> dq \<and> c \<noteq> CHR 0x5C \<and> (32 :: nat) \<le> of_char c \<and> (of_char c :: nat) < 127"

definition plain :: "string \<Rightarrow> bool" where
  "plain s \<longleftrightarrow> (\<forall>c \<in> set s. plain_char c)"

lemma plain_simps [simp]: "plain []" "plain (c # s) \<longleftrightarrow> plain_char c \<and> plain s"
  by (simp_all add: plain_def)

lemma plain_append [simp]: "plain (s @ t) \<longleftrightarrow> plain s \<and> plain t"
  by (auto simp: plain_def)

lemma plain_subset: "set s \<subseteq> set t \<Longrightarrow> plain t \<Longrightarrow> plain s"
  by (auto simp: plain_def)

lemma plain_digits: "plain (digit_chars upper)"
  by (simp add: digit_chars_def plain_char_def)

lemma plain_hex [simp]: "plain (hex_word upper w)"
  unfolding hex_word_def by (rule plain_subset [OF hex_nat_chars plain_digits])

lemma plain_dec [simp]: "plain (dec_word w)"
  unfolding dec_word_def by (rule plain_subset [OF dec_nat_chars plain_digits])

lemma plain_payload: "plain (payload_summary t p)"
  by (cases p; cases t) (simp_all add: payload_summary_def plain_char_def)

lemma plain_summary: "plain (VmiAgent_buildSummary ev snap)"
  by (simp add: VmiAgent_buildSummary_def plain_payload plain_char_def)

lemma plain_no_quote: "plain s \<Longrightarrow> dq \<notin> set s"
  by (auto simp: plain_def plain_char_def)

lemma plain_bytes: "plain (concat (map hex_byte bs))"
proof (induction bs)
  case (Cons b bs)
  have "unat b div 16 < 16" using unsigned_less [of b, where ?'a = nat] by simp
  then have "plain (hex_byte b)"
    unfolding hex_byte_eq by (intro plain_subset [OF _ plain_digits [of False]]) (simp add: digit_char_mem)
  with Cons show ?case by simp
qed simp

section \<open>Numbers\<close>

lemma dec_nat_nonempty: "dec_nat n \<noteq> []"
  by (subst dec_nat.simps) simp

lemma dec_nat_numeric: "\<forall>c \<in> set (dec_nat n). numeric c"
proof (induction n rule: dec_nat.induct)
  case (1 n)
  have "d < 10 \<Longrightarrow> numeric (digit_char False d)" for d
  proof -
    assume "d < 10"
    then have "d \<in> set [0 ..< 10]" by simp
    moreover have "\<forall>d \<in> set [0 ..< 10]. numeric (digit_char False d)"
      by (simp add: numeric_def digit_char_def digit_chars_def upt_rec)
    ultimately show ?thesis by blast
  qed
  with 1 show ?case by (subst dec_nat.simps) auto
qed

lemma dec_int_number: "dec_int i \<noteq> []" "\<forall>c \<in> set (dec_int i). numeric c"
  using dec_nat_numeric by (auto simp: dec_int_def dec_nat_nonempty numeric_def)

lemma dec_word_number: "dec_word w \<noteq> []" "\<forall>c \<in> set (dec_word w). numeric c"
  using dec_nat_numeric by (auto simp: dec_word_def dec_nat_nonempty)

section \<open>The document\<close>

text \<open>The tokens of an object with these members, and of an array of objects.\<close>

fun member_tokens :: "(string \<times> token) list \<Rightarrow> token list" where
  "member_tokens [] = []"
| "member_tokens ((k, v) # ms) =
     TStr k # TPunct CHR '':'' # v # (if ms = [] then [] else TPunct CHR '','' # member_tokens ms)"

definition object_tokens :: "(string \<times> token) list \<Rightarrow> token list" where
  "object_tokens ms = TPunct CHR ''{'' # member_tokens ms @ [TPunct CHR ''}'']"

fun array_tokens :: "(string \<times> token) list list \<Rightarrow> token list" where
  "array_tokens [] = []"
| "array_tokens (ob # obs) = object_tokens ob @ (if obs = [] then [] else TPunct CHR '','' # array_tokens obs)"

definition entry_members :: "IntrospectionEvent \<Rightarrow> (string \<times> token) list" where
  "entry_members ie =
     [(''timestamp'', TNum (dec_int (milliseconds (gs_timestamp (ie_snapshot ie))))),
      (''vcpu_id'', TNum (dec_word (ev_vcpu_id (ie_base ie)))),
      (''rip'', TStr (''0x'' @ hex_word False (gs_rip (ie_snapshot ie)))),
      (''summary'', TStr (ie_summary ie))] @
     (case ie_memDump ie of None \<Rightarrow> [] | Some bytes \<Rightarrow> [(''mem_dump'', TStr (concat (map hex_byte bytes)))])"

lemmas lex_chars = lex_white lex_punct white_def numeric_def

lemma lex_quoted: "plain w \<Longrightarrow> tokens (dq # w @ dq # s) = TStr w # tokens s"
  by (rule lex_string) (rule plain_no_quote)

lemma lex_entry:
  assumes "plain (ie_summary ie)"
  shows "tokens (entry_text sep ie @ s) =
    object_tokens (entry_members ie) @ (if sep then TPunct CHR '','' # tokens s else tokens s)"
proof -
  note keys = lex_string [of "''timestamp''"] lex_string [of "''vcpu_id''"] lex_string [of "''rip''"]
    lex_string [of "''summary''"] lex_string [of "''mem_dump''"]
  note nums = lex_number [OF dec_int_number, of "CHR '',''"] lex_number [OF dec_word_number, of "CHR '',''"]
  have rip: "tokens (dq # CHR ''0'' # CHR ''x'' # hex_word False (gs_rip (ie_snapshot ie)) @ dq # s) =
      TStr (''0x'' @ hex_word False (gs_rip (ie_snapshot ie))) # tokens s" for s
    using lex_quoted [of "''0x'' @ hex_word False (gs_rip (ie_snapshot ie))" s] by (simp add: plain_char_def)
  show ?thesis
    by (simp add: entry_text_def entry_members_def object_tokens_def lex_chars keys [simplified] nums rip
        lex_quoted [OF assms] lex_quoted [OF plain_bytes] split: option.split)
qed

lemma lex_entries:
  "\<forall>ie \<in> set ies. plain (ie_summary ie) \<Longrightarrow>
     tokens (entries_text ies @ s) = array_tokens (map entry_members ies) @ tokens s"
  by (induction ies) (simp_all add: lex_entry)

text \<open>What the members say, as numbers, bytes and text again.\<close>

definition read_int :: "string \<Rightarrow> int" where
  "read_int s = (if s \<noteq> [] \<and> hd s = CHR ''-'' then - int (read_base 10 (tl s)) else int (read_base 10 s))"

definition decode_entry :: "(string \<times> token) list \<Rightarrow> (int \<times> u32 \<times> u64 \<times> string \<times> byte list option) option" where
  "decode_entry ms =
     (case (map_of ms ''timestamp'', map_of ms ''vcpu_id'', map_of ms ''rip'', map_of ms ''summary'') of
        (Some (TNum t), Some (TNum v), Some (TStr r), Some (TStr s)) \<Rightarrow>
          Some (read_int t, of_nat (read_base 10 v), of_nat (read_base 16 (drop 2 r)), s,
            case map_of ms ''mem_dump'' of Some (TStr d) \<Rightarrow> Some (read_bytes d) | _ \<Rightarrow> None)
      | _ \<Rightarrow> None)"

lemma read_dec_int: "read_int (dec_int i) = i"
proof (cases "i < 0")
  case False
  have "hd (dec_nat n) \<in> set (digit_chars False)" for n
    using dec_nat_chars [of n] dec_nat_nonempty [of n] by (meson hd_in_set subsetD)
  moreover have "CHR ''-'' \<notin> set (digit_chars False)" by (simp add: digit_chars_def)
  ultimately have "hd (dec_nat n) \<noteq> CHR ''-''" for n by metis
  with False show ?thesis by (simp add: read_int_def dec_int_def read_dec)
qed (simp add: read_int_def dec_int_def read_dec)

lemma decode_members:
  "decode_entry (entry_members ie) =
     Some (milliseconds (gs_timestamp (ie_snapshot ie)), ev_vcpu_id (ie_base ie), gs_rip (ie_snapshot ie),
       ie_summary ie, ie_memDump ie)"
  by (simp add: decode_entry_def entry_members_def read_dec_int dec_word_def hex_word_def read_dec read_hex read_hex_bytes
      split: option.split)

text \<open>C22: when the file can be opened, the text written for the agent's log is an array of JSON objects, one
  per logged event in order, whose strings need no escapes; reading the members back gives each
  event's time in milliseconds, vCPU, instruction pointer, summary and dump. When the file cannot be
  opened nothing is written.\<close>

theorem dumpEventLog_json:
  assumes "\<forall>ie \<in> set (vmi_eventLog a). ie_summary ie = VmiAgent_buildSummary (ie_base ie) (ie_snapshot ie)"
    and "open_out path h = (ok, h1)"
  shows "\<exists>content. VmiAgent_dumpEventLog open_out write_out a path h = (if ok then write_out path content h1 else h1) \<and>
    tokens content = TPunct CHR ''['' # array_tokens (map entry_members (vmi_eventLog a)) @ [TPunct CHR '']''] \<and>
    map (decode_entry \<circ> entry_members) (vmi_eventLog a) =
      map (\<lambda>ie. Some (milliseconds (gs_timestamp (ie_snapshot ie)), ev_vcpu_id (ie_base ie),
        gs_rip (ie_snapshot ie), ie_summary ie, ie_memDump ie)) (vmi_eventLog a) \<and>
    (\<forall>ie \<in> set (vmi_eventLog a). plain (ie_summary ie))"
proof -
  let ?text = "''['' @ [nl] @ entries_text (vmi_eventLog a) @ '']'' @ [nl]"
  have plain: "\<forall>ie \<in> set (vmi_eventLog a). plain (ie_summary ie)" using assms(1) plain_summary by simp
  then have "tokens ?text = TPunct CHR ''['' # array_tokens (map entry_members (vmi_eventLog a)) @ [TPunct CHR '']'']"
    by (simp add: lex_chars lex_entries)
  with assms(2) plain show ?thesis
    by (intro exI [of _ ?text]) (simp add: VmiAgent_dumpEventLog_def decode_members)
qed

definition demo_entry :: IntrospectionEvent where
  "demo_entry = \<lparr>ie_base = HvEvent0 ET_GuestHalt, ie_snapshot = GuestSnapshot0\<lparr>gs_rip := 0x1007, gs_timestamp := 2500000\<rparr>,
     ie_memDump = Some [0x0F, 0xA2],
     ie_summary = VmiAgent_buildSummary (HvEvent0 ET_GuestHalt) (GuestSnapshot0\<lparr>gs_rip := 0x1007, gs_timestamp := 2500000\<rparr>)\<rparr>"

definition demo_log_agent :: "(string, nat) VmiAgent" where
  "demo_log_agent = \<lparr>vmi_vm = None, vmi_dispatch = False, vmi_callbacks = [], vmi_eventLog = [demo_entry, demo_entry],
     vmi_subId = 0, vmi_memDumpEnabled = False, vmi_memDumpAddr = 0, vmi_memDumpSize = 0\<rparr>"

definition demo_disk :: "string \<Rightarrow> string host" where
  "demo_disk s = \<lparr>h_errno = 0, h_heap = Map.empty, h_runs = Map.empty, h_kern = s\<rparr>"

theorem dumpEventLog_json_witness:
  "\<exists>content. VmiAgent_dumpEventLog (\<lambda>path h. (True, h)) (\<lambda>path s h. h\<lparr>h_kern := s\<rparr>)
       demo_log_agent ''vmi_events.json'' (demo_disk []) = demo_disk content \<and>
     tokens content = TPunct CHR ''['' # array_tokens [entry_members demo_entry, entry_members demo_entry] @ [TPunct CHR '']''] \<and>
     decode_entry (entry_members demo_entry) = Some (2, 0, 0x1007, ie_summary demo_entry, Some [0x0F, 0xA2])"
proof -
  have a: "vmi_eventLog demo_log_agent = [demo_entry, demo_entry]" by (simp add: demo_log_agent_def)
  have "\<forall>ie \<in> set (vmi_eventLog demo_log_agent). ie_summary ie = VmiAgent_buildSummary (ie_base ie) (ie_snapshot ie)"
    by (simp add: a demo_entry_def)
  from dumpEventLog_json [OF this, of "\<lambda>path h. (True, h)" "''vmi_events.json''" "demo_disk []" True "demo_disk []"
      "\<lambda>path s h. h\<lparr>h_kern := s\<rparr>"]
  obtain content where "VmiAgent_dumpEventLog (\<lambda>path h. (True, h)) (\<lambda>path s h. h\<lparr>h_kern := s\<rparr>)
       demo_log_agent ''vmi_events.json'' (demo_disk []) = (demo_disk [])\<lparr>h_kern := content\<rparr>"
    "tokens content = TPunct CHR ''['' # array_tokens (map entry_members (vmi_eventLog demo_log_agent)) @ [TPunct CHR '']'']"
    and d: "map (decode_entry \<circ> entry_members) (vmi_eventLog demo_log_agent) =
      map (\<lambda>ie. Some (milliseconds (gs_timestamp (ie_snapshot ie)), ev_vcpu_id (ie_base ie),
        gs_rip (ie_snapshot ie), ie_summary ie, ie_memDump ie)) (vmi_eventLog demo_log_agent)" by auto
  moreover have "decode_entry (entry_members demo_entry) = Some (2, 0, 0x1007, ie_summary demo_entry, Some [0x0F, 0xA2])"
    using d by (simp add: a) (simp add: demo_entry_def HvEvent0_def milliseconds_def)
  ultimately show ?thesis by (simp add: a demo_disk_def)
qed

end
