(* ===== verification/Hv_Main.thy ===== *)
theory Hv_Main
  imports Kvm_System Guest_Boot Instruction_Trapper Vmi_Log
begin

text \<open>
  The program itself (src/main.cpp): it opens KVM, creates a machine, loads a real-mode guest, registers
  the devices, wires the agent and a logger to the dispatcher, installs a CPUID table, takes a
  snapshot, and runs the guest three times from that snapshot with a different input byte. What it
  prints is the console of its state; the text of an error code is the library's, a parameter. At every
  return the machine and the KVM handle are destroyed, in this order (the objects declared after them
  hold no resource of the host). The result is the exit status with the console and the host that are
  left; \<^const>\<open>None\<close> is undefined behaviour or a run loop that does not end.
\<close>

section \<open>The program's own objects\<close>

definition k_guestCode :: "byte list" where
  "k_guestCode = [0xE4, 0x60, 0x31, 0xC0, 0x0F, 0xA2, 0xF4, 0x00]"

definition k_mmio_base :: u64 where "k_mmio_base = 0x80000"
definition k_reg_magic :: u64 where "k_reg_magic = k_mmio_base + 0x00"
definition k_reg_input :: u64 where "k_reg_input = k_mmio_base + 0x08"
definition k_reg_status :: u64 where "k_reg_status = k_mmio_base + 0x10"

record MmioDeviceState =
  last_write_value :: u64
  write_count :: u64

definition MmioDeviceState0 :: MmioDeviceState where
  "MmioDeviceState0 = \<lparr>last_write_value = 0, write_count = 0\<rparr>"

text \<open>What the callbacks of the program work on: the device, and what has been printed.\<close>

record main_state =
  ms_mmio :: MmioDeviceState
  ms_console :: console

type_synonym 'k main_app = "('k, main_state) agent_app"
type_synonym 'k main_env = "('k, 'k main_app) env"

definition user_print :: "stream \<Rightarrow> string \<Rightarrow> main_state \<Rightarrow> main_state" where
  "user_print s text u = u\<lparr>ms_console := print_on s text (ms_console u)\<rparr>"

definition user_println :: "stream \<Rightarrow> string \<Rightarrow> main_state \<Rightarrow> main_state" where
  "user_println s text u = u\<lparr>ms_console := println_on s text (ms_console u)\<rparr>"

definition on_user :: "('u \<Rightarrow> 'u) \<Rightarrow> ('k, 'u) agent_env \<Rightarrow> ('k, 'u) agent_env" where
  "on_user f e = e\<lparr>e_app := (e_app e)\<lparr>aa_user := f (aa_user (e_app e))\<rparr>\<rparr>"

abbreviation say :: "string \<Rightarrow> 'k main_env \<Rightarrow> 'k main_env" where
  "say text \<equiv> on_user (user_println Stdout text)"

abbreviation complain :: "string \<Rightarrow> 'k main_env \<Rightarrow> 'k main_env" where
  "complain text \<equiv> on_user (user_println Stderr text)"

section \<open>Devices\<close>

text \<open>The callback of CPUID leaf 1: the host's answer is read into variables that are not used.\<close>

definition cpuid_leaf1 :: "'k kernel \<Rightarrow> ('k, 'k main_app) LeafCallback" where
  "cpuid_leaf1 K leaf sub e =
     (let r = \<lparr>lr_eax = 0, lr_ebx = 0, lr_ecx = 0, lr_edx = 0\<rparr>;
          (eax, ebx, ecx, edx) = cpu_cpuid K leaf sub (e_host e)
      in (r\<lparr>lr_ecx := lr_ecx r AND NOT (push_bit 31 1)\<rparr>, e))"

definition keyboard_in :: "InContext \<Rightarrow> 'k main_env \<Rightarrow> u32 \<times> 'k main_env" where
  "keyboard_in ctx e = (0x1A, say ''  [IO] Guest read from port 0x60 (keyboard)'' e)"

definition magic_read :: "('k, 'k main_app) ReadCallback" where
  "magic_read ctx e = (0x4D4D494F, e)"

definition input_write :: "('k, 'k main_app) WriteCallback" where
  "input_write ctx e =
     on_user (\<lambda>u. user_println Stdout
         (''  [MMIO] write input=0x'' @ hex_word False (wc_value ctx) @ '' (size='' @ dec_word (wc_size ctx) @ '')'')
         (u\<lparr>ms_mmio := (ms_mmio u)\<lparr>last_write_value := wc_value ctx, write_count := write_count (ms_mmio u) + 1\<rparr>\<rparr>)) e"

definition status_read :: "('k, 'k main_app) ReadCallback" where
  "status_read ctx e =
     (let mmio_state = ms_mmio (aa_user (e_app e));
          count = push_bit 32 (write_count mmio_state AND 0xFFFFFFFF);
          last = last_write_value mmio_state AND 0xFFFFFFFF
      in (count OR last, e))"

definition main_cpuid :: "'k kernel \<Rightarrow> ('k, 'k main_app) CpuidHandler" where
  "main_cpuid K = CpuidHandler_registerLeaf 0x01 (cpuid_leaf1 K) CpuidHandler0"

definition main_io :: "('k, 'k main_app) IoPortHandler" where
  "main_io = IoPortHandler_registerInPort 0x60 keyboard_in IoPortHandler0"

definition main_mmio :: "('k, 'k main_app) MmioHandler" where
  "main_mmio = MmioHandler_registerRead k_reg_status status_read
     (MmioHandler_registerWrite k_reg_input input_write
       (MmioHandler_registerRead k_reg_magic magic_read MmioHandler0))"

section \<open>Listeners\<close>

text \<open>The agent with its printing callback, and the printing logger, on a new dispatcher.\<close>

definition vmi_tag :: string where "vmi_tag = ''  [VMI] ''"

definition vmi_print :: "('k, main_state) IntrospectionCallback" where
  "vmi_print ev s = (case s of (h, u) \<Rightarrow> Some (h, user_println Stdout (vmi_tag @ ie_summary ev) u))"

fun event_tag :: "EventType \<Rightarrow> string" where
  "event_tag ET_CpuidAccess = ''  [CPUID] ''"
| "event_tag ET_IoRead = ''  [IN]    ''"
| "event_tag ET_IoWrite = ''  [OUT]   ''"
| "event_tag ET_MsrRead = ''  [RDMSR] ''"
| "event_tag ET_MsrWrite = ''  [WRMSR] ''"
| "event_tag ET_MemAccess = ''  [MMIO]  ''"
| "event_tag ET_GuestHalt = ''  [HLT]   ''"
| "event_tag ET_GuestShutdown = ''  [SHUT]  ''"

definition logger :: "HvEvent \<Rightarrow> 'k main_env \<Rightarrow> 'k main_env option" where
  "logger ev e =
     (let shown = (case ev_payload ev of PL_Cpuid _ \<Rightarrow> 0 | _ \<Rightarrow> ev_rip ev);
          e1 = on_user (user_print Stdout (event_tag (ev_type ev))) e
      in Some (say (''vcpu='' @ dec_word (ev_vcpu_id ev) @ '' rip=0x'' @ hex_word False shown) e1))"

definition main_listeners ::
  "'k kernel \<Rightarrow> VirtualMachine \<Rightarrow> ('k, main_state) VmiAgent \<times> 'k main_env EventDispatcher option" where
  "main_listeners K vm =
     (let (vmi_agent, dispatcher) = VmiAgent_new K (Some vm) (Some EventDispatcher0);
          vmi_agent = VmiAgent_onEvent vmi_print vmi_agent
      in (vmi_agent, map_option (\<lambda>d. snd (EventDispatcher_subscribeAll logger d)) dispatcher))"

section \<open>The CPUID table\<close>

definition cpuid_leaves :: "u32 list" where
  "cpuid_leaves = [0x00, 0x01, 0x02, 0x07, 0x80000000, 0x80000001, 0x80000002, 0x80000003, 0x80000004]"

definition cpuid_line :: "kvm_cpuid_entry2 \<Rightarrow> string" where
  "cpuid_line e = ''[+] CPUID leaf=0x'' @ hex_pad 8 (ce_function e) @ '' => EAX=0x'' @ hex_pad 8 (ce_eax e) @
     '' EBX=0x'' @ hex_pad 8 (ce_ebx e) @ '' ECX=0x'' @ hex_pad 8 (ce_ecx e) @ '' EDX=0x'' @ hex_pad 8 (ce_edx e)"

text \<open>What the host's processor answers for a leaf, as a table entry.\<close>

definition host_entry :: "'k kernel \<Rightarrow> 'k host \<Rightarrow> u32 \<Rightarrow> kvm_cpuid_entry2" where
  "host_entry K h leaf = (let r = CpuidHandler_executeHostCpuid K leaf 0 h in
     \<lparr>ce_function = leaf, ce_index = 0, ce_flags = 0, ce_eax = lr_eax r, ce_ebx = lr_ebx r,
      ce_ecx = lr_ecx r, ce_edx = lr_edx r\<rparr>)"

text \<open>The changes to the two leaves, for the printed line and the event.\<close>

definition shown_entry :: "u32 \<Rightarrow> kvm_cpuid_entry2 \<Rightarrow> kvm_cpuid_entry2" where
  "shown_entry leaf e =
     (let e = (if leaf = 0x01 then e\<lparr>ce_ecx := ce_ecx e AND NOT (push_bit 31 1)\<rparr> else e)
      in if leaf = 0x00 then e\<lparr>ce_eax := min (ce_eax e) 0x0B\<rparr> else e)"

text \<open>An entry is pushed before the loop changes its copy for the printed line and the event.\<close>

fun build_cpuid ::
  "'k kernel \<Rightarrow> u32 list \<Rightarrow> kvm_cpuid_entry2 list \<Rightarrow> 'k main_env EventDispatcher \<Rightarrow> 'k main_env \<Rightarrow>
     (kvm_cpuid_entry2 list \<times> 'k main_env EventDispatcher \<times> 'k main_env) option" where
  "build_cpuid K [] cpuidEntries dispatcher s = Some (cpuidEntries, dispatcher, s)"
| "build_cpuid K (leaf # leaves) cpuidEntries dispatcher s = do {
     let e = host_entry K (e_host s) leaf;
     let cpuidEntries = cpuidEntries @ [e];
     let e = shown_entry leaf e;
     let s = say (cpuid_line e) s;
     let ce = \<lparr>cpe_leaf = leaf, cpe_subleaf = 0, cpe_eax = ce_eax e, cpe_ebx = ce_ebx e,
               cpe_ecx = ce_ecx e, cpe_edx = ce_edx e\<rparr>;
     let (now, s1) = on_host (clock_now K) s;
     let ev = \<lparr>ev_type = ET_CpuidAccess, ev_vcpu_id = 0, ev_rip = 0, ev_timestamp = now, ev_payload = PL_Cpuid ce\<rparr>;
     (dispatcher', s2) \<leftarrow> EventDispatcher_publish dispatcher ev s1;
     build_cpuid K leaves cpuidEntries dispatcher' s2
   }"

section \<open>The runs\<close>

definition fuzzInput :: "byte list" where
  "fuzzInput = [0x41, 0x42, 0x43]"

text \<open>
  Before run \<open>i\<close>: back to the snapshot, except in the first run, then the input byte into the first
  region. \<^verbatim>\<open>vm.memoryRegions()[0]\<close> of an empty vector is undefined.
\<close>

definition first_region :: "VirtualMachine \<Rightarrow> MemoryRegion option" where
  "first_region vm = (case vm_memoryRegions vm of [] \<Rightarrow> None | r # _ \<Rightarrow> Some r)"

definition fuzz_prepare ::
  "'k kernel \<Rightarrow> VirtualMachine \<Rightarrow> VmSnapShot \<Rightarrow> nat \<Rightarrow> 'k host \<Rightarrow> (error_code \<times> error_code \<times> 'k host) option" where
  "fuzz_prepare K vm snapshot i h = do {
     (codeRegs, codeSregs, h1) \<leftarrow> (if i > 0 then VirtualMachine_restoreSnapshot K vm snapshot h
                                    else Some (ok_code, ok_code, h));
     region \<leftarrow> first_region vm;
     h2 \<leftarrow> heap_store h1 (m_hostAddr region) 0x2000 [fuzzInput ! (i mod length fuzzInput)];
     Some (codeRegs, codeSregs, h2)
   }"

text \<open>
  What is printed of it: by the restoring function, for each register file that could not be set, and
  by \<^verbatim>\<open>main\<close>; the injected byte is read back from the guest's memory.
\<close>

definition say_restored :: "(error_code \<Rightarrow> string) \<Rightarrow> error_code \<Rightarrow> error_code \<Rightarrow> nat \<Rightarrow> 'k main_env \<Rightarrow> 'k main_env" where
  "say_restored message codeRegs codeSregs i e =
     (let e = (if codeRegs \<noteq> ok_code
               then complain (''[!] Failed to restore vCPU registers: '' @ message codeRegs) e else e);
          e = (if codeSregs \<noteq> ok_code
               then complain (''[!] Failed to restore vCPU special registers: '' @ message codeSregs) e else e)
      in say (''[+] VM snapshot restored, starting run #'' @ dec_nat i) e)"

definition say_prepared ::
  "(error_code \<Rightarrow> string) \<Rightarrow> VirtualMachine \<Rightarrow> error_code \<Rightarrow> error_code \<Rightarrow> nat \<Rightarrow> 'k main_env \<Rightarrow> 'k main_env option" where
  "say_prepared message vm codeRegs codeSregs i e = do {
     region \<leftarrow> first_region vm;
     injected \<leftarrow> heap_load (e_host e) (m_hostAddr region) 0x2000 1;
     let e = (if i > 0 then say_restored message codeRegs codeSregs i e else e);
     let e = say (''[+] Injected scancode 0x'' @ hex_pad 2 (hd injected) @ '' at GPA 0x2000'') e;
     Some (say (''[+] Starting guest execution loop #'' @ dec_nat i @ '' '' @ [CHR 0xE2, CHR 0x80, CHR 0xA6]) e)
   }"

definition exits_line :: "('k, 'a) InstructionTrapper \<Rightarrow> string" where
  "exits_line trapper = ''[+] Guest stopped after '' @ dec_word (it_exitCount trapper) @ '' exits.''"

definition say_result :: "RunResult \<Rightarrow> 'k main_env \<Rightarrow> 'k main_env" where
  "say_result result e = (case result of
       RR_Halt \<Rightarrow> say ''[+] Guest halted normally.'' e
     | RR_Shutdown \<Rightarrow> say ''[+] Guest requested shutdown.'' e
     | RR_Error \<Rightarrow> complain ''[!] Hypervisor error during guest run.'' e
     | RR_Continue \<Rightarrow> e)"

text \<open>Runs \<open>i\<close>, \<open>i + 1\<close> and so on, as many as the first number says; False is the early return.\<close>

fun fuzz_runs ::
  "'k kernel \<Rightarrow> (error_code \<Rightarrow> string) \<Rightarrow> VirtualMachine \<Rightarrow> VmSnapShot \<Rightarrow> nat \<Rightarrow> nat \<Rightarrow> ('k, 'k main_app) InstructionTrapper \<Rightarrow> 'k main_env \<Rightarrow>
     (bool \<times> ('k, 'k main_app) InstructionTrapper \<times> 'k main_env) option" where
  "fuzz_runs K message vm snapshot 0 i trapper e = Some (True, trapper, e)"
| "fuzz_runs K message vm snapshot (Suc n) i trapper e = do {
     (codeRegs, codeSregs, h1) \<leftarrow> fuzz_prepare K vm snapshot i (e_host e);
     e1 \<leftarrow> say_prepared message vm codeRegs codeSregs i (e\<lparr>e_host := h1\<rparr>);
     (result, trapper', e2) \<leftarrow> InstructionTrapper_runLoop K 0 trapper e1;
     let e3 = say_result result (say (exits_line trapper') e2);
     if result = RR_Error then Some (False, trapper', e3)
     else fuzz_runs K message vm snapshot n (i + 1) trapper' e3
   }"

text \<open>Leaving \<^verbatim>\<open>main\<close>: the machine goes first, then the KVM handle.\<close>

definition main_exit ::
  "'k kernel \<Rightarrow> KvmSystem \<Rightarrow> VirtualMachine \<Rightarrow> int \<Rightarrow> console \<Rightarrow> 'k host \<Rightarrow> (int \<times> console \<times> 'k host) option" where
  "main_exit K kvm_sys vm code out h = Some (code, out, KvmSystem_release K kvm_sys (VirtualMachine_release K vm h))"

abbreviation printed :: "'k main_env \<Rightarrow> console" where
  "printed e \<equiv> ms_console (aa_user (e_app e))"

text \<open>
  What the program needs of the libraries besides the kernel: the text of an error code, opening a
  file for writing (which may fail), and writing text to it.
\<close>

record 'k library =
  ec_message :: "error_code \<Rightarrow> string"
  open_out :: "string \<Rightarrow> 'k host \<Rightarrow> bool \<times> 'k host"
  write_out :: "string \<Rightarrow> string \<Rightarrow> 'k host \<Rightarrow> 'k host"

text \<open>The end of \<^verbatim>\<open>main\<close> after the last run.\<close>

definition main_finish ::
  "'k kernel \<Rightarrow> 'k library \<Rightarrow> KvmSystem \<Rightarrow> VirtualMachine \<Rightarrow> ('k, 'k main_app) InstructionTrapper \<Rightarrow> 'k main_env \<Rightarrow>
     (int \<times> console \<times> 'k host) option" where
  "main_finish K L kvm_sys vm trapper e = do {
     let e = say (exits_line trapper) e;
     let h = VmiAgent_dumpEventLog (open_out L) (write_out L) (aa_agent (e_app e)) ''vmi_events.json'' (e_host e);
     let e = say ''[+] VMI event log written to vmi_events.json'' e;
     dispatcher \<leftarrow> it_dispatch trapper;
     let e = say (''[+] Total events dispatched: '' @ dec_word (d_publishedCount dispatcher)) e;
     main_exit K kvm_sys vm 0 (printed e) h
   }"

text \<open>From the loaded guest to the end.\<close>

definition main_guest ::
  "'k kernel \<Rightarrow> 'k library \<Rightarrow> KvmSystem \<Rightarrow> VirtualMachine \<Rightarrow> console \<Rightarrow> 'k host \<Rightarrow> (int \<times> console \<times> 'k host) option" where
  "main_guest K L kvm_sys vm out h = do {
     vcpu \<leftarrow> (case vm_vcpus vm of [] \<Rightarrow> None | v # _ \<Rightarrow> Some v);
     let (vmi_agent, dispatcher) = main_listeners K vm;
     dispatcher \<leftarrow> dispatcher;
     let e = \<lparr>e_host = h, e_app = \<lparr>aa_agent = vmi_agent,
                aa_user = \<lparr>ms_mmio = MmioDeviceState0, ms_console = out\<rparr>\<rparr>\<rparr>;
     (cpuidEntries, dispatcher, e) \<leftarrow> build_cpuid K cpuid_leaves [] dispatcher e;
     let (ec, h1) = VCpu_installCpuid K vcpu cpuidEntries (e_host e);
     if ec \<noteq> ok_code
     then main_exit K kvm_sys vm 1 (printed (complain (''[!] KVM_SET_CPUID2 failed: '' @ ec_message L ec) e)) h1
     else do {
       let e = say (''[+] CPUID table installed ('' @ dec_nat (length cpuidEntries) @ '' leaves)'') e;
       (snapshot, h2) \<leftarrow> VirtualMachine_takeSnapShot K vm h1;
       let e = say (''[+] VM snapshot taken ('' @ dec_nat (length (snap_memoryRegions snapshot)) @ '' memory regions)'') e;
       let trapper = InstructionTrapper_new vcpu (Some (main_cpuid K)) (Some main_io) (Some MsrHandler0)
             (Some main_mmio) (Some dispatcher);
       (ok, trapper, e) \<leftarrow> fuzz_runs K (ec_message L) vm snapshot 3 0 trapper (e\<lparr>e_host := h2\<rparr>);
       if \<not> ok then main_exit K kvm_sys vm 1 (printed e) (e_host e)
       else main_finish K L kvm_sys vm trapper e
     }
   }"

text \<open>From the read image to the end.\<close>

definition main_load ::
  "'k kernel \<Rightarrow> 'k library \<Rightarrow> KvmSystem \<Rightarrow> VirtualMachine \<Rightarrow> console \<Rightarrow> byte list \<Rightarrow> 'k host \<Rightarrow>
     (int \<times> console \<times> 'k host) option" where
  "main_load K L kvm_sys vm out guestCodeBytes h = do {
     (ec, vm', h1) \<leftarrow> GuestLoader_loadBytes K vm guestCodeBytes 0x1000 0x80000 h;
     if ec \<noteq> ok_code
     then main_exit K kvm_sys vm' 1
       (println_on Stderr (''[!] GuestLoader::loadBytes failed: '' @ ec_message L ec) out) h1
     else main_guest K L kvm_sys vm' (println_on Stdout ''[+] Guest code loaded at GPA 0x1000'' out) h1
   }"

text \<open>What is printed about the extension.\<close>

definition say_extension :: "(error_code \<Rightarrow> string) \<Rightarrow> bool \<Rightarrow> error_code \<Rightarrow> console \<Rightarrow> console" where
  "say_extension message ext ec out =
     (if ext then
        (if ec \<noteq> ok_code then println_on Stderr (''[!] Failed to enable emulation failure exits: '' @ message ec) out
         else println_on Stdout ''[+] Enabled KVM_CAP_EXIT_ON_EMULATION_FAILURE, CPUID will trap to userspace'' out)
      else println_on Stdout ''    (This may cause CPUID exit counts to be inaccurate and some leaf handlers to not work.)''
        (println_on Stdout
           ''[!] KVM_CAP_EXIT_ON_EMULATION_FAILURE not supported, CPUID exits may be handled in-kernel'' out))"

definition main :: "'k kernel \<Rightarrow> 'k library \<Rightarrow> 'k host \<Rightarrow> (int \<times> console \<times> 'k host) option" where
  "main K L h =
     (let (kvm_result, h1) = KvmSystem_open K ''/dev/kvm'' h in
      case kvm_result of
        Inl ec \<Rightarrow> Some (1, println_on Stderr (''[!] Failed to open /dev/kvm: '' @ ec_message L ec) [], h1)
      | Inr kvm_sys \<Rightarrow>
          let out = println_on Stdout (''[+] KVM API version: '' @ dec_int (s_apiVersion kvm_sys)) [];
              (vm_result, h2) = KvmSystem_createVm K kvm_sys h1 in
          case vm_result of
            Inl ec \<Rightarrow> Some (1, println_on Stderr (''[!] KVM_CREATE_VM failed: '' @ ec_message L ec) out,
                         KvmSystem_release K kvm_sys h2)
          | Inr vm \<Rightarrow>
              let out = println_on Stdout (''[+] VM created (fd='' @ dec_int (vm_fd vm) @ '')'') out;
                  (ext, h3) = KvmSystem_checkExtension K kvm_sys KVM_CAP_EXIT_ON_EMULATION_FAILURE h2;
                  (ec, h4) = (if ext then VirtualMachine_enableEmulationExits K vm h3 else (ok_code, h3));
                  out = say_extension (ec_message L) ext ec out;
                  guestCodeBytes = (case file_bytes K ''simpleGuest.bin'' h4 of None \<Rightarrow> [] | Some bs \<Rightarrow> bs)
              in if guestCodeBytes = []
                 then main_exit K kvm_sys vm 1
                   (println_on Stderr ''[!] Failed to read guest code from simpleGuest.bin'' out) h4
                 else main_load K L kvm_sys vm out guestCodeBytes h4)"

section \<open>Device registers\<close>

lemmas main_mmio_defs = main_mmio_def MmioHandler_registerRead_def MmioHandler_registerWrite_def MmioHandler0_def
  k_reg_status_def k_reg_input_def k_reg_magic_def k_mmio_base_def

lemma and_low: "v AND 0xFFFFFFFF = take_bit 32 (v :: u64)"
  by (simp add: take_bit_eq_mask mask_eq_exp_minus_1)

lemma low_half: "take_bit 32 (push_bit 32 c OR take_bit 32 v :: u64) = take_bit 32 v"
  by (rule bit_word_eqI) (auto simp: bit_take_bit_iff bit_or_iff bit_push_bit_iff)

lemma high_half: "drop_bit 32 (push_bit 32 (take_bit 32 c) OR take_bit 32 v :: u64) = take_bit 32 c"
  by (rule bit_word_eqI) (auto simp: bit_take_bit_iff bit_drop_bit_eq bit_or_iff bit_push_bit_iff dest: bit_imp_le_length)

text \<open>C29: after a guest's write to the input register, a full read of the status register gives the low
  32 bits of the written value in its low half, and the number of writes so far, modulo \<open>2\<^sup>3\<^sup>2\<close>, in its
  high half.\<close>

theorem status_register:
  fixes e :: "('k, 'k main_app) env"
  assumes wr: "h_runs (e_host e) p = Some wr" "run_wf wr" "mmio_is_write (run_mmio wr) \<noteq> 0"
      "mmio_size wr \<noteq> 0" "mmio_size wr \<le> 8" "mmio_phys_addr (run_mmio wr) = k_reg_input"
    and rd: "run_wf rd" "mmio_is_write (run_mmio rd) = 0" "mmio_size rd = 8" "mmio_phys_addr (run_mmio rd) = k_reg_status"
  shows "\<exists>t1 e1 t2 e2 rd' v. MmioHandler_handle p main_mmio e = Some (True, t1, e1) \<and>
     MmioHandler_handle p t1 (set_run p rd e1) = Some (True, t2, e2) \<and>
     h_runs (e_host e2) p = Some rd' \<and> v = (le_word (mmio_data (run_mmio rd')) :: u64) \<and>
     take_bit 32 v = take_bit 32 (le_word (take (unat (mmio_size wr)) (mmio_data (run_mmio wr)))) \<and>
     drop_bit 32 v = take_bit 32 (write_count (ms_mmio (aa_user (e_app e))) + 1)"
proof -
  let ?c = "\<lparr>wc_addr = k_reg_input, wc_size = mmio_size wr,
    wc_value = le_word (take (unat (mmio_size wr)) (mmio_data (run_mmio wr)))\<rparr>"
  let ?e1 = "input_write ?c e" and ?t = "main_mmio :: ('k, 'k main_app) MmioHandler"
  let ?t1 = "?t\<lparr>mh_writeCount := mh_writeCount ?t + 1\<rparr>"
  have size: "\<not> (mmio_size wr = 0 \<or> mmio_size wr > 8)" "\<not> (mmio_size rd = 0 \<or> mmio_size rd > 8)"
    using wr(4,5) rd(3) by auto
  have cbs: "mh_writeCallbacks ?t k_reg_input = Some input_write"
    "mh_readCallbacks ?t k_reg_status = Some status_read" by (simp_all add: main_mmio_defs)
  have w: "MmioHandler_handle p main_mmio e = Some (True, ?t1, ?e1)"
    using handle_write [OF wr(1,2) size(1) wr(3)] by (simp add: wr(6) cbs)
  let ?e1' = "set_run p rd ?e1"
  let ?v = "push_bit 32 (take_bit 32 (write_count (ms_mmio (aa_user (e_app ?e1'))))) OR
    take_bit 32 (last_write_value (ms_mmio (aa_user (e_app ?e1'))))"
  have "(case mh_readCallbacks ?t1 (mmio_phys_addr (run_mmio rd)) of None \<Rightarrow> (0xFFFFFFFFFFFFFFFF, ?e1')
      | Some cb \<Rightarrow> cb \<lparr>rc_addr = mmio_phys_addr (run_mmio rd), rc_size = mmio_size rd\<rparr> ?e1') = (?v, ?e1')"
    by (simp add: rd(4) cbs(2) status_read_def and_low Let_def)
  note r = handle_read [OF _ rd(1) size(2) rd(2) this]
  have len: "drop 8 (mmio_data (run_mmio rd)) = []" using rd(1) by (simp add: run_wf_def)
  have app: "write_count (ms_mmio (aa_user (e_app ?e1'))) = write_count (ms_mmio (aa_user (e_app e))) + 1"
    "last_write_value (ms_mmio (aa_user (e_app ?e1'))) = wc_value ?c"
    by (simp_all add: input_write_def on_user_def user_println_def)
  let ?rd' = "rd\<lparr>run_mmio := (run_mmio rd)\<lparr>mmio_data := le_bytes 8 ?v\<rparr>\<rparr>"
  have "MmioHandler_handle p ?t1 ?e1' = Some (True, ?t1\<lparr>mh_readCount := mh_readCount ?t1 + 1\<rparr>, set_run p ?rd' ?e1')"
    using r by (simp add: rd(3) len)
  moreover have "le_word (le_bytes 8 ?v) = ?v" by (rule c64.dec_enc)
  ultimately show ?thesis
    using w low_half high_half app
    by (intro exI [of _ ?t1] exI [of _ ?e1] exI [of _ "?t1\<lparr>mh_readCount := mh_readCount ?t1 + 1\<rparr>"]
        exI [of _ "set_run p ?rd' ?e1'"] exI [of _ ?rd'] exI [of _ ?v]) simp
qed

section \<open>CPUID\<close>

text \<open>The callback that the program registers for CPUID leaf 1 discards the host's answer: a guest
  whose CPUID of leaf 1 is handled gets zero in all four registers.\<close>

theorem leaf1_answers_zero:
  assumes "reg_laws K" "errno_law K"
    and "kregs K (v_fd vcpu) (e_host e) = Some regs" "bit (rflags regs) 1" "ucast (rax regs) = (1 :: u32)"
    and "CpuidHandler_handle K vcpu (main_cpuid K) e = (True, t', e')"
  shows "kregs K (v_fd vcpu) (e_host e') = Some (regs\<lparr>rax := 0, rbx := 0, rcx := 0, rdx := 0\<rparr>)"
proof -
  have "fst (cpuid_answer K (main_cpuid K) regs s) = \<lparr>lr_eax = 0, lr_ebx = 0, lr_ecx = 0, lr_edx = 0\<rparr>" for s
    using assms(5) by (simp add: cpuid_answer_def main_cpuid_def CpuidHandler_registerLeaf_def cpuid_leaf1_def
        split_def Let_def)
  with cpuid_handle_success [OF assms(1-4,6)] show ?thesis by (auto simp: with_leaf_def)
qed

text \<open>One round of the loop: a line, the clock, one event; the entry is the host's.\<close>

lemma build_cpuid_round:
  obtains e now ce s1 where "on_host (clock_now K) (say (cpuid_line e) s) = (now, s1)"
    and "build_cpuid K (leaf # leaves) es d s =
      EventDispatcher_publish d \<lparr>ev_type = ET_CpuidAccess, ev_vcpu_id = 0, ev_rip = 0, ev_timestamp = now,
          ev_payload = PL_Cpuid ce\<rparr> s1 \<bind>
        (\<lambda>(d', s2). build_cpuid K leaves (es @ [host_entry K (e_host s) leaf]) d' s2)"
proof -
  let ?e = "shown_entry leaf (host_entry K (e_host s) leaf)"
  obtain now s1 where c: "on_host (clock_now K) (say (cpuid_line ?e) s) = (now, s1)" by fastforce
  show thesis
    by (rule that [OF c]) (unfold build_cpuid.simps Let_def c prod.case, rule refl)
qed

declare build_cpuid.simps(2) [simp del]

lemma build_cpuid_entries:
  assumes "build_cpuid K leaves es d s = Some (es', d', s')"
  shows "\<exists>new. es' = es @ new \<and> list_all2 (\<lambda>leaf e. \<exists>h. e = host_entry K h leaf) leaves new \<and>
    d_publishedCount d' = d_publishedCount d + of_nat (length leaves) \<and> d_subscriptions d' = d_subscriptions d"
  using assms
proof (induction leaves arbitrary: es d s)
  case (Cons leaf leaves)
  let ?e = "host_entry K (e_host s) leaf"
  obtain ev s1 d1 s2 where p: "EventDispatcher_publish d ev s1 = Some (d1, s2)"
    and rest: "build_cpuid K leaves (es @ [?e]) d1 s2 = Some (es', d', s')"
    by (rule build_cpuid_round [of K s leaf leaves es d]) (use Cons.prems in \<open>auto split: Option.bind_splits\<close>)
  from Cons.IH [OF rest] obtain new where new: "es' = es @ ?e # new"
    "list_all2 (\<lambda>leaf e. \<exists>h. e = host_entry K h leaf) leaves new"
    "d_publishedCount d' = d_publishedCount d1 + of_nat (length leaves)" "d_subscriptions d' = d_subscriptions d1" by auto
  moreover have "d_publishedCount d1 = d_publishedCount d + 1" "d_subscriptions d1 = d_subscriptions d"
    using p by (auto simp: EventDispatcher_publish_def split: Option.bind_splits)
  ultimately show ?case by (intro exI [of _ "?e # new"]) auto
qed simp

lemma build_cpuid_total:
  assumes "\<forall>sub \<in> set (d_subscriptions d). \<forall>ev s. \<exists>s'. sub_handler sub ev s = Some s'"
  shows "\<exists>es' d' s'. build_cpuid K leaves es d s = Some (es', d', s')"
  using assms
proof (induction leaves arbitrary: es d s)
  case (Cons leaf leaves)
  have pub: "\<exists>s'. EventDispatcher_publish d ev s = Some (bump d, s')" for ev s
    using deliver_keeps [of "d_subscriptions d" "\<lambda>_. True" s ev] Cons.prems
    by (auto simp: EventDispatcher_publish_def bump_def)
  have IH: "\<exists>es' d' s'. build_cpuid K leaves es (bump d) s = Some (es', d', s')" for es s
    by (rule Cons.IH) (use Cons.prems in \<open>simp add: bump_def\<close>)
  have "\<exists>es' d' s'. EventDispatcher_publish d ev s \<bind> (\<lambda>(d1, s1). build_cpuid K leaves es d1 s1) = Some (es', d', s')" for ev s es
  proof -
    obtain s1 where "EventDispatcher_publish d ev s = Some (bump d, s1)" using pub by blast
    with IH show ?thesis by simp
  qed
  then show ?case by (metis build_cpuid_round)
qed simp

text \<open>C40: the CPUID table that the program installs is the host's own, leaf by leaf in order: neither the
  hypervisor bit of leaf 1 nor the limit on leaf 0 reaches it; nine events are published.\<close>

theorem cpuid_table_unmodified:
  assumes "build_cpuid K cpuid_leaves [] d s = Some (entries, d', s')"
  shows "list_all2 (\<lambda>leaf e. \<exists>h. e = host_entry K h leaf) cpuid_leaves entries \<and>
    d_publishedCount d' = d_publishedCount d + 9"
  using build_cpuid_entries [OF assms] by (auto simp: cpuid_leaves_def)

section \<open>Concrete instances\<close>

definition mmio_access :: "u64 \<Rightarrow> u8 \<Rightarrow> byte list \<Rightarrow> kvm_run" where
  "mmio_access addr w d = kvm_run0\<lparr>exit_reason := 6,
     run_mmio := \<lparr>mmio_phys_addr = addr, mmio_data = d, mmio_len = 8, mmio_is_write = w\<rparr>\<rparr>"

definition main_app0 :: "'k main_app" where
  "main_app0 = \<lparr>aa_agent = \<lparr>vmi_vm = None, vmi_dispatch = False, vmi_callbacks = [], vmi_eventLog = [], vmi_subId = 0,
     vmi_memDumpEnabled = False, vmi_memDumpAddr = 0, vmi_memDumpSize = 0\<rparr>, aa_user = \<lparr>ms_mmio = MmioDeviceState0, ms_console = []\<rparr>\<rparr>"

theorem status_register_witness:
  "\<exists>t1 e1 t2 e2 rd'.
     MmioHandler_handle 0x20000000 main_mmio (demo_env (mmio_access 0x80008 1 [7, 0, 0, 0, 9, 0, 0, 0]) main_app0) = Some (True, t1, e1) \<and>
     MmioHandler_handle 0x20000000 t1 (set_run 0x20000000 (mmio_access 0x80010 0 (replicate 8 0)) e1) = Some (True, t2, e2) \<and>
     h_runs (e_host e2) 0x20000000 = Some rd' \<and>
     take_bit 32 (le_word (mmio_data (run_mmio rd')) :: u64) = take_bit 32 (le_word [7, 0, 0, 0, 9, 0, 0, 0]) \<and>
     drop_bit 32 (le_word (mmio_data (run_mmio rd')) :: u64) = 1"
proof -
  let ?wr = "mmio_access 0x80008 1 [7, 0, 0, 0, 9, 0, 0, 0]" and ?rd = "mmio_access 0x80010 0 (replicate 8 0)"
  let ?e = "demo_env ?wr main_app0 :: (sim, sim main_app) env"
  have sz: "mmio_size ?wr = 8" "mmio_size ?rd = 8" by (simp_all add: mmio_size_def mmio_access_def)
  have wr: "h_runs (e_host ?e) 0x20000000 = Some ?wr" "run_wf ?wr" "mmio_is_write (run_mmio ?wr) \<noteq> 0"
    "mmio_phys_addr (run_mmio ?wr) = k_reg_input"
    by (simp_all add: demo_env_def mmio_access_def run_wf_def k_reg_input_def k_mmio_base_def)
  have rd: "run_wf ?rd" "mmio_is_write (run_mmio ?rd) = 0" "mmio_phys_addr (run_mmio ?rd) = k_reg_status"
    by (simp_all add: mmio_access_def run_wf_def k_reg_status_def k_mmio_base_def)
  have d: "take 8 (mmio_data (run_mmio ?wr)) = [7, 0, 0, 0, 9, 0, 0, 0]" by (simp add: mmio_access_def)
  have "take_bit 32 (write_count (ms_mmio (aa_user (e_app ?e))) + 1) = 1"
    by (simp add: demo_env_def main_app0_def MmioDeviceState0_def)
  with status_register [OF wr(1-3) _ _ wr(4) rd(1,2) sz(2) rd(3)] show ?thesis by (simp add: sz d)
qed

theorem leaf1_answers_zero_witness:
  "\<exists>t' e'. CpuidHandler_handle sim_kernel demo_vcpu (main_cpuid sim_kernel)
       \<lparr>e_host = set_kern (sim0\<lparr>sim_regs := kvm_regs0\<lparr>rax := 1, rip := 0x1000, rflags := 2\<rparr>, sim_fds := [5]\<rparr>) (demo_host []), e_app = main_app0\<rparr> = (True, t', e') \<and>
     kregs sim_kernel 5 (e_host e') = Some (kvm_regs0\<lparr>rip := 0x1000, rflags := 2\<rparr>)"
proof -
  let ?r = "kvm_regs0\<lparr>rax := 1, rip := 0x1000, rflags := 2\<rparr>"
  let ?e = "\<lparr>e_host = set_kern (sim0\<lparr>sim_regs := ?r, sim_fds := [5]\<rparr>) (demo_host []), e_app = main_app0\<rparr> :: (sim, sim main_app) env"
  have regs: "kregs sim_kernel (v_fd demo_vcpu) (e_host ?e) = Some ?r" by (simp add: kregs_def demo_vcpu_def)
  obtain t' e' where h: "CpuidHandler_handle sim_kernel demo_vcpu (main_cpuid sim_kernel) ?e = (True, t', e')"
    by (simp add: CpuidHandler_handle_def on_host_def VCpu_getRegs_def VCpu_setRegs_def demo_vcpu_def main_cpuid_def
        CpuidHandler_registerLeaf_def cpuid_leaf1_def sim_ioctl_def Let_def)
  have "kregs sim_kernel (v_fd demo_vcpu) (e_host e') = Some (?r\<lparr>rax := 0, rbx := 0, rcx := 0, rdx := 0\<rparr>)"
    by (rule leaf1_answers_zero [OF sim_reg_laws sim_errno_law regs _ _ h]) (simp_all add: bit_iff_odd)
  with h show ?thesis by (simp add: demo_vcpu_def) (simp add: kvm_regs0_def)
qed

theorem cpuid_table_unmodified_witness:
  "\<exists>entries d' s'. build_cpuid sim_kernel cpuid_leaves [] (snd (EventDispatcher_subscribeAll logger EventDispatcher0))
       \<lparr>e_host = demo_host [], e_app = main_app0\<rparr> = Some (entries, d', s') \<and>
     d_publishedCount d' = 9 \<and> ce_ecx (entries ! 1) = 0x80000001"
proof -
  let ?d = "snd (EventDispatcher_subscribeAll logger EventDispatcher0) :: sim main_env EventDispatcher"
  obtain entries d' s' where b: "build_cpuid sim_kernel cpuid_leaves [] ?d \<lparr>e_host = demo_host [], e_app = main_app0\<rparr> = Some (entries, d', s')"
    using build_cpuid_total [of ?d] by (force simp: EventDispatcher_subscribeAll_def EventDispatcher0_def logger_def Let_def)
  note t = cpuid_table_unmodified [OF b]
  have "d_publishedCount ?d = 0" by (simp add: EventDispatcher_subscribeAll_def EventDispatcher0_def Let_def)
  moreover have "\<exists>h. entries ! 1 = host_entry sim_kernel h (cpuid_leaves ! 1)"
    by (rule list_all2_nthD [OF conjunct1 [OF t]]) (simp add: cpuid_leaves_def)
  then have "ce_ecx (entries ! 1) = 0x80000001"
    by (auto simp: host_entry_def CpuidHandler_executeHostCpuid_def Let_def)
  ultimately show ?thesis using b t by (intro exI conjI) (assumption, simp_all)
qed

end
