(* ===== verification/Hv_Safety.thy ===== *)
theory Hv_Safety
  imports Hv_Main
begin

text \<open>
  The program's parts put together: the invariant of the objects that the program wires up, that every
  callback and listener of it keeps the invariant, and what this gives for the snapshot, the run loop
  and the repeated runs.
\<close>

section \<open>The invariant\<close>

text \<open>
  The agent's objects are in order, the machine's regions are mapped, and the lines printed for the
  agent are its log, line by line.
\<close>

definition vmi_line :: "IntrospectionEvent \<Rightarrow> stream \<times> string" where
  "vmi_line ie = (Stdout, vmi_tag @ ie_summary ie @ [nl])"

definition main_inv :: "VirtualMachine \<Rightarrow> 'k main_app app_inv" where
  "main_inv vm shape app \<longleftrightarrow> agent_inv (aa_agent app) shape \<and>
     (\<forall>r \<in> set (vm_memoryRegions vm). region_mapped shape r) \<and> vmi_callbacks (aa_agent app) = [vmi_print] \<and>
     tagged vmi_tag (ms_console (aa_user app)) = map vmi_line (vmi_eventLog (aa_agent app))"

text \<open>The objects of the program without what it prints for the agent.\<close>

definition ignores_printing :: "'k main_app app_inv \<Rightarrow> bool" where
  "ignores_printing I \<longleftrightarrow> (\<forall>shape app u.
     tagged vmi_tag (ms_console u) = tagged vmi_tag (ms_console (aa_user app)) \<longrightarrow> I shape (app\<lparr>aa_user := u\<rparr>) = I shape app)"

lemma main_inv_user: "ignores_printing (main_inv vm)"
  by (simp add: ignores_printing_def main_inv_def)

lemma on_user_simps [simp]:
  "e_host (on_user f e) = e_host e" "e_app (on_user f e) = (e_app e)\<lparr>aa_user := f (aa_user (e_app e))\<rparr>"
  by (simp_all add: on_user_def)

lemma on_user_host: "(on_user f e)\<lparr>e_host := h\<rparr> = on_user f (e\<lparr>e_host := h\<rparr>)"
  by (simp add: on_user_def)

lemma vmi_tag_length: "length vmi_tag = 8"
  by (simp add: vmi_tag_def)

lemma bracket_untagged [simp]: "CHR ''['' # text \<noteq> vmi_tag"
  by (simp add: vmi_tag_def)

lemma tagged_println:
  "take 8 (text @ [nl]) \<noteq> vmi_tag \<Longrightarrow> tagged vmi_tag (println_on s text c) = tagged vmi_tag c"
  by (simp add: tagged_print println_on_def vmi_tag_length del: take_append)

lemma tagged_user:
  "take 8 (text @ [nl]) \<noteq> vmi_tag \<Longrightarrow> tagged vmi_tag (ms_console (user_println s text u)) = tagged vmi_tag (ms_console u)"
  "take 8 text \<noteq> vmi_tag \<Longrightarrow> tagged vmi_tag (ms_console (user_print s text u)) = tagged vmi_tag (ms_console u)"
  by (simp_all add: user_println_def user_print_def tagged_println tagged_print vmi_tag_length del: take_append)

lemma ready_say:
  assumes "ignores_printing I" and "take 8 (text @ [nl]) \<noteq> vmi_tag"
  shows "env_ready I p (on_user (user_println s text) e) = env_ready I p e"
  using assms(1) tagged_user(1) [OF assms(2)] by (simp add: env_ready_def ignores_printing_def)

lemma agent_prints:
  fixes e :: "'k main_env"
  assumes laws: "reg_laws K" "clock_frame K" and inv: "agent_inv (aa_agent (e_app e)) (heap_shape (e_host e))"
    and cbs: "vmi_callbacks (aa_agent (e_app e)) = [vmi_print]"
  shows "\<exists>ie h1. VmiAgent_handleHvEvent K ev e = Some \<lparr>e_host = h1, e_app = \<lparr>aa_agent = (aa_agent (e_app e))
         \<lparr>vmi_eventLog := vmi_eventLog (aa_agent (e_app e)) @ [ie]\<rparr>,
         aa_user = user_println Stdout (vmi_tag @ ie_summary ie) (aa_user (e_app e))\<rparr>\<rparr> \<and>
     undisturbed K (e_host e) h1 \<and> ie_base ie = ev"
proof -
  let ?a = "aa_agent (e_app e)"
  obtain snap h1 where s: "VmiAgent_snapshotRegisters K ?a (ev_vcpu_id ev) (e_host e) = (snap, h1)" by fastforce
  have und: "undisturbed K (e_host e) h1" by (rule snapshotRegisters_frame [OF laws s])
  then have "heap_shape h1 = heap_shape (e_host e)" by (simp add: undisturbed_def heap_shape_def)
  with inv dump_defined [of ?a h1] obtain dump where d: "(if vmi_memDumpEnabled ?a
      then VmiAgent_readGuestPhysMemory ?a (vmi_memDumpAddr ?a) (vmi_memDumpSize ?a) h1 else Some []) = Some dump" by auto
  note eq = handle_eq [OF s d refl refl]
  let ?s = "case snap of None \<Rightarrow> GuestSnapshot0 | Some s \<Rightarrow> s"
  let ?ie = "\<lparr>ie_base = ev, ie_snapshot = ?s, ie_memDump = (if dump \<noteq> [] then Some dump else None),
    ie_summary = VmiAgent_buildSummary ev ?s\<rparr>"
  show ?thesis
    by (rule exI [of _ ?ie], rule exI [of _ h1]) (unfold eq, simp add: cbs vmi_print_def und)
qed

lemma agent_listens:
  assumes laws: "reg_laws K" "clock_frame K" and ready: "env_ready (main_inv vm) p e"
  shows "\<exists>e'. VmiAgent_handleHvEvent K ev e = Some e' \<and> env_ready (main_inv vm) p e'"
proof -
  have "agent_inv (aa_agent (e_app e)) (heap_shape (e_host e))" "vmi_callbacks (aa_agent (e_app e)) = [vmi_print]"
    using ready by (simp_all add: env_ready_def main_inv_def)
  from agent_prints [OF laws this] ready show ?thesis
    by (fastforce simp: env_ready_def main_inv_def page_ready_def undisturbed_def heap_shape_def user_println_def
        println_on_def tagged_print vmi_line_def)
qed

lemma logger_tags: "take 8 (event_tag ty) \<noteq> vmi_tag"
  by (cases ty) (simp_all add: vmi_tag_def)

lemma logger_listens:
  assumes "ignores_printing I" and "env_ready I p e"
  shows "\<exists>e'. logger ev e = Some e' \<and> env_ready I p e'"
proof -
  let ?e = "on_user (user_print Stdout (event_tag (ev_type ev))) e"
  have "env_ready I p ?e"
    using assms tagged_user(2) [OF logger_tags] by (simp add: env_ready_def ignores_printing_def)
  then show ?thesis
    unfolding logger_def Let_def using ready_say [OF assms(1)] by (auto simp: vmi_tag_def)
qed

lemma main_listeners_eq:
  "main_listeners K vm =
     (\<lparr>vmi_vm = Some vm, vmi_dispatch = True, vmi_callbacks = [vmi_print], vmi_eventLog = [], vmi_subId = 1,
       vmi_memDumpEnabled = False, vmi_memDumpAddr = 0, vmi_memDumpSize = 0\<rparr>,
      Some \<lparr>d_subscriptions =
         [\<lparr>sub_id = 1, sub_filter = None, sub_handler = VmiAgent_handleHvEvent K\<rparr>,
          \<lparr>sub_id = 2, sub_filter = None, sub_handler = logger\<rparr>],
        d_nextId = 3, d_publishedCount = 0\<rparr>)"
  by (simp add: main_listeners_def VmiAgent_new_def VmiAgent_onEvent_def EventDispatcher_subscribeAll_def
      EventDispatcher0_def Let_def)

lemma main_listeners_ok:
  assumes "reg_laws K" "clock_frame K" and "main_listeners K vm' = (a, Some d)"
  shows "listeners_ok (main_inv vm) p d" and "agent_subscribed K d" and "d_publishedCount d = 0"
proof -
  have d: "d_subscriptions d = [\<lparr>sub_id = 1, sub_filter = None, sub_handler = VmiAgent_handleHvEvent K\<rparr>,
      \<lparr>sub_id = 2, sub_filter = None, sub_handler = logger\<rparr>]"
    and count: "d_publishedCount d = 0" using assms(3) by (auto simp: main_listeners_eq)
  show "listeners_ok (main_inv vm) p d"
    using agent_listens [OF assms(1,2)] logger_listens [OF main_inv_user] by (auto simp: listeners_ok_def d)
  show "agent_subscribed K d"
    unfolding agent_subscribed_def d
    by (intro exI [of _ "[]"] exI [of _ "[\<lparr>sub_id = 2, sub_filter = None, sub_handler = logger\<rparr>]"] exI [of _ 1])
      (auto simp: keeps_agent_def logger_def Let_def)
  show "d_publishedCount d = 0" by (rule count)
qed

lemma main_agent_inv: "agent_inv (fst (main_listeners K vm)) shape"
  by (simp add: main_listeners_eq agent_inv_def callback_quiet_def vmi_print_def)

text \<open>The objects as the program wires them up, with what has been printed so far.\<close>

definition wired :: "'k kernel \<Rightarrow> VirtualMachine \<Rightarrow> console \<Rightarrow> 'k host \<Rightarrow> 'k main_env" where
  "wired K vm out h = \<lparr>e_host = h, e_app = \<lparr>aa_agent = fst (main_listeners K vm),
     aa_user = \<lparr>ms_mmio = MmioDeviceState0, ms_console = out\<rparr>\<rparr>\<rparr>"

lemma wired_ready:
  assumes "\<forall>r \<in> set (vm_memoryRegions vm). region_live h r" and "page_ready p h" and "tagged vmi_tag out = []"
  shows "env_ready (main_inv vm) p (wired K vm out h)"
  using assms by (simp add: env_ready_def main_inv_def wired_def main_agent_inv region_live_shape)
    (simp add: main_listeners_eq)

section \<open>The devices keep it\<close>

lemma main_cpuid_quiet: "reg_laws K \<Longrightarrow> cpuid_quiet I K (main_cpuid K)"
  by (auto simp: cpuid_quiet_def main_cpuid_def CpuidHandler_registerLeaf_def CpuidHandler0_def keeps_ready_def
      cpuid_leaf1_def split_def Let_def split: if_splits)

lemma main_io_quiet:
  assumes "ignores_printing I"
  shows "io_quiet I main_io"
proof -
  have "tagged vmi_tag (ms_console (user_println Stdout ''  [IO] Guest read from port 0x60 (keyboard)'' u)) =
      tagged vmi_tag (ms_console u)" for u by (rule tagged_user) (simp add: vmi_tag_def)
  with assms have "keeps_ready I (\<lambda>e. snd (keyboard_in ctx e))" for ctx
    by (simp add: keeps_ready_def keyboard_in_def ignores_printing_def)
  then show ?thesis
    by (auto simp: io_quiet_def main_io_def IoPortHandler_registerInPort_def IoPortHandler0_def split: if_splits)
qed

lemma main_mmio_quiet:
  assumes "ignores_printing I"
  shows "mmio_quiet I main_mmio"
proof -
  have "tagged vmi_tag (ms_console (user_println Stdout (''  [MMIO] write input=0x'' @ t) u)) = tagged vmi_tag (ms_console u)"
    for u t by (rule tagged_user) (simp add: vmi_tag_def)
  with assms have "keeps_ready I (input_write ctx)" for ctx
    by (simp add: keeps_ready_def input_write_def ignores_printing_def)
  moreover have "keeps_ready I (\<lambda>e. snd (magic_read ctx e))" "keeps_ready I (\<lambda>e. snd (status_read ctx e))" for ctx
    by (simp_all add: keeps_ready_def magic_read_def status_read_def Let_def)
  ultimately show ?thesis
    by (auto simp: mmio_quiet_def main_mmio_defs split: if_splits)
qed

definition main_trapper :: "'k kernel \<Rightarrow> VCpu \<Rightarrow> ('k, 'k main_app) env EventDispatcher \<Rightarrow> ('k, 'k main_app) InstructionTrapper" where
  "main_trapper K vcpu d = InstructionTrapper_new vcpu (Some (main_cpuid K)) (Some main_io) (Some MsrHandler0)
     (Some main_mmio) (Some d)"

lemma main_trapper_safe:
  assumes "reg_laws K" and "listeners_ok (main_inv vm) (v_runPage v) d"
  shows "trapper_safe (main_inv vm) K v (main_trapper K v d)"
  using assms
  by (simp add: trapper_safe_def main_trapper_def InstructionTrapper_new_def main_cpuid_quiet main_io_quiet [OF main_inv_user]
      main_mmio_quiet [OF main_inv_user])

lemma cpuid_line_tag: "take 8 (cpuid_line e @ [nl]) \<noteq> vmi_tag"
  by (simp add: cpuid_line_def vmi_tag_def)

lemma build_cpuid_returns:
  assumes clock: "clock_frame K" and I: "ignores_printing I" and "listeners_ok I p d" and "env_ready I p s"
  shows "\<exists>es' d' s'. build_cpuid K leaves es d s = Some (es', d', s') \<and> listeners_ok I p d' \<and> env_ready I p s'"
  using assms(3,4)
proof (induction leaves arbitrary: es d s)
  case (Cons leaf leaves)
  obtain e now ce s1 where c: "on_host (clock_now K) (say (cpuid_line e) s) = (now, s1)"
    and b: "build_cpuid K (leaf # leaves) es d s =
      EventDispatcher_publish d \<lparr>ev_type = ET_CpuidAccess, ev_vcpu_id = 0, ev_rip = 0, ev_timestamp = now,
          ev_payload = PL_Cpuid ce\<rparr> s1 \<bind>
        (\<lambda>(d', s2). build_cpuid K leaves (es @ [host_entry K (e_host s) leaf]) d' s2)" by (rule build_cpuid_round)
  have s1: "env_ready I p s1"
    using Cons.prems(2) clock_ready(1) [OF clock c] ready_say [OF I cpuid_line_tag] by simp
  obtain s2 where "EventDispatcher_publish d \<lparr>ev_type = ET_CpuidAccess, ev_vcpu_id = 0, ev_rip = 0, ev_timestamp = now,
          ev_payload = PL_Cpuid ce\<rparr> s1 = Some (bump d, s2)" and s2: "env_ready I p s2"
    using deliver_returns [OF Cons.prems(1) [unfolded listeners_ok_def] s1, of "\<lparr>ev_type = ET_CpuidAccess, ev_vcpu_id = 0,
        ev_rip = 0, ev_timestamp = now, ev_payload = PL_Cpuid ce\<rparr>"]
    by (auto simp: EventDispatcher_publish_def bump_def)
  moreover have "listeners_ok I p (bump d)" using Cons.prems(1) by (simp add: listeners_ok_def bump_def)
  ultimately show ?case using b Cons.IH [OF _ s2] by simp
qed simp

section \<open>Snapshot, input and run\<close>

text \<open>A machine whose regions are mapped, as the invariant says it of the mappings' sizes.\<close>

lemma main_inv_live:
  "env_ready (main_inv vm) p e \<Longrightarrow> \<forall>r \<in> set (vm_memoryRegions vm). region_live (e_host e) r"
  by (simp add: env_ready_def main_inv_def region_live_shape)

definition snap_fits :: "VirtualMachine \<Rightarrow> VmSnapShot \<Rightarrow> bool" where
  "snap_fits vm snap \<longleftrightarrow> list_all2 (\<lambda>r bs. length bs = unat (m_size r)) (vm_memoryRegions vm) (snap_memoryRegions snap)"

lemma takeSnapShot_ready:
  assumes laws: "reg_laws K" and v: "vm_vcpus vm = v # vs" and ready: "env_ready (main_inv vm) p e"
  shows "\<exists>snap h'. VirtualMachine_takeSnapShot K vm (e_host e) = Some (snap, h') \<and>
    env_ready (main_inv vm) p (e\<lparr>e_host := h'\<rparr>) \<and> snap_fits vm snap \<and>
    snap_memoryRegions snap = map (region_bytes (e_host e)) (vm_memoryRegions vm) \<and> h_heap h' = h_heap (e_host e)"
proof -
  obtain g h1 where g: "VCpu_getRegs K v (e_host e) = (g, h1)" by fastforce
  obtain g' h2 where g': "VCpu_getSregs K v h1 = (g', h2)" by fastforce
  have h2: "h_heap h2 = h_heap (e_host e)" "h_runs h2 = h_runs (e_host e)"
    using getRegs_kregs(2,3) [OF laws g] getSregs_ksregs(2,3) [OF laws g'] by simp_all
  have live: "\<forall>r \<in> set (vm_memoryRegions vm). region_live h2 r"
    using main_inv_live [OF ready] region_live_cong [OF h2(1)] by simp
  have "env_ready (main_inv vm) p (e\<lparr>e_host := h2\<rparr>)"
    using ready env_ready_cong [of "e\<lparr>e_host := h2\<rparr>" e] h2 by simp
  moreover have "list_all2 (\<lambda>r bs. length bs = unat (m_size r)) (vm_memoryRegions vm) (map (region_bytes h2) (vm_memoryRegions vm))"
    using live by (auto simp: list_all2_map2 list_all2_same region_live_length)
  moreover have "region_bytes h2 = region_bytes (e_host e)" using region_bytes_cong [OF h2(1)] by blast
  ultimately show ?thesis
    using snapshot_regions_live [OF live] v g g' h2(1) by (simp add: VirtualMachine_takeSnapShot_def snap_fits_def)
qed

lemma restore_regions_shape:
  "restore_regions rs bss h = Some h' \<Longrightarrow> heap_shape h' = heap_shape h \<and> h_runs h' = h_runs h"
proof (induction rs bss h rule: restore_regions.induct)
  case (2 r rs snaps h)
  show ?case
  proof (cases "m_hostAddr r = 0 \<or> snaps = [] \<or> hd snaps = []")
    case False
    with 2(3) obtain bs h1 where ld: "load_at (hd snaps) 0 (unat (m_size r)) = Some bs"
      and st: "heap_store h (m_hostAddr r) 0 bs = Some h1" and rest: "restore_regions rs (tl snaps) h1 = Some h'"
      by (auto split: Option.bind_splits)
    from 2(2) [OF False ld st rest] heap_shape_store [OF st] heap_store_block(3) [OF st] show ?thesis by simp
  qed (use 2 in simp)
qed simp

lemma restore_ready:
  assumes laws: "reg_laws K" and v: "vm_vcpus vm = v # vs" and ready: "env_ready (main_inv vm) p e"
    and snap: "snap_fits vm snap" "distinct (map m_hostAddr (vm_memoryRegions vm))"
  shows "\<exists>cr cs h'. VirtualMachine_restoreSnapshot K vm snap (e_host e) = Some (cr, cs, h') \<and>
    env_ready (main_inv vm) p (e\<lparr>e_host := h'\<rparr>) \<and>
    map (region_bytes h') (vm_memoryRegions vm) = snap_memoryRegions snap"
proof -
  obtain cr h1 where sr: "VCpu_setRegs K v (snap_regs snap) (e_host e) = (cr, h1)" by fastforce
  obtain cs h2 where ss: "VCpu_setSregs K v (snap_sregs snap) h1 = (cs, h2)" by fastforce
  have h2: "h_heap h2 = h_heap (e_host e)" "h_runs h2 = h_runs (e_host e)"
    using setRegs_ok(1,2) [OF laws sr] setSregs_ok(1,2) [OF laws ss] by simp_all
  have "\<forall>r \<in> set (vm_memoryRegions vm). region_live h2 r"
    using main_inv_live [OF ready] region_live_cong [OF h2(1)] by simp
  from restore_regions_exact [OF this snap(2) snap(1) [unfolded snap_fits_def]] obtain h' where
    r: "restore_regions (vm_memoryRegions vm) (snap_memoryRegions snap) h2 = Some h'"
    and bytes: "map (region_bytes h') (vm_memoryRegions vm) = snap_memoryRegions snap" by blast
  have "env_ready (main_inv vm) p (e\<lparr>e_host := h'\<rparr>)"
    using ready restore_regions_shape [OF r] heap_shape_cong [OF h2(1)] h2(2) by (simp add: env_ready_def page_ready_def)
  with v sr ss r bytes show ?thesis by (simp add: VirtualMachine_restoreSnapshot_def)
qed

text \<open>The first region is large enough for the injected byte.\<close>

definition machine_ok :: "VirtualMachine \<Rightarrow> VCpu \<Rightarrow> bool" where
  "machine_ok vm v \<longleftrightarrow> (\<exists>vs r rs. vm_vcpus vm = v # vs \<and> vm_memoryRegions vm = r # rs \<and> 0x2000 < unat (m_size r)) \<and>
     distinct (map m_hostAddr (vm_memoryRegions vm))"

lemma region_bytes_store:
  assumes "heap_store h (m_hostAddr r) off [b] = Some h'"
  shows "region_bytes h' r = (region_bytes h r)[off := b]"
  using heap_store_block(1) [OF assms]
  by (auto simp: region_bytes_def store_at_def upd_conv_take_nth_drop split: if_splits)

lemma fuzz_prepare_ready:
  assumes laws: "reg_laws K" and vm: "machine_ok vm v" and ready: "env_ready (main_inv vm) p e" and snap: "snap_fits vm snap"
  shows "\<exists>cr cs h1 h'. fuzz_prepare K vm snap i (e_host e) = Some (cr, cs, h') \<and> env_ready (main_inv vm) p (e\<lparr>e_host := h'\<rparr>) \<and>
    (i > 0 \<longrightarrow> map (region_bytes h1) (vm_memoryRegions vm) = snap_memoryRegions snap) \<and> (i = 0 \<longrightarrow> h1 = e_host e) \<and>
    region_bytes h' (hd (vm_memoryRegions vm)) =
      (region_bytes h1 (hd (vm_memoryRegions vm)))[0x2000 := fuzzInput ! (i mod length fuzzInput)] \<and>
    (\<forall>q. q \<noteq> m_hostAddr (hd (vm_memoryRegions vm)) \<longrightarrow> h_heap h' q = h_heap h1 q)"
proof -
  from vm obtain vs r rs where v: "vm_vcpus vm = v # vs" and r: "vm_memoryRegions vm = r # rs"
    and size: "0x2000 < unat (m_size r)" and dist: "distinct (map m_hostAddr (vm_memoryRegions vm))"
    unfolding machine_ok_def by blast
  obtain cr cs h1 where h1: "(if i > 0 then VirtualMachine_restoreSnapshot K vm snap (e_host e) else Some (ok_code, ok_code, e_host e)) =
      Some (cr, cs, h1)" and ready1: "env_ready (main_inv vm) p (e\<lparr>e_host := h1\<rparr>)"
    and rewound: "i > 0 \<longrightarrow> map (region_bytes h1) (vm_memoryRegions vm) = snap_memoryRegions snap" "i = 0 \<longrightarrow> h1 = e_host e"
    using restore_ready [OF laws v ready snap dist] ready by (cases "i = 0") auto
  have live: "region_live h1 r" using main_inv_live [OF ready1] r by simp
  then have "0x2000 + length [fuzzInput ! (i mod length fuzzInput)] \<le> length (block h1 (m_hostAddr r))"
    using size region_live_length [OF live] by (simp add: region_bytes_def)
  then obtain h' where st: "heap_store h1 (m_hostAddr r) 0x2000 [fuzzInput ! (i mod length fuzzInput)] = Some h'"
    by (rule heap_store_defined)
  have "env_ready (main_inv vm) p (e\<lparr>e_host := h'\<rparr>)"
    using ready1 heap_shape_store [OF st] heap_store_block(3) [OF st] by (simp add: env_ready_def page_ready_def)
  moreover have "fuzz_prepare K vm snap i (e_host e) = Some (cr, cs, h')"
    unfolding fuzz_prepare_def h1 by (simp add: first_region_def r st)
  ultimately show ?thesis
    using rewound region_bytes_store [OF st] heap_store_block(2) [OF st] by (intro exI [of _ cr] exI [of _ cs] exI [of _ h1] exI [of _ h']) (simp add: r)
qed

text \<open>What is printed before and after a run does not look like the agent's lines.\<close>

lemma say_prepared_ready:
  assumes I: "ignores_printing I" and vm: "machine_ok vm v" and ready: "env_ready I p e"
    and live: "\<forall>r \<in> set (vm_memoryRegions vm). region_live (e_host e) r"
  shows "\<exists>e'. say_prepared message vm cr cs i e = Some e' \<and> env_ready I p e' \<and> e_host e' = e_host e \<and>
    aa_agent (e_app e') = aa_agent (e_app e) \<and> ms_mmio (aa_user (e_app e')) = ms_mmio (aa_user (e_app e))"
proof -
  from vm obtain r rs where r: "vm_memoryRegions vm = r # rs" and size: "0x2000 < unat (m_size r)"
    unfolding machine_ok_def by blast
  have "0x2000 + 1 \<le> length (block (e_host e) (m_hostAddr r))"
    using size live region_live_length [of "e_host e" r] by (simp add: r region_bytes_def)
  then obtain b where "heap_load (e_host e) (m_hostAddr r) 0x2000 1 = Some b" by (simp add: heap_load_def load_at_def)
  then show ?thesis
    using ready by (simp add: say_prepared_def say_restored_def first_region_def r ready_say [OF I] user_println_def Let_def)
qed

lemma say_result_ready:
  assumes "ignores_printing I"
  shows "env_ready I p (say_result r e) = env_ready I p e" and "e_host (say_result r e) = e_host e"
    and "aa_agent (e_app (say_result r e)) = aa_agent (e_app e)"
    and "ms_mmio (aa_user (e_app (say_result r e))) = ms_mmio (aa_user (e_app e))"
  by (cases r; simp add: say_result_def ready_say [OF assms] vmi_tag_def user_println_def)+

lemma say_exits_ready:
  assumes "ignores_printing I"
  shows "env_ready I p (say (exits_line t) e) = env_ready I p e"
  by (rule ready_say [OF assms]) (simp add: exits_line_def vmi_tag_def)

section \<open>Repeated runs\<close>

text \<open>The guest does not run forever: wherever it is entered, some exit ends the run loop.\<close>

definition guest_stops :: "'a app_inv \<Rightarrow> 'k kernel \<Rightarrow> VCpu \<Rightarrow> bool" where
  "guest_stops I K v \<longleftrightarrow> (\<forall>t e. trapper_safe I K v t \<longrightarrow> env_ready I (v_runPage v) e \<longrightarrow>
     (\<exists>n t1 (e1 :: ('k, 'a) env) y. trap_steps K n (t, e) (t1, e1) \<and> InstructionTrapper_step K t1 e1 = Some y \<and> fst y \<noteq> RR_Continue))"

lemma runLoop_stops:
  assumes laws: "reg_laws K" "clock_frame K" "run_law K" and stops: "guest_stops I K v"
    and safe: "trapper_safe I K v t" and ready: "env_ready I (v_runPage v) e"
  shows "\<exists>r t' e'. InstructionTrapper_runLoop K 0 t e = Some (r, t', e') \<and> r \<noteq> RR_Continue \<and>
    trapper_safe I K v t' \<and> env_ready I (v_runPage v) e'"
proof -
  obtain n t1 e1 y where n: "trap_steps K n (t, e) (t1, e1)" and y: "InstructionTrapper_step K t1 e1 = Some y" "fst y \<noteq> RR_Continue"
    using stops [unfolded guest_stops_def, rule_format, OF safe ready] by blast
  have "InstructionTrapper_runLoop K 0 t e = Some y"
    unfolding InstructionTrapper_runLoop_def by (rule run_iterations_complete [OF n]) (simp add: loop_ends_def y)
  moreover have "outcome_ok I K v (Some y)"
    using steps_keep_safe [OF n laws, of I v] safe ready step_ok [OF laws, of I v t1 e1] y(1) by simp
  ultimately show ?thesis using y(2) by (cases y) auto
qed

lemma fuzz_runs_returns:
  fixes K :: "'k kernel" and e :: "('k, 'k main_app) env"
  assumes laws: "reg_laws K" "clock_frame K" "run_law K" and stops: "guest_stops (main_inv vm :: 'k main_app app_inv) K v"
    and vm: "machine_ok vm v" and snap: "snap_fits vm snap"
    and "trapper_safe (main_inv vm) K v t" and "env_ready (main_inv vm) (v_runPage v) e"
  shows "\<exists>ok t' e'. fuzz_runs K message vm snap n i t e = Some (ok, t', e') \<and>
    trapper_safe (main_inv vm) K v t' \<and> env_ready (main_inv vm) (v_runPage v) e'"
  using assms(7,8)
proof (induction n arbitrary: i t e)
  case (Suc n)
  have I: "ignores_printing (main_inv vm :: 'k main_app app_inv)" by (rule main_inv_user)
  obtain cr cs h1 where h1: "fuzz_prepare K vm snap i (e_host e) = Some (cr, cs, h1)"
    and ready1: "env_ready (main_inv vm) (v_runPage v) (e\<lparr>e_host := h1\<rparr>)"
    using fuzz_prepare_ready [OF laws(1) vm Suc.prems(2) snap, of i] by blast
  obtain e1 where e1: "say_prepared message vm cr cs i (e\<lparr>e_host := h1\<rparr>) = Some e1" "env_ready (main_inv vm) (v_runPage v) e1"
    using say_prepared_ready [OF I vm ready1 main_inv_live [OF ready1]] by blast
  obtain r t1 e2 where l: "InstructionTrapper_runLoop K 0 t e1 = Some (r, t1, e2)"
    and t1: "trapper_safe (main_inv vm) K v t1" "env_ready (main_inv vm) (v_runPage v) e2"
    using runLoop_stops [OF laws stops Suc.prems(1) e1(2)] by blast
  have e3: "env_ready (main_inv vm) (v_runPage v) (say_result r (say (exits_line t1) e2))"
    using t1(2) by (simp add: say_result_ready(1) [OF I] say_exits_ready [OF I])
  from Suc.IH [OF t1(1) e3, of "i + 1"] t1(1) e3 show ?case by (cases "r = RR_Error") (auto simp: h1 l e1(1) Let_def)
qed auto

lemma fuzz_runs_dispatch:
  assumes "fuzz_runs K message vm snap n i t e = Some (ok, t', e')" and "it_dispatch t = Some d"
  shows "\<exists>m. it_dispatch t' = Some (d\<lparr>d_publishedCount := m\<rparr>)"
  using assms
proof (induction n arbitrary: i t e d)
  case 0
  then show ?case by (intro exI [of _ "d_publishedCount d"]) simp
next
  case (Suc n)
  from Suc.prems(1) obtain e1 r t1 e2 where l: "InstructionTrapper_runLoop K 0 t e1 = Some (r, t1, e2)"
    and rest: "t' = t1 \<or> (\<exists>e3. fuzz_runs K message vm snap n (Suc i) t1 e3 = Some (ok, t', e'))"
    by (auto simp: Let_def split: Option.bind_splits if_splits) blast
  from runLoop_dispatch [OF l Suc.prems(2)] obtain m where "it_dispatch t1 = Some (d\<lparr>d_publishedCount := m\<rparr>)" by blast
  with rest Suc.IH [of "Suc i" t1] show ?case by fastforce
qed

section \<open>From the loaded guest to the end\<close>

text \<open>The table is installed and the snapshot taken: what is left of the state.\<close>

lemma installCpuid_frame:
  assumes "mem_laws K" and "VCpu_installCpuid K v es h = (ec, h1)"
  shows "h_heap h1 = h_heap h" and "h_runs h1 = h_runs h"
  using assms(2) ioctlD [OF assms(1)] by (auto simp: VCpu_installCpuid_def Let_def split: prod.splits if_splits)

text \<open>
  What follows the CPUID table, given the result of installing it; and the states up to there: the listeners, the
  table, its installation, the snapshot.
\<close>

definition after_setup ::
  "'k kernel \<Rightarrow> 'k library \<Rightarrow> KvmSystem \<Rightarrow> VirtualMachine \<Rightarrow> error_code \<Rightarrow> 'k host \<Rightarrow> 'k main_env \<Rightarrow> VmSnapShot \<Rightarrow>
     ('k, 'k main_app) InstructionTrapper \<Rightarrow> 'k main_env \<Rightarrow> (int \<times> console \<times> 'k host) option" where
  "after_setup K L kvm_sys vm ec h1 e1 snap trapper e2 =
     (if ec \<noteq> ok_code
      then main_exit K kvm_sys vm 1 (printed (complain (''[!] KVM_SET_CPUID2 failed: '' @ ec_message L ec) e1)) h1
      else fuzz_runs K (ec_message L) vm snap 3 0 trapper e2 \<bind>
        (\<lambda>(ok, trapper, e). if \<not> ok then main_exit K kvm_sys vm 1 (printed e) (e_host e)
           else main_finish K L kvm_sys vm trapper e))"

definition set_up ::
  "'k kernel \<Rightarrow> VirtualMachine \<Rightarrow> VCpu \<Rightarrow> console \<Rightarrow> 'k host \<Rightarrow> 'k main_env EventDispatcher \<Rightarrow> kvm_cpuid_entry2 list \<Rightarrow>
     'k main_env EventDispatcher \<Rightarrow> 'k main_env \<Rightarrow> error_code \<Rightarrow> 'k host \<Rightarrow> VmSnapShot \<Rightarrow> 'k main_env \<Rightarrow> bool" where
  "set_up K vm v out h d es d1 e1 ec h1 snap e2 \<longleftrightarrow>
     main_listeners K vm = (fst (main_listeners K vm), Some d) \<and>
     build_cpuid K cpuid_leaves [] d (wired K vm out h) = Some (es, d1, e1) \<and>
     VCpu_installCpuid K v es (e_host e1) = (ec, h1) \<and>
     VirtualMachine_takeSnapShot K vm h1 = Some (snap, e_host e2) \<and>
     aa_agent (e_app e2) = aa_agent (e_app e1) \<and> ms_mmio (aa_user (e_app e2)) = ms_mmio (aa_user (e_app e1)) \<and>
     listeners_ok (main_inv vm) (v_runPage v) d1 \<and> snap_fits vm snap \<and>
     env_ready (main_inv vm) (v_runPage v) e1 \<and> env_ready (main_inv vm) (v_runPage v) e2"

lemma set_upD:
  assumes "set_up K vm v out h d es d1 e1 ec h1 snap e2"
  shows "main_listeners K vm = (fst (main_listeners K vm), Some d)"
    and "build_cpuid K cpuid_leaves [] d (wired K vm out h) = Some (es, d1, e1)"
    and "VCpu_installCpuid K v es (e_host e1) = (ec, h1)" and "VirtualMachine_takeSnapShot K vm h1 = Some (snap, e_host e2)"
    and "aa_agent (e_app e2) = aa_agent (e_app e1)" "ms_mmio (aa_user (e_app e2)) = ms_mmio (aa_user (e_app e1))"
    and "listeners_ok (main_inv vm) (v_runPage v) d1" and "snap_fits vm snap"
    and "env_ready (main_inv vm) (v_runPage v) e1" "env_ready (main_inv vm) (v_runPage v) e2"
  using assms unfolding set_up_def by blast+

lemma main_trapper_dispatch [simp]: "it_dispatch (main_trapper K v d) = Some d"
  by (simp add: main_trapper_def InstructionTrapper_new_def)

lemma main_guest_start:
  fixes K :: "'k kernel"
  assumes laws: "reg_laws K" "clock_frame K" "mem_laws K"
    and vm: "machine_ok vm v" and live: "\<forall>r \<in> set (vm_memoryRegions vm). region_live h r"
    and page: "page_ready (v_runPage v) h" and out: "tagged vmi_tag out = []"
  obtains d es d1 e1 ec h1 snap e2 where "set_up K vm v out h d es d1 e1 ec h1 snap e2"
    and "main_guest K L kvm_sys vm out h = after_setup K L kvm_sys vm ec h1 e1 snap (main_trapper K v d1) e2"
proof -
  obtain vs where v: "vm_vcpus vm = v # vs" using vm unfolding machine_ok_def by blast
  obtain a d where l: "main_listeners K vm = (a, Some d)" by (simp add: main_listeners_eq)
  let ?I = "main_inv vm :: 'k main_app app_inv" and ?p = "v_runPage v"
  from build_cpuid_returns [OF laws(2) main_inv_user main_listeners_ok(1) [OF laws(1,2) l] wired_ready [OF live page out]]
  obtain es d1 e1 where b: "build_cpuid K cpuid_leaves [] d (wired K vm out h) = Some (es, d1, e1)"
    and d1: "listeners_ok ?I ?p d1" and e1: "env_ready ?I ?p e1" by blast
  obtain ec h1 where ic: "VCpu_installCpuid K v es (e_host e1) = (ec, h1)" by fastforce
  have "env_ready ?I ?p (e1\<lparr>e_host := h1\<rparr>)"
    using e1 env_ready_cong [of "e1\<lparr>e_host := h1\<rparr>" e1] installCpuid_frame [OF laws(3) ic] by simp
  from takeSnapShot_ready [OF laws(1) v this] obtain snap h2 where
    s: "VirtualMachine_takeSnapShot K vm h1 = Some (snap, h2)" and fits: "snap_fits vm snap"
    and e2: "env_ready ?I ?p (e1\<lparr>e_host := h2\<rparr>)" by auto
  let ?e2 = "say (''[+] VM snapshot taken ('' @ dec_nat (length (snap_memoryRegions snap)) @ '' memory regions)'')
      (say (''[+] CPUID table installed ('' @ dec_nat (length es) @ '' leaves)'') (e1\<lparr>e_host := h2\<rparr>))"
  have r2: "env_ready ?I ?p ?e2"
    using e2 by (simp add: ready_say [OF main_inv_user] vmi_tag_def)
  have "main_guest K L kvm_sys vm out h = after_setup K L kvm_sys vm ec h1 e1 snap (main_trapper K v d1) ?e2"
    using b ic s by (simp add: main_guest_def after_setup_def v l wired_def Let_def main_trapper_def on_user_host)
  moreover have "set_up K vm v out h d es d1 e1 ec h1 snap ?e2"
    unfolding set_up_def using b ic s d1 fits e1 l r2 by (simp add: user_println_def)
  ultimately show thesis using that by blast
qed

lemma main_guest_returns:
  fixes K :: "'k kernel"
  assumes laws: "reg_laws K" "clock_frame K" "run_law K" "mem_laws K"
    and vm: "machine_ok vm v" and live: "\<forall>r \<in> set (vm_memoryRegions vm). region_live h r"
    and page: "page_ready (v_runPage v) h" and out: "tagged vmi_tag out = []"
    and stops: "guest_stops (main_inv vm :: 'k main_app app_inv) K v"
  shows "\<exists>code out' h'. main_guest K L kvm_sys vm out h = Some (code, out', h') \<and> code \<in> {0, 1}"
proof (rule main_guest_start [OF laws(1,2,4) vm live page out, where L = L and kvm_sys = kvm_sys])
  fix d es d1 e1 ec h1 snap e2
  assume "set_up K vm v out h d es d1 e1 ec h1 snap e2"
    and g: "main_guest K L kvm_sys vm out h = after_setup K L kvm_sys vm ec h1 e1 snap (main_trapper K v d1) e2"
  note up = set_upD [OF this(1)]
  obtain ok t' e' where f: "fuzz_runs K (ec_message L) vm snap 3 0 (main_trapper K v d1) e2 = Some (ok, t', e')"
    using fuzz_runs_returns [OF laws(1-3) stops vm up(8) main_trapper_safe [OF laws(1) up(7)] up(10), of "ec_message L" 3 0] by blast
  from fuzz_runs_dispatch [OF f main_trapper_dispatch] f show ?thesis
    by (auto simp: g after_setup_def main_exit_def main_finish_def Let_def)
qed

lemma createVm_new:
  "KvmSystem_createVm K s h = (Inr vm, h') \<Longrightarrow> \<exists>fd n. vm = VirtualMachine_new fd n"
  by (auto simp: KvmSystem_createVm_def split: prod.splits if_splits)

lemma setupRealMode_runs:
  assumes "reg_laws K" and "GuestLoader_setupRealModeVCpu K v ip h = (ec, h')"
  shows "h_runs h' = h_runs h"
proof -
  obtain sr h1 where g: "VCpu_getSregs K v h = (sr, h1)" by fastforce
  show ?thesis
    using assms(2) g getSregs_ksregs(3) [OF assms(1) g]
    by (auto simp: GuestLoader_setupRealModeVCpu_def Let_def split: sum.splits prod.splits if_splits
        dest!: setRegs_ok(2) [OF assms(1)] setSregs_ok(2) [OF assms(1)])
qed

lemma loadBytes_machine:
  assumes laws: "mem_laws K" "mapping_law K" "errno_law K" "reg_laws K" "get_errno_law K"
    and len: "length code < 2 ^ 63"
  shows "\<exists>ec vm' h'. GuestLoader_loadBytes K (VirtualMachine_new fd n) code 0x1000 0x80000 h = Some (ec, vm', h') \<and>
    (ec = ok_code \<longrightarrow> (\<exists>v. machine_ok vm' v \<and> (\<forall>r \<in> set (vm_memoryRegions vm'). region_live h' r) \<and> page_ready (v_runPage v) h'))"
proof -
  have wrap: "unat (0x1000 :: u64) + length code < 2 ^ 64" using len by simp
  from laws(1-3) wrap show ?thesis
  proof (cases rule: boot_cases [where vm = "VirtualMachine_new fd n" and n = "0x80000" and h = h])
    case (early ec vm1 h1)
    then show ?thesis by (simp add: loadBytes_boot)
  next
    case (booted r v vm2 h3)
    obtain ec h4 where su: "GuestLoader_setupRealModeVCpu K v (ucast (0x1000 AND 0xFFFF :: u64)) h3 = (ec, h4)" by fastforce
    have "h_heap h4 = h_heap h3" "h_runs h4 = h_runs h3"
      by (rule setupRealMode_spec(1) [OF laws(4,3,5) su], rule setupRealMode_runs [OF laws(4) su])
    then have "region_live h4 r" "page_ready (v_runPage v) h4"
      using booted(5,8) by (simp_all add: region_live_def page_ready_def)
    moreover have "machine_ok vm2 v"
      using booted(4,9,10) by (simp add: machine_ok_def VirtualMachine_new_def)
    moreover have "vm_memoryRegions vm2 = [r]" using booted(9) by (simp add: VirtualMachine_new_def)
    ultimately show ?thesis using booted(1) su by (auto simp: loadBytes_boot)
  qed
qed

end
