(* ===== verification/Hv_Report.thy ===== *)
theory Hv_Report
  imports Hv_Safety
begin

text \<open>
  What the program reports: every event that is published while the guest runs is in the agent's log, on
  the console and in the written file; and the program as a whole returns. At the end, the concrete
  kernel and machine for the closed instances.
\<close>

section \<open>Well-typed events\<close>

text \<open>
  Which alternative of the payload belongs to which type of event, and which direction. The shutdown event
  never gets a payload and keeps the first alternative of the variant, all zero.
\<close>

fun payload_typed :: "EventType \<Rightarrow> EventPayload \<Rightarrow> bool" where
  "payload_typed ET_CpuidAccess (PL_Cpuid _) = True"
| "payload_typed ET_IoRead (PL_Io p) = (\<not> ioe_isWrite p)"
| "payload_typed ET_IoWrite (PL_Io p) = ioe_isWrite p"
| "payload_typed ET_MsrRead (PL_Msr p) = (\<not> mse_isWrite p)"
| "payload_typed ET_MsrWrite (PL_Msr p) = mse_isWrite p"
| "payload_typed ET_MemAccess (PL_Mmio _) = True"
| "payload_typed ET_GuestHalt PL_Monostate = True"
| "payload_typed ET_GuestShutdown (PL_Cpuid p) = (p = CpuidEvent0)"
| "payload_typed _ _ = False"

definition event_typed :: "HvEvent \<Rightarrow> bool" where
  "event_typed ev \<longleftrightarrow> payload_typed (ev_type ev) (ev_payload ev)"

lemma event_typed_simps [simp]:
  "event_typed (ev\<lparr>ev_vcpu_id := v\<rparr>) = event_typed ev" "event_typed (ev\<lparr>ev_rip := ip\<rparr>) = event_typed ev"
  "event_typed (ev\<lparr>ev_timestamp := now\<rparr>) = event_typed ev"
  "event_typed (ev\<lparr>ev_payload := p\<rparr>) = payload_typed (ev_type ev) p"
  "event_typed (HvEvent0 ET_GuestShutdown)"
  by (simp_all add: event_typed_def HvEvent0_def)

lemma HvEvent0_type [simp]: "ev_type (HvEvent0 t) = t"
  by (simp add: HvEvent0_def)

lemma event_rip_typed: "event_rip K v ev e = (ev', e1) \<Longrightarrow> event_typed ev' = event_typed ev"
  by (auto simp: event_rip_def split: prod.splits sum.splits)

section \<open>Every published event is logged\<close>

text \<open>
  \<open>logged K d d' e e'\<close>: what was published between the two states is what the agent's log has grown by, all of
  it well typed.
\<close>

definition logged ::
  "'k kernel \<Rightarrow> ('k, 'u) agent_env EventDispatcher \<Rightarrow> ('k, 'u) agent_env EventDispatcher \<Rightarrow> ('k, 'u) agent_env \<Rightarrow> ('k, 'u) agent_env \<Rightarrow> bool" where
  "logged K d d' e e' \<longleftrightarrow> agent_subscribed K d' \<and> (\<exists>evs. log_of e' = log_of e @ evs \<and>
     d_publishedCount d' = d_publishedCount d + of_nat (length evs) \<and> (\<forall>ev \<in> set evs. event_typed ev))"

lemma logged_refl: "agent_subscribed K d \<Longrightarrow> log_of e' = log_of e \<Longrightarrow> logged K d d e e'"
  by (auto simp: logged_def intro: exI [of _ "[]"])

lemma logged_trans: "logged K d d1 e e1 \<Longrightarrow> logged K d1 d2 e1 e2 \<Longrightarrow> logged K d d2 e e2"
  by (force simp: logged_def)

lemma logged_typed:
  assumes "logged K d d' e e'" and "\<forall>ev \<in> set (log_of e). event_typed ev"
  shows "\<forall>x \<in> set (vmi_eventLog (aa_agent (e_app e'))). event_typed (ie_base x)"
proof -
  have "\<forall>ev \<in> set (log_of e'). event_typed ev" using assms by (auto simp: logged_def)
  then show ?thesis by (simp add: log_of_def)
qed

definition log_inv :: "IntrospectionEvent list \<Rightarrow> ('k, 'u) agent_app app_inv" where
  "log_inv l shape app \<longleftrightarrow> vmi_eventLog (aa_agent app) = l"

text \<open>Handlers whose callbacks leave the log alone; handling an exit does not change the callbacks.\<close>

definition keeps_log :: "'k kernel \<Rightarrow> ('k, ('k, 'u) agent_app) InstructionTrapper \<Rightarrow> bool" where
  "keeps_log K t \<longleftrightarrow> (\<forall>l. pred_option (cpuid_quiet (log_inv l) K) (it_cpuid t) \<and>
     pred_option (io_quiet (log_inv l)) (it_io t) \<and> pred_option (mmio_quiet (log_inv l)) (it_mmio t))"

lemma log_ready: "page_ready p (e_host e) \<Longrightarrow> env_ready (log_inv (vmi_eventLog (aa_agent (e_app e)))) p e"
  by (simp add: env_ready_def log_inv_def)

lemma ready_log: "env_ready (log_inv (vmi_eventLog (aa_agent (e_app e)))) p e' \<Longrightarrow> log_of e' = log_of e"
  by (simp add: env_ready_def log_inv_def log_of_def)

lemma io_log:
  assumes "keeps_log K t" and "page_ready p (e_host e)"
    and "optionally (IoPortHandler_handle v p) (it_io t) e = Some (ok, io', e1)"
  shows "log_of e1 = log_of e" and "keeps_log K (t\<lparr>it_io := io'\<rparr>)"
proof -
  have "pred_option (io_quiet (log_inv (vmi_eventLog (aa_agent (e_app e))))) (it_io t)" using assms(1) by (simp add: keeps_log_def)
  from io_exits.optionally_returns [OF this log_ready [OF assms(2)], of v] assms(3)
  show "log_of e1 = log_of e" by (auto intro: ready_log)
  show "keeps_log K (t\<lparr>it_io := io'\<rparr>)"
    using assms(1,3) by (auto simp: keeps_log_def optionally_def io_quiet_def dest!: io_callbacks_kept
        split: option.splits Option.bind_splits)
qed

lemma mmio_log:
  assumes "keeps_log K t" and "page_ready p (e_host e)"
    and "optionally (MmioHandler_handle p) (it_mmio t) e = Some (ok, mmio', e1)"
  shows "log_of e1 = log_of e" and "keeps_log K (t\<lparr>it_mmio := mmio'\<rparr>)"
proof -
  have "pred_option (mmio_quiet (log_inv (vmi_eventLog (aa_agent (e_app e))))) (it_mmio t)" using assms(1) by (simp add: keeps_log_def)
  from mmio_exits.optionally_returns [OF this log_ready [OF assms(2)]] assms(3)
  show "log_of e1 = log_of e" by (auto intro: ready_log)
  show "keeps_log K (t\<lparr>it_mmio := mmio'\<rparr>)"
    using assms(1,3) by (auto simp: keeps_log_def optionally_def mmio_quiet_def dest!: mmio_callbacks_kept
        split: option.splits Option.bind_splits)
qed

lemma cpuid_log:
  assumes "keeps_log K t" and "page_ready p (e_host e)"
    and "optionally (\<lambda>c s. Some (CpuidHandler_handle K v c s)) (it_cpuid t) e = Some (ok, cpuid', e1)"
  shows "log_of e1 = log_of e" and "keeps_log K (t\<lparr>it_cpuid := cpuid'\<rparr>)"
proof -
  have "pred_option (cpuid_quiet (log_inv (vmi_eventLog (aa_agent (e_app e)))) K) (it_cpuid t)" using assms(1) by (simp add: keeps_log_def)
  from cpuid_exits.optionally_returns [OF this log_ready [OF assms(2)], of v] assms(3)
  show "log_of e1 = log_of e" by (auto intro: ready_log)
  show "keeps_log K (t\<lparr>it_cpuid := cpuid'\<rparr>)"
    using assms(1,3) by (auto simp: keeps_log_def optionally_def cpuid_quiet_def dest!: cpuid_callbacks_kept
        split: option.splits Option.bind_splits prod.splits)
qed

lemma log_of_app: "e_app e' = e_app e \<Longrightarrow> log_of e' = log_of e"
  by (simp add: log_of_def)

lemma event_rip_app: "event_rip K v ev e = (ev', e1) \<Longrightarrow> e_app e1 = e_app e"
  by (auto simp: event_rip_def on_host_def split: prod.splits sum.splits)

text \<open>The state after a publication, from a state with the same application objects.\<close>

lemma publish_and_return_logged:
  assumes "publish_and_return r d ev t e1 = Some (r', t', e')" and "agent_subscribed K d" and "e_app e1 = e_app e"
    and "keeps_log K t" and "event_typed ev"
  shows "\<exists>d'. it_dispatch t' = Some d' \<and> logged K d d' e e' \<and> keeps_log K t'"
proof -
  obtain d' where p: "EventDispatcher_publish d ev e1 = Some (d', e')" and t': "t' = t\<lparr>it_dispatch := Some d'\<rparr>"
    using assms(1) by (auto simp: publish_and_return_def split: Option.bind_splits)
  from publish_logs [OF assms(2) p] log_of_app [OF assms(3)] assms(5) have "logged K d d' e e'"
    by (auto simp: logged_def intro!: exI [of _ "[ev]"])
  with t' assms(4) show ?thesis by (simp add: keeps_log_def)
qed

lemma stamped_app:
  "on_host (clock_now K) e = (now, e1) \<Longrightarrow> event_rip K v ev e1 = (ev', e2) \<Longrightarrow> e_app e2 = e_app e"
  using event_rip_app on_hostD(2) by metis

lemma publish_stamped:
  assumes "publish_and_return r d ev' t e2 = Some (r', t', e')" and "agent_subscribed K d"
    and "on_host (clock_now K) e = (now, e1)" and "event_rip K v ev e1 = (ev', e2)" and "keeps_log K t" and "event_typed ev"
  shows "\<exists>d'. it_dispatch t' = Some d' \<and> logged K d d' e e' \<and> keeps_log K t'"
  using publish_and_return_logged [OF assms(1,2) stamped_app [OF assms(3,4)] assms(5)] event_rip_typed [OF assms(4)] assms(6)
  by simp

lemma publish_io_logged:
  assumes "publish_io K t e = Some (r, t', e')" "it_dispatch t = Some d" "agent_subscribed K d" "keeps_log K t"
  shows "\<exists>d'. it_dispatch t' = Some d' \<and> logged K d d' e e' \<and> keeps_log K t'"
  using assms(1-2)
  by (auto simp: publish_io_def Let_def split: Option.bind_splits prod.splits
      elim!: publish_stamped [OF _ assms(3) _ _ assms(4)])

lemma publish_mmio_logged:
  assumes "publish_mmio K t e = Some (r, t', e')" "it_dispatch t = Some d" "agent_subscribed K d" "keeps_log K t"
  shows "\<exists>d'. it_dispatch t' = Some d' \<and> logged K d d' e e' \<and> keeps_log K t'"
  using assms(1-2)
  by (auto simp: publish_mmio_def Let_def split: Option.bind_splits prod.splits
      elim!: publish_stamped [OF _ assms(3) _ _ assms(4)])

lemma publish_cpuid_logged:
  assumes "publish_cpuid K t e = Some (r, t', e')" "it_dispatch t = Some d" "agent_subscribed K d" "keeps_log K t"
  shows "\<exists>d'. it_dispatch t' = Some d' \<and> logged K d d' e e' \<and> keeps_log K t'"
proof -
  obtain rr e1 where g: "on_host (VCpu_getRegs K (it_vcpu t)) e = (rr, e1)" by fastforce
  obtain now e2 where c: "on_host (clock_now K) e1 = (now, e2)" by fastforce
  obtain ev ev' e3 where i: "event_rip K (it_vcpu t) ev e2 = (ev', e3)" and ty: "event_typed ev"
    and p: "publish_and_return RR_Continue d ev' t e3 = Some (r, t', e')"
    using assms(1) by (auto simp: publish_cpuid_def assms(2) g c Let_def split: prod.splits)
  have "e_app e3 = e_app e" using stamped_app [OF c i] on_hostD(2) [OF g] by simp
  from publish_and_return_logged [OF p assms(3) this assms(4)] event_rip_typed [OF i] ty show ?thesis by simp
qed

text \<open>An exit goes to its handler first; a refused one ends there, a handled one is published.\<close>

lemma handled_logged:
  assumes "(if \<not> ok then Some (RR_Error, t1, e1) else pub) = Some (r, t', e')"
    and "it_dispatch t1 = Some d" "agent_subscribed K d" "log_of e1 = log_of e" "keeps_log K t1"
    and "pub = Some (r, t', e') \<Longrightarrow> \<exists>d'. it_dispatch t' = Some d' \<and> logged K d d' e1 e' \<and> keeps_log K t'"
  shows "\<exists>d'. it_dispatch t' = Some d' \<and> logged K d d' e e' \<and> keeps_log K t'"
proof (cases ok)
  case True
  then show ?thesis using assms(1,4,6) by (auto simp: logged_def)
next
  case False
  then show ?thesis using assms(1-5) logged_refl [OF assms(3,4)] by auto
qed

lemma dispatch_io_logged:
  assumes io: "dispatch_io K t e = Some (r, t', e')" and d: "it_dispatch t = Some d"
    and sub: "agent_subscribed K d" and log: "keeps_log K t" and page: "page_ready (v_runPage (it_vcpu t)) (e_host e)"
  shows "\<exists>d'. it_dispatch t' = Some d' \<and> logged K d d' e e' \<and> keeps_log K t'"
proof -
  obtain ok io' e1 where h: "optionally (IoPortHandler_handle (it_vcpu t) (v_runPage (it_vcpu t))) (it_io t) e = Some (ok, io', e1)"
    and rest: "(if \<not> ok then Some (RR_Error, t\<lparr>it_io := io'\<rparr>, e1) else publish_io K (t\<lparr>it_io := io'\<rparr>) e1) = Some (r, t', e')"
    using io by (auto simp: dispatch_io_def Let_def split: Option.bind_splits)
  note l = io_log [OF log page h]
  show ?thesis
    by (rule handled_logged [OF rest _ sub l]) (simp_all add: d publish_io_logged [OF _ _ sub l(2)])
qed

lemma dispatch_mmio_logged:
  assumes mm: "dispatch_mmio K t e = Some (r, t', e')" and d: "it_dispatch t = Some d"
    and sub: "agent_subscribed K d" and log: "keeps_log K t" and page: "page_ready (v_runPage (it_vcpu t)) (e_host e)"
  shows "\<exists>d'. it_dispatch t' = Some d' \<and> logged K d d' e e' \<and> keeps_log K t'"
proof -
  obtain ok mmio' e1 where h: "optionally (MmioHandler_handle (v_runPage (it_vcpu t))) (it_mmio t) e = Some (ok, mmio', e1)"
    and rest: "(if \<not> ok then Some (RR_Error, t\<lparr>it_mmio := mmio'\<rparr>, e1) else publish_mmio K (t\<lparr>it_mmio := mmio'\<rparr>) e1) = Some (r, t', e')"
    using mm by (auto simp: dispatch_mmio_def Let_def split: Option.bind_splits)
  note l = mmio_log [OF log page h]
  show ?thesis
    by (rule handled_logged [OF rest _ sub l]) (simp_all add: d publish_mmio_logged [OF _ _ sub l(2)])
qed

lemma dispatch_cpuid_logged:
  assumes d: "it_dispatch t = Some d"
    and sub: "agent_subscribed K d" and log: "keeps_log K t" and page: "page_ready (v_runPage (it_vcpu t)) (e_host e)"
  shows "dispatch_internal_error K t e = Some (r, t', e') \<Longrightarrow> \<exists>d'. it_dispatch t' = Some d' \<and> logged K d d' e e' \<and> keeps_log K t'"
    and "dispatch_unknown K t e = Some (r, t', e') \<Longrightarrow> \<exists>d'. it_dispatch t' = Some d' \<and> logged K d d' e e' \<and> keeps_log K t'"
proof -
  let ?h = "optionally (\<lambda>c s. Some (CpuidHandler_handle K (it_vcpu t) c s)) (it_cpuid t) e"
  let ?goal = "\<exists>d'. it_dispatch t' = Some d' \<and> logged K d d' e e' \<and> keeps_log K t'"
  have same: "\<exists>d'. it_dispatch t = Some d' \<and> logged K d d' e e \<and> keeps_log K t"
    using d log logged_refl [OF sub refl] by auto
  have handled: ?goal
    if h: "?h = Some (ok, cpuid', e1)"
      and rest: "(if \<not> ok then Some (RR_Error, t\<lparr>it_cpuid := cpuid'\<rparr>, e1) else pub) = Some (r, t', e')"
      and p: "pub = Some (r, t', e') \<Longrightarrow> \<exists>d'. it_dispatch t' = Some d' \<and> logged K d d' e1 e' \<and> keeps_log K t'"
    for ok cpuid' e1 pub
    using handled_logged [OF rest _ sub cpuid_log [OF log page h] p] d by simp
  show ?goal if ie: "dispatch_internal_error K t e = Some (r, t', e')"
  proof (cases "\<exists>run. h_runs (e_host e) (v_runPage (it_vcpu t)) = Some run \<and> internal_suberror run = KVM_INTERNAL_ERROR_EMULATION")
    case True
    then obtain ok cpuid' e1 where h: "?h = Some (ok, cpuid', e1)"
      and rest: "(if \<not> ok then Some (RR_Error, t\<lparr>it_cpuid := cpuid'\<rparr>, e1) else publish_cpuid K (t\<lparr>it_cpuid := cpuid'\<rparr>) e1) = Some (r, t', e')"
      using ie by (auto simp: dispatch_internal_error_def Let_def split: Option.bind_splits)
    show ?thesis
      by (rule handled [OF h rest]) (simp add: d publish_cpuid_logged [OF _ _ sub cpuid_log(2) [OF log page h]])
  next
    case False
    with ie have "t' = t" "e' = e" by (auto simp: dispatch_internal_error_def split: Option.bind_splits if_splits)
    with same show ?thesis by simp
  qed
  show ?goal if un: "dispatch_unknown K t e = Some (r, t', e')"
  proof (cases "\<exists>run. h_runs (e_host e) (v_runPage (it_vcpu t)) = Some run \<and> hw_exit_reason run = 0")
    case True
    then obtain ok cpuid' e1 where h: "?h = Some (ok, cpuid', e1)"
      and rest: "(if \<not> ok then Some (RR_Error, t\<lparr>it_cpuid := cpuid'\<rparr>, e1) else Some (RR_Continue, t\<lparr>it_cpuid := cpuid'\<rparr>, e1)) = Some (r, t', e')"
      using un by (auto simp: dispatch_unknown_def Let_def split: Option.bind_splits)
    show ?thesis
      by (rule handled [OF h rest]) (use d cpuid_log [OF log page h] logged_refl [OF sub refl] in auto)
  next
    case False
    with un have "t' = t" "e' = e" by (auto simp: dispatch_unknown_def split: Option.bind_splits if_splits)
    with same show ?thesis by simp
  qed
qed

lemma dispatch_logged:
  assumes d: "InstructionTrapper_dispatchExit K reason t e = Some (r, t', e')" "it_dispatch t = Some d"
    and rest: "agent_subscribed K d" "keeps_log K t" "page_ready (v_runPage (it_vcpu t)) (e_host e)"
  shows "\<exists>d'. it_dispatch t' = Some d' \<and> logged K d d' e e' \<and> keeps_log K t'"
proof -
  have same: "\<exists>d'. it_dispatch t = Some d' \<and> logged K d d' e e \<and> keeps_log K t"
    using d(2) rest(2) logged_refl [OF rest(1) refl] by auto
  have hlt: "dispatch_hlt K t e = Some (r, t', e') \<Longrightarrow> ?thesis"
    by (auto simp: dispatch_hlt_def d(2) Let_def split: prod.splits elim!: publish_stamped [OF _ rest(1) _ _ rest(2)])
  have shut: "dispatch_shutdown K t e = Some (r, t', e') \<Longrightarrow> ?thesis"
    by (auto simp: dispatch_shutdown_def d(2) Let_def split: prod.splits
        elim!: publish_and_return_logged [OF _ rest(1) on_hostD(2) rest(2)])
  show ?thesis
    using d(1) same hlt shut dispatch_io_logged [OF _ d(2) rest] dispatch_mmio_logged [OF _ d(2) rest]
      dispatch_cpuid_logged [OF d(2) rest] by (cases reason) auto
qed

lemma step_logged:
  assumes run: "run_law K" and s: "InstructionTrapper_step K t e = Some (r, t', e')" "it_dispatch t = Some d"
    and rest: "agent_subscribed K d" "keeps_log K t" "page_ready (v_runPage (it_vcpu t)) (e_host e)"
  shows "\<exists>d'. it_dispatch t' = Some d' \<and> logged K d d' e e' \<and> keeps_log K t'"
proof -
  obtain rc h1 where io: "sys_ioctl K (v_fd (it_vcpu t)) KVM_RUN (e_host e) = (rc, h1)" by fastforce
  have page: "page_ready (v_runPage (it_vcpu t)) h1"
    using run [unfolded run_law_def, rule_format, OF io] rest(3) by simp
  let ?e = "e\<lparr>e_host := h1\<rparr>" and ?t = "t\<lparr>it_exitCount := it_exitCount t + 1\<rparr>"
  have log: "log_of ?e = log_of e" by (simp add: log_of_def)
  consider "t' = t \<or> t' = ?t" "e' = ?e" | reason where "InstructionTrapper_dispatchExit K reason ?t ?e = Some (r, t', e')"
    using s(1) by (auto simp: InstructionTrapper_step_def VCpu_run_def io Let_def split: if_splits option.splits)
  then show ?thesis
  proof cases
    case 1
    with s(2) rest(2) logged_refl [OF rest(1) log] show ?thesis by (auto simp: keeps_log_def)
  next
    case 2
    have "\<exists>d'. it_dispatch t' = Some d' \<and> logged K d d' ?e e' \<and> keeps_log K t'"
      by (rule dispatch_logged [OF 2]) (use s(2) rest(1,2) page in \<open>simp_all add: keeps_log_def\<close>)
    then show ?thesis using log by (simp add: logged_def)
  qed
qed

lemma steps_logged:
  assumes "trap_steps K n c c'" and laws: "reg_laws K" "clock_frame K" "run_law K"
    and "trapper_safe I K v (fst c)" "env_ready I (v_runPage v) (snd c)"
    and "it_dispatch (fst c) = Some d" "agent_subscribed K d" "keeps_log K (fst c)"
  shows "\<exists>d'. it_dispatch (fst c') = Some d' \<and> logged K d d' (snd c) (snd c') \<and> keeps_log K (fst c')"
  using assms
proof (induction arbitrary: d rule: trap_steps.induct)
  case (trap_steps_0 c)
  then show ?case using logged_refl [OF _ refl] by auto
next
  case (trap_steps_Suc t e t1 e1 n c)
  have "page_ready (v_runPage (it_vcpu t)) (e_host e)"
    using trap_steps_Suc.prems(4,5) by (simp add: trapper_safe_def env_ready_def)
  from step_logged [OF laws(3) trap_steps_Suc.hyps(1) _ _ _ this] trap_steps_Suc.prems(6-8) obtain d1 where
    d1: "it_dispatch t1 = Some d1" "logged K d d1 e e1" "keeps_log K t1" by auto
  have safe: "trapper_safe I K v t1" "env_ready I (v_runPage v) e1"
    using step_ok [OF laws, of I v t e] trap_steps_Suc.hyps(1) trap_steps_Suc.prems(4,5) by simp_all
  have "agent_subscribed K d1" using d1(2) by (simp add: logged_def)
  with trap_steps_Suc.IH [OF laws] safe d1 obtain d' where
    "it_dispatch (fst c) = Some d'" "logged K d1 d' e1 (snd c)" "keeps_log K (fst c)" by auto
  with logged_trans [OF d1(2)] show ?case by auto
qed

lemma runLoop_logged:
  assumes laws: "reg_laws K" "clock_frame K" "run_law K"
    and safe: "trapper_safe I K v t" "env_ready I (v_runPage v) e"
    and d: "it_dispatch t = Some d" "agent_subscribed K d" "keeps_log K t"
    and l: "InstructionTrapper_runLoop K lim t e = Some (r, t', e')"
  shows "(\<exists>d'. it_dispatch t' = Some d' \<and> logged K d d' e e' \<and> keeps_log K t') \<and>
    trapper_safe I K v t' \<and> env_ready I (v_runPage v) e'"
proof -
  obtain n t1 e1 where n: "trap_steps K n (t, e) (t1, e1)" and ends: "loop_ends K lim 0 n (t1, e1) (r, t', e')"
    using run_iterations_sound [OF l [unfolded InstructionTrapper_runLoop_def]] by auto
  have safe1: "trapper_safe I K v t1" "env_ready I (v_runPage v) e1"
    using steps_keep_safe [OF n laws] safe by simp_all
  from steps_logged [OF n laws, of I v d] safe d obtain d1 where
    d1: "it_dispatch t1 = Some d1" "logged K d d1 e e1" "keeps_log K t1" by auto
  from ends consider "t' = t1" "e' = e1" | "InstructionTrapper_step K t1 e1 = Some (r, t', e')"
    by (auto simp: loop_ends_def)
  then show ?thesis
  proof cases
    case 1
    with d1 safe1 show ?thesis by simp
  next
    case 2
    have "page_ready (v_runPage (it_vcpu t1)) (e_host e1)" "agent_subscribed K d1"
      using safe1 d1(2) by (simp_all add: trapper_safe_def env_ready_def logged_def)
    from step_logged [OF laws(3) 2 d1(1) this(2) d1(3) this(1)] logged_trans [OF d1(2)]
      step_ok [OF laws safe1] 2 show ?thesis by auto
  qed
qed

lemma fuzz_runs_logged:
  fixes K :: "'k kernel" and e :: "('k, 'k main_app) env"
  assumes laws: "reg_laws K" "clock_frame K" "run_law K" and vm: "machine_ok vm v" and snap: "snap_fits vm snap"
    and "trapper_safe (main_inv vm) K v t" "env_ready (main_inv vm) (v_runPage v) e"
    and "it_dispatch t = Some d" "agent_subscribed K d" "keeps_log K t"
    and "fuzz_runs K message vm snap n i t e = Some (ok, t', e')"
  shows "(\<exists>d'. it_dispatch t' = Some d' \<and> logged K d d' e e') \<and> env_ready (main_inv vm) (v_runPage v) e'"
  using assms(6-)
proof (induction n arbitrary: i t e d)
  case 0
  then show ?case using logged_refl [OF _ refl] by auto
next
  case (Suc n)
  have I: "ignores_printing (main_inv vm :: 'k main_app app_inv)" by (rule main_inv_user)
  obtain cr cs h1 where h1: "fuzz_prepare K vm snap i (e_host e) = Some (cr, cs, h1)"
    and ready1: "env_ready (main_inv vm) (v_runPage v) (e\<lparr>e_host := h1\<rparr>)"
    using fuzz_prepare_ready [OF laws(1) vm Suc.prems(2) snap, of i] by blast
  obtain e1 where e1: "say_prepared message vm cr cs i (e\<lparr>e_host := h1\<rparr>) = Some e1" "env_ready (main_inv vm) (v_runPage v) e1"
    "aa_agent (e_app e1) = aa_agent (e_app e)"
    using say_prepared_ready [OF I vm ready1 main_inv_live [OF ready1], of message cr cs i] by auto
  from Suc.prems(6) obtain r t1 e2 where l: "InstructionTrapper_runLoop K 0 t e1 = Some (r, t1, e2)"
    and rest: "(if r = RR_Error then Some (False, t1, say_result r (say (exits_line t1) e2))
      else fuzz_runs K message vm snap n (i + 1) t1 (say_result r (say (exits_line t1) e2))) = Some (ok, t', e')"
    by (auto simp: h1 e1(1) Let_def split: Option.bind_splits)
  let ?e3 = "say_result r (say (exits_line t1) e2)"
  from runLoop_logged [OF laws Suc.prems(1) e1(2) Suc.prems(3-5) l] obtain d1 where
    d1: "it_dispatch t1 = Some d1" "logged K d d1 e1 e2" "keeps_log K t1"
    and safe1: "trapper_safe (main_inv vm) K v t1" "env_ready (main_inv vm) (v_runPage v) e2" by auto
  have e3: "env_ready (main_inv vm) (v_runPage v) ?e3"
    using safe1(2) by (simp add: say_result_ready(1) [OF I] say_exits_ready [OF I])
  have l1: "logged K d d1 e ?e3" "agent_subscribed K d1"
    using d1(2) say_result_ready(3) [OF I] by (simp_all add: logged_def log_of_def e1(3))
  show ?case
  proof (cases "r = RR_Error")
    case True
    with rest d1(1) l1(1) e3 show ?thesis by auto
  next
    case False
    with Suc.IH [OF safe1(1) e3 d1(1) l1(2) d1(3)] rest logged_trans [OF l1(1)] show ?thesis by fastforce
  qed
qed

lemma main_trapper_log: "reg_laws (K :: 'a kernel) \<Longrightarrow> keeps_log K (main_trapper K v d)"
proof -
  have "ignores_printing (log_inv l :: 'a main_app app_inv)" for l by (simp add: ignores_printing_def log_inv_def)
  then show "reg_laws K \<Longrightarrow> keeps_log K (main_trapper K v d)"
    by (simp add: keeps_log_def main_trapper_def InstructionTrapper_new_def main_cpuid_quiet main_io_quiet main_mmio_quiet)
qed

lemma build_cpuid_logged:
  assumes "build_cpuid K leaves es d s = Some (es', d', s')" and "agent_subscribed K d"
  shows "logged K d d' s s'"
  using assms
proof (induction leaves arbitrary: es d s)
  case Nil
  then show ?case using logged_refl [OF _ refl] by auto
next
  case (Cons leaf leaves)
  obtain e now ev s1 es1 d1 s2 where c: "on_host (clock_now K) (say (cpuid_line e) s) = (now, s1)"
    and p: "EventDispatcher_publish d ev s1 = Some (d1, s2)" and ty: "event_typed ev"
    and rest: "build_cpuid K leaves es1 d1 s2 = Some (es', d', s')"
    by (rule build_cpuid_round [of K s leaf leaves es d])
      (use Cons.prems(1) in \<open>auto simp: event_typed_def split: Option.bind_splits\<close>)
  have "log_of s1 = log_of s" using on_hostD(2) [OF c] by (simp add: log_of_def)
  with publish_logs [OF Cons.prems(2) p] ty have "logged K d d1 s s2"
    by (auto simp: logged_def intro!: exI [of _ "[ev]"])
  moreover from this have "agent_subscribed K d1" by (simp add: logged_def)
  ultimately show ?case using Cons.IH [OF rest] logged_trans by blast
qed

text \<open>
  What a run of the program leaves behind: the lines printed for the agent are those of one log, and
  at the regular end this is the log that was written to the file, and the last line printed has the
  number of its entries.
\<close>

definition total_line :: "nat \<Rightarrow> stream \<times> string" where
  "total_line n = (Stdout, ''[+] Total events dispatched: '' @ dec_word (of_nat n :: u64) @ [nl])"

definition reported ::
  "'k kernel \<Rightarrow> 'k library \<Rightarrow> KvmSystem \<Rightarrow> VirtualMachine \<Rightarrow> int \<times> console \<times> 'k host \<Rightarrow> IntrospectionEvent list \<Rightarrow> bool" where
  "reported K L kvm_sys vm res log \<longleftrightarrow> (case res of (code, out, h') \<Rightarrow>
     tagged vmi_tag out = map vmi_line log \<and> (\<forall>x \<in> set log. event_typed (ie_base x)) \<and>
     (code = 0 \<longrightarrow> last out = total_line (length log) \<and>
       (\<exists>h1. h' = KvmSystem_release K kvm_sys (VirtualMachine_release K vm (VmiAgent_dumpEventLog (open_out L) (write_out L)
          ((fst (main_listeners K vm))\<lparr>vmi_eventLog := log\<rparr>) ''vmi_events.json'' h1)))))"

lemma dumpEventLog_cong:
  "vmi_eventLog a = vmi_eventLog b \<Longrightarrow> VmiAgent_dumpEventLog op wr a path h = VmiAgent_dumpEventLog op wr b path h"
  by (simp only: VmiAgent_dumpEventLog_def)

lemma main_finish_reported:
  assumes f: "main_finish K L kvm_sys vm t e = Some res" and d: "it_dispatch t = Some d"
    and count: "d_publishedCount d = of_nat (length (vmi_eventLog (aa_agent (e_app e))))"
    and out: "tagged vmi_tag (printed e) = map vmi_line (vmi_eventLog (aa_agent (e_app e)))"
    and typed: "\<forall>x \<in> set (vmi_eventLog (aa_agent (e_app e))). event_typed (ie_base x)"
  shows "reported K L kvm_sys vm res (vmi_eventLog (aa_agent (e_app e)))"
proof -
  let ?log = "vmi_eventLog (aa_agent (e_app e))"
  let ?a = "(fst (main_listeners K vm))\<lparr>vmi_eventLog := ?log\<rparr>"
  let ?out = "println_on Stdout (''[+] Total events dispatched: '' @ dec_word (d_publishedCount d))
    (println_on Stdout ''[+] VMI event log written to vmi_events.json'' (println_on Stdout (exits_line t) (printed e)))"
  have "res = (0, ?out, KvmSystem_release K kvm_sys (VirtualMachine_release K vm
      (VmiAgent_dumpEventLog (open_out L) (write_out L) ?a ''vmi_events.json'' (e_host e))))"
    using f d dumpEventLog_cong [of "aa_agent (e_app e)" ?a]
    by (auto simp: main_finish_def main_exit_def user_println_def Let_def)
  moreover have "tagged vmi_tag ?out = map vmi_line ?log"
    using out by (simp add: tagged_println exits_line_def)
  moreover have "last ?out = total_line (length ?log)"
    by (simp add: println_on_def print_on_def total_line_def count)
  ultimately show ?thesis using typed by (auto simp: reported_def)
qed

text \<open>From the listeners' creation to the end of the runs.\<close>

lemma runs_logged:
  assumes laws: "reg_laws K" "clock_frame K" "run_law K" and vm: "machine_ok vm v"
    and up: "set_up K vm v out h d es d1 e1 ec h1 snap e2"
    and f: "fuzz_runs K message vm snap 3 0 (main_trapper K v d1) e2 = Some (ok, t', e')"
  shows "\<exists>d'. it_dispatch t' = Some d' \<and> logged K d d' (wired K vm out h) e'"
    and "env_ready (main_inv vm) (v_runPage v) e'"
proof -
  note u = set_upD [OF up]
  have l1: "logged K d d1 (wired K vm out h) e1"
    by (rule build_cpuid_logged [OF u(2) main_listeners_ok(2) [OF laws(1,2) u(1)]])
  then have sub: "agent_subscribed K d1" by (simp add: logged_def)
  from fuzz_runs_logged [OF laws vm u(8) main_trapper_safe [OF laws(1) u(7)] u(10) main_trapper_dispatch sub
      main_trapper_log [OF laws(1)] f]
  obtain d' where d': "it_dispatch t' = Some d'" and l2: "logged K d1 d' e2 e'"
    and e': "env_ready (main_inv vm) (v_runPage v) e'" by blast
  have "logged K d1 d' e1 e'" using l2 by (simp add: logged_def log_of_def u(5))
  from logged_trans [OF l1 this] d' show "\<exists>d'. it_dispatch t' = Some d' \<and> logged K d d' (wired K vm out h) e'" by blast
  show "env_ready (main_inv vm) (v_runPage v) e'" by (rule e')
qed

text \<open>In a ready state the printed lines are those of the log.\<close>

lemma ready_tags:
  "env_ready (main_inv vm) p e \<Longrightarrow> tagged vmi_tag (printed e) = map vmi_line (vmi_eventLog (aa_agent (e_app e)))"
  by (simp add: env_ready_def main_inv_def)

lemma log_length: "length (log_of e) = length (vmi_eventLog (aa_agent (e_app e)))"
  by (simp add: log_of_def)

lemma wired_log [simp]: "log_of (wired K vm out h) = []"
  by (simp add: log_of_def wired_def main_listeners_eq)

lemma early_reported:
  assumes "main_exit K kvm_sys vm 1 out h = Some res" and "tagged vmi_tag out = map vmi_line (vmi_eventLog (aa_agent (e_app x)))"
    and "logged K d d' (wired K vm out0 h0) x"
  shows "\<exists>log. reported K L kvm_sys vm res log"
  using assms(1,2) logged_typed [OF assms(3)] by (auto simp: reported_def main_exit_def)

lemma main_guest_reported:
  fixes K :: "'k kernel"
  assumes laws: "reg_laws K" "clock_frame K" "run_law K" "mem_laws K"
    and vm: "machine_ok vm v" and live: "\<forall>r \<in> set (vm_memoryRegions vm). region_live h r"
    and page: "page_ready (v_runPage v) h" and out: "tagged vmi_tag out = []"
    and g: "main_guest K L kvm_sys vm out h = Some res"
  shows "\<exists>log. reported K L kvm_sys vm res log"
proof (rule main_guest_start [OF laws(1,2,4) vm live page out, where L = L and kvm_sys = kvm_sys])
  fix d es d1 e1 ec h1 snap e2
  assume up: "set_up K vm v out h d es d1 e1 ec h1 snap e2"
    and eq: "main_guest K L kvm_sys vm out h = after_setup K L kvm_sys vm ec h1 e1 snap (main_trapper K v d1) e2"
  note u = set_upD [OF up] and lis = main_listeners_ok(2,3) [OF laws(1,2) set_upD(1) [OF up]]
  show ?thesis
  proof (cases "ec = ok_code")
    case False
    have "tagged vmi_tag (printed (complain (''[!] KVM_SET_CPUID2 failed: '' @ ec_message L ec) e1)) =
        map vmi_line (vmi_eventLog (aa_agent (e_app e1)))"
      using ready_tags [OF u(9)] by (simp add: tagged_user)
    from early_reported [OF _ this build_cpuid_logged [OF u(2) lis(1)]] False g eq show ?thesis by (simp add: after_setup_def)
  next
    case True
    with g eq obtain ok t' e' where f: "fuzz_runs K (ec_message L) vm snap 3 0 (main_trapper K v d1) e2 = Some (ok, t', e')"
      and rest: "(if \<not> ok then main_exit K kvm_sys vm 1 (printed e') (e_host e') else main_finish K L kvm_sys vm t' e') = Some res"
      by (auto simp: after_setup_def split: Option.bind_splits)
    note runs = runs_logged [OF laws(1-3) vm up f]
    from runs(1) obtain d' where d': "it_dispatch t' = Some d'" and all: "logged K d d' (wired K vm out h) e'" by blast
    have count: "d_publishedCount d' = of_nat (length (vmi_eventLog (aa_agent (e_app e'))))"
      using all lis(2) log_length [of e'] by (auto simp: logged_def)
    note tags = ready_tags [OF runs(2)]
    have typed: "\<forall>x \<in> set (vmi_eventLog (aa_agent (e_app e'))). event_typed (ie_base x)" using logged_typed [OF all] by simp
    show ?thesis
    proof (cases ok)
      case True
      with rest have "main_finish K L kvm_sys vm t' e' = Some res" by simp
      from main_finish_reported [OF this d' count tags typed] show ?thesis by blast
    next
      case False
      with rest early_reported [OF _ tags all] show ?thesis by simp
    qed
  qed
qed

section \<open>The beginning of the program\<close>

lemma say_extension_untagged: "tagged vmi_tag (say_extension m ext ec out) = tagged vmi_tag out"
proof -
  have "tagged vmi_tag (println_on Stdout
      ''    (This may cause CPUID exit counts to be inaccurate and some leaf handlers to not work.)'' c) = tagged vmi_tag c" for c
    by (rule tagged_println) (simp add: vmi_tag_def)
  then show ?thesis by (simp add: say_extension_def tagged_println)
qed

lemma main_cases:
  obtains (early) out h' where "main K L h = Some (1, out, h')" "tagged vmi_tag out = []"
  | (loading) kvm_sys fd n out code h0 h1 h2 h3 h4 ext ec where
      "main K L h = main_load K L kvm_sys (VirtualMachine_new fd n) out code h1"
      "tagged vmi_tag out = []" "file_bytes K ''simpleGuest.bin'' h0 = Some code"
      "KvmSystem_createVm K kvm_sys h2 = (Inr (VirtualMachine_new fd n), h3)"
      "KvmSystem_checkExtension K kvm_sys KVM_CAP_EXIT_ON_EMULATION_FAILURE h3 = (ext, h4)"
      "(if ext then VirtualMachine_enableEmulationExits K (VirtualMachine_new fd n) h4 else (ok_code, h4)) = (ec, h1)"
proof -
  obtain kr h1 where k: "KvmSystem_open K ''/dev/kvm'' h = (kr, h1)" by fastforce
  have nil: "tagged vmi_tag [] = []" by (simp add: tagged_def)
  show thesis
  proof (cases kr)
    case (Inl ec)
    with k nil have "\<exists>out h'. main K L h = Some (1, out, h') \<and> tagged vmi_tag out = []"
      by (simp add: main_def tagged_println)
    then show thesis using early by blast
  next
    case kvm: (Inr kvm_sys)
    obtain vr h2 where v: "KvmSystem_createVm K kvm_sys h1 = (vr, h2)" by fastforce
    show thesis
    proof (cases vr)
      case (Inl ec)
      with k v kvm nil have "\<exists>out h'. main K L h = Some (1, out, h') \<and> tagged vmi_tag out = []"
        by (simp add: main_def tagged_println)
      then show thesis using early by blast
    next
      case vm: (Inr vm)
      obtain fd n where new: "vm = VirtualMachine_new fd n" using createVm_new [OF v [unfolded vm]] by blast
      obtain ext h3 where x: "KvmSystem_checkExtension K kvm_sys KVM_CAP_EXIT_ON_EMULATION_FAILURE h2 = (ext, h3)" by fastforce
      obtain ec h4 where e: "(if ext then VirtualMachine_enableEmulationExits K vm h3 else (ok_code, h3)) = (ec, h4)" by fastforce
      show thesis
      proof (cases "file_bytes K ''simpleGuest.bin'' h4 \<in> {None, Some []}")
        case True
        with k v kvm vm x e nil have "\<exists>out h'. main K L h = Some (1, out, h') \<and> tagged vmi_tag out = []"
          by (auto simp: main_def main_exit_def tagged_println say_extension_untagged split: option.splits)
        then show thesis using early by blast
      next
        case False
        then obtain code where f: "file_bytes K ''simpleGuest.bin'' h4 = Some code" "code \<noteq> []" by auto
        with k v kvm vm x e nil new have "\<exists>out. main K L h = main_load K L kvm_sys (VirtualMachine_new fd n) out code h4 \<and>
            tagged vmi_tag out = []"
          by (intro exI [of _ "say_extension (ec_message L) ext ec
              (println_on Stdout (''[+] VM created (fd='' @ dec_int (vm_fd vm) @ '')'')
                (println_on Stdout (''[+] KVM API version: '' @ dec_int (s_apiVersion kvm_sys)) []))"])
            (auto simp: main_def tagged_println say_extension_untagged)
        then show thesis using loading f(1) v [unfolded vm new] x e [unfolded new] by blast
      qed
    qed
  qed
qed

lemma main_load_machine:
  fixes K :: "'k kernel"
  assumes laws: "mem_laws K" "mapping_law K" "errno_law K" "reg_laws K" "get_errno_law K"
    and len: "length code < 2 ^ 63" and out: "tagged vmi_tag out = []"
  obtains (failed) out' h' where "main_load K L kvm_sys (VirtualMachine_new fd n) out code h = Some (1, out', h')"
    "tagged vmi_tag out' = []"
  | (guest) vm v out' h' where "main_load K L kvm_sys (VirtualMachine_new fd n) out code h = main_guest K L kvm_sys vm out' h'"
      "machine_ok vm v" "\<forall>r \<in> set (vm_memoryRegions vm). region_live h' r" "page_ready (v_runPage v) h'"
      "tagged vmi_tag out' = []"
proof -
  from loadBytes_machine [OF laws len, of fd n h] obtain ec vm h1 where
    l: "GuestLoader_loadBytes K (VirtualMachine_new fd n) code 0x1000 0x80000 h = Some (ec, vm, h1)"
    and ok: "ec = ok_code \<longrightarrow> (\<exists>v. machine_ok vm v \<and> (\<forall>r \<in> set (vm_memoryRegions vm). region_live h1 r) \<and> page_ready (v_runPage v) h1)"
    by blast
  show thesis
  proof (cases "ec = ok_code")
    case True
    with ok obtain v where "machine_ok vm v" "\<forall>r \<in> set (vm_memoryRegions vm). region_live h1 r" "page_ready (v_runPage v) h1" by blast
    from guest [OF _ this, of "println_on Stdout ''[+] Guest code loaded at GPA 0x1000'' out"] True show thesis
      by (simp add: main_load_def l tagged_println out)
  next
    case False
    then have "\<exists>out' h'. main_load K L kvm_sys (VirtualMachine_new fd n) out code h = Some (1, out', h') \<and> tagged vmi_tag out' = []"
      by (simp add: main_load_def l main_exit_def tagged_println out)
    then show thesis using failed by blast
  qed
qed

section \<open>The whole program\<close>

text \<open>A guest image that a process can hold.\<close>

definition image_fits :: "'k kernel \<Rightarrow> bool" where
  "image_fits K \<longleftrightarrow> (\<forall>h bytes. file_bytes K ''simpleGuest.bin'' h = Some bytes \<longrightarrow> length bytes < 2 ^ 63)"

lemma main_terminates:
  fixes K :: "'k kernel"
  assumes laws: "reg_laws K" "clock_frame K" "run_law K" "mem_laws K" "mapping_law K" "errno_law K" "get_errno_law K"
    and stops: "\<And>vm v. guest_stops (main_inv vm :: 'k main_app app_inv) K v"
    and image: "image_fits K"
  shows "\<exists>code out h'. main K L h = Some (code, out, h') \<and> code \<in> {0, 1}"
proof (cases rule: main_cases [of K L h])
  case (early out h')
  then show ?thesis by blast
next
  case (loading kvm_sys fd n out code h0 h1)
  from laws(4-6,1,7) image [unfolded image_fits_def, rule_format, OF loading(3)] loading(2) show ?thesis
  proof (cases rule: main_load_machine [where L = L and kvm_sys = kvm_sys and fd = fd and n = n and h = h1])
    case (failed out' h')
    with loading(1) show ?thesis by auto
  next
    case (guest vm v out' h')
    from main_guest_returns [OF laws(1-4) guest(2-5) stops, of L kvm_sys] guest(1) loading(1) show ?thesis by simp
  qed
qed

lemma main_reported:
  fixes K :: "'k kernel"
  assumes laws: "reg_laws K" "clock_frame K" "run_law K" "mem_laws K" "mapping_law K" "errno_law K" "get_errno_law K"
    and image: "image_fits K"
    and m: "main K L h = Some res"
  shows "\<exists>log kvm_sys vm. reported K L kvm_sys vm res log"
proof (cases rule: main_cases [of K L h])
  case (early out h')
  with m have "reported K L undefined undefined res []" by (auto simp: reported_def)
  then show ?thesis by blast
next
  case (loading kvm_sys fd n out code h0 h1)
  from laws(4-6,1,7) image [unfolded image_fits_def, rule_format, OF loading(3)] loading(2) show ?thesis
  proof (cases rule: main_load_machine [where L = L and kvm_sys = kvm_sys and fd = fd and n = n and h = h1])
    case (failed out' h')
    with loading(1) m have "reported K L undefined undefined res []" by (auto simp: reported_def)
    then show ?thesis by blast
  next
    case (guest vm v out' h')
    with loading(1) m have "main_guest K L kvm_sys vm out' h' = Some res" by simp
    from main_guest_reported [OF laws(1-4) guest(2-5) this] show ?thesis by blast
  qed
qed

section \<open>A kernel whose guest always halts\<close>

text \<open>The concrete kernel of theory \<open>Sim_Kernel\<close>, with every entry of the guest ending in a halt.\<close>

definition halt_ioctl :: "int \<Rightarrow> kvm_request \<Rightarrow> sim host \<Rightarrow> int \<times> sim host" where
  "halt_ioctl fd q h =
     (if q = KVM_RUN \<and> fd \<in> set (sim_fds (h_kern h))
      then (0, h\<lparr>h_runs := (\<lambda>p. map_option (\<lambda>_. kvm_run0\<lparr>exit_reason := 5\<rparr>) (h_runs h p))\<rparr>)
      else sim_ioctl fd q h)"

definition halt_kernel :: "sim kernel" where
  "halt_kernel = sim_kernel\<lparr>sys_ioctl := halt_ioctl\<rparr>"

lemma halt_run_fits: "run_fits (kvm_run0\<lparr>exit_reason := 5\<rparr>)"
  by (simp add: run_fits_def run_wf_def io_width_def kvm_run0_def)

lemma halt_reg_laws: "reg_laws halt_kernel"
  by (auto simp: halt_kernel_def halt_ioctl_def kernel_laws kregs_def ksregs_def sim_defs split: if_splits)

lemma halt_mem_laws: "mem_laws halt_kernel"
proof -
  have "mmap_law halt_kernel" "madvise_law halt_kernel" "munmap_law halt_kernel" "close_frame halt_kernel"
    using sim_mem_laws by (simp_all add: mem_laws_def mmap_law_def madvise_law_def munmap_law_def close_frame_def halt_kernel_def)
  moreover have "ioctl_frame halt_kernel"
    using sim_mem_laws by (simp add: mem_laws_def ioctl_frame_def halt_kernel_def halt_ioctl_def)
  ultimately show ?thesis by (simp add: mem_laws_def)
qed

lemma halt_errno_law: "errno_law halt_kernel"
  using sim_errno_law by (auto simp: errno_law_def halt_kernel_def halt_ioctl_def split: if_splits)

lemma halt_other_laws: "mapping_law halt_kernel" "get_errno_law halt_kernel" "clock_frame halt_kernel"
  using sim_mapping_law sim_get_errno_law sim_clock_frame
  by (simp_all add: mapping_law_def get_errno_law_def clock_frame_def kregs_def ksregs_def halt_kernel_def)

lemma halt_run_law: "run_law halt_kernel"
  using halt_run_fits by (auto simp: run_law_def page_ready_def heap_shape_def halt_kernel_def halt_ioctl_def sim_defs split: if_splits)

lemma halt_guest_stops: "guest_stops I halt_kernel v"
  unfolding guest_stops_def
proof (intro allI impI)
  fix t and e :: "(sim, 'a) env"
  assume safe: "trapper_safe I halt_kernel v t" and ready: "env_ready I (v_runPage v) e"
  from step_ok [OF halt_reg_laws halt_other_laws(3) halt_run_law safe ready] obtain r t' e' where
    s: "InstructionTrapper_step halt_kernel t e = Some (r, t', e')" unfolding outcome_ok_def by blast
  have v: "it_vcpu t = v" using safe by (simp add: trapper_safe_def)
  have "r \<noteq> RR_Continue"
  proof (cases "v_fd v \<in> set (sim_fds (h_kern (e_host e)))")
    case False
    with s v show ?thesis
      by (auto simp: InstructionTrapper_step_def VCpu_run_def halt_kernel_def halt_ioctl_def sim_ioctl_def sim_fail_def errno_defs)
  next
    case True
    let ?h = "(e_host e)\<lparr>h_runs := (\<lambda>p. map_option (\<lambda>_. kvm_run0\<lparr>exit_reason := 5\<rparr>) (h_runs (e_host e) p))\<rparr>"
    obtain run where "h_runs (e_host e) (v_runPage v) = Some run" using ready by (auto elim: env_ready_run)
    moreover have "sys_ioctl halt_kernel (v_fd v) KVM_RUN (e_host e) = (0, ?h)"
      using True by (simp add: halt_kernel_def halt_ioctl_def)
    moreover have "exit_reason_of 5 = ER_Hlt" by (simp add: exit_reason_of_def exit_reason_table_def)
    ultimately have "dispatch_hlt halt_kernel (t\<lparr>it_exitCount := it_exitCount t + 1\<rparr>) (e\<lparr>e_host := ?h\<rparr>) = Some (r, t', e')"
      using s v by (simp add: InstructionTrapper_step_def VCpu_run_def)
    then show ?thesis
      by (auto simp: dispatch_hlt_def publish_and_return_def Let_def split: option.splits prod.splits Option.bind_splits)
  qed
  with s trap_steps_0 show "\<exists>n t1 e1 y. trap_steps halt_kernel n (t, e) (t1, e1) \<and>
      InstructionTrapper_step halt_kernel t1 e1 = Some y \<and> fst y \<noteq> RR_Continue"
    by (metis fst_conv)
qed

lemmas halt_laws = halt_reg_laws halt_other_laws(3) halt_run_law halt_mem_laws halt_other_laws(1) halt_errno_law
  halt_other_laws(2)

lemma halt_image: "image_fits halt_kernel"
  by (auto simp: image_fits_def halt_kernel_def split: if_splits)

text \<open>A library whose files can always be opened and are not kept.\<close>

definition demo_library :: "'k library" where
  "demo_library = \<lparr>ec_message = dec_int, open_out = (\<lambda>path h. (True, h)), write_out = (\<lambda>path s h. h)\<rparr>"

section \<open>A machine for the concrete instances\<close>

definition demo_machine :: VirtualMachine where
  "demo_machine = demo_vm\<lparr>vm_memoryRegions := [demo_ram]\<rparr>"

lemma demo_machine_simps: "vm_memoryRegions demo_machine = [demo_ram]" "vm_vcpus demo_machine = [demo_vcpu]"
  by (simp_all add: demo_machine_def demo_vm_def)

lemma demo_machine_ok: "machine_ok demo_machine demo_vcpu"
  by (simp add: machine_ok_def demo_machine_simps) (simp add: demo_ram_def)

lemma demo_ram_page: "page_ready (v_runPage demo_vcpu) demo_ram_host"
  by (simp add: page_ready_def demo_ram_host_def demo_host_def demo_vcpu_def run_fits_def io_width_def) (simp add: kvm_run0_def)

text \<open>That machine's host with every byte of the guest's memory set to \<open>b\<close>, wired up as the program does it.\<close>

definition demo_main_env :: "byte \<Rightarrow> (sim, sim main_app) env" where
  "demo_main_env b = \<lparr>e_host = demo_ram_host\<lparr>h_heap := [0x10000000 \<mapsto> replicate 0x8000 b]\<rparr>,
     e_app = e_app (wired sim_kernel demo_machine [] demo_ram_host)\<rparr>"

lemma demo_main_ready: "env_ready (main_inv demo_machine) (v_runPage demo_vcpu) (demo_main_env b)"
proof -
  let ?h = "demo_ram_host\<lparr>h_heap := [0x10000000 \<mapsto> replicate 0x8000 b]\<rparr>"
  have "page_ready (v_runPage demo_vcpu) ?h"
    using demo_ram_page by (simp add: page_ready_def)
  moreover have "\<forall>r \<in> set (vm_memoryRegions demo_machine). region_live ?h r"
    by (simp add: demo_machine_simps region_live_def demo_ram_def MAP_FAILED_def)
  ultimately have "env_ready (main_inv demo_machine) (v_runPage demo_vcpu) (wired sim_kernel demo_machine [] ?h)"
    by (intro wired_ready) (simp_all add: tagged_def)
  then show ?thesis by (simp add: demo_main_env_def wired_def)
qed

end
