(* ===== verification/Host_Frame.thy ===== *)
theory Host_Frame
  imports Instruction_Trapper Vmi_Agent
begin

text \<open>
  Relations between the environment before and after an operation, such as having the same open
  descriptors: what the run loop, its handlers and its listeners keep, given that the calls they make keep it. The
  interface \<open>host_view\<close> is about the calls that only look at the guest, \<open>host_frame\<close> adds the answers that
  are left in the \<^verbatim>\<open>kvm_run\<close> page, and \<open>guest_frame\<close> what runs the guest and sets its registers.
\<close>

section \<open>Callbacks and listeners\<close>

type_synonym ('k, 'a) env_rel = "('k, 'a) env \<Rightarrow> ('k, 'a) env \<Rightarrow> bool"

definition keeps_env :: "('k, 'a) env_rel \<Rightarrow> (('k, 'a) env \<Rightarrow> ('k, 'a) env) \<Rightarrow> bool" where
  "keeps_env R f \<longleftrightarrow> (\<forall>e. R e (f e))"

definition listener_keeps :: "('k, 'a) env_rel \<Rightarrow> (HvEvent \<Rightarrow> ('k, 'a) env \<Rightarrow> ('k, 'a) env option) \<Rightarrow> bool" where
  "listener_keeps R f \<longleftrightarrow> (\<forall>ev e e'. f ev e = Some e' \<longrightarrow> R e e')"

definition listeners_keep :: "('k, 'a) env_rel \<Rightarrow> ('k, 'a) env EventDispatcher \<Rightarrow> bool" where
  "listeners_keep R d \<longleftrightarrow> (\<forall>s \<in> set (d_subscriptions d). listener_keeps R (sub_handler s))"

definition io_keeps :: "('k, 'a) env_rel \<Rightarrow> ('k, 'a) IoPortHandler \<Rightarrow> bool" where
  "io_keeps R t \<longleftrightarrow>
     (\<forall>port cb ctx. iph_inCallbacks t port = Some cb \<longrightarrow> keeps_env R (\<lambda>e. snd (cb ctx e))) \<and>
     (\<forall>port cb ctx. iph_outCallbacks t port = Some cb \<longrightarrow> keeps_env R (cb ctx))"

definition mmio_keeps :: "('k, 'a) env_rel \<Rightarrow> ('k, 'a) MmioHandler \<Rightarrow> bool" where
  "mmio_keeps R t \<longleftrightarrow>
     (\<forall>addr cb ctx. mh_readCallbacks t addr = Some cb \<longrightarrow> keeps_env R (\<lambda>e. snd (cb ctx e))) \<and>
     (\<forall>addr cb ctx. mh_writeCallbacks t addr = Some cb \<longrightarrow> keeps_env R (cb ctx))"

definition cpuid_keeps :: "('k, 'a) env_rel \<Rightarrow> ('k, 'a) CpuidHandler \<Rightarrow> bool" where
  "cpuid_keeps R t \<longleftrightarrow>
     (\<forall>leaf cb l s. ch_leafCallbacks t leaf = Some cb \<longrightarrow> keeps_env R (\<lambda>e. snd (cb l s e)))"

definition trapper_keeps :: "('k, 'a) env_rel \<Rightarrow> ('k, 'a) InstructionTrapper \<Rightarrow> bool" where
  "trapper_keeps R t \<longleftrightarrow> pred_option (cpuid_keeps R) (it_cpuid t) \<and> pred_option (io_keeps R) (it_io t) \<and>
     pred_option (mmio_keeps R) (it_mmio t) \<and> pred_option (listeners_keep R) (it_dispatch t)"

definition kept :: "('k, 'a) env_rel \<Rightarrow> ('k, 'a) env \<Rightarrow> ('k, 'a) InstructionTrapper \<Rightarrow> ('k, 'a) env \<Rightarrow> bool" where
  "kept R e t' e' \<longleftrightarrow> R e e' \<and> trapper_keeps R t'"

section \<open>Looking at the guest\<close>

locale host_view =
  fixes K :: "'k kernel" and R :: "('k, 'a) env_rel"
  assumes same: "R e e" and compose: "R e e1 \<Longrightarrow> R e1 e2 \<Longrightarrow> R e e2"
    and clock: "clock_now K (e_host e) = (now, h') \<Longrightarrow> R e (e\<lparr>e_host := h'\<rparr>)"
    and get_regs: "sys_get_regs K fd (e_host e) = (rc, r, h') \<Longrightarrow> R e (e\<lparr>e_host := h'\<rparr>)"
    and get_sregs: "sys_get_sregs K fd (e_host e) = (rc, s, h') \<Longrightarrow> R e (e\<lparr>e_host := h'\<rparr>)"
begin

lemma getRegs: "VCpu_getRegs K v (e_host e) = (rr, h') \<Longrightarrow> R e (e\<lparr>e_host := h'\<rparr>)"
  using get_regs by (auto simp: VCpu_getRegs_def split: prod.splits if_splits)

lemma getSregs: "VCpu_getSregs K v (e_host e) = (rr, h') \<Longrightarrow> R e (e\<lparr>e_host := h'\<rparr>)"
  using get_sregs by (auto simp: VCpu_getSregs_def split: prod.splits if_splits)

lemma on_host_clock: "on_host (clock_now K) e = (now, e') \<Longrightarrow> R e e'"
  using clock by (auto simp: on_host_def split: prod.splits)

lemma on_host_getRegs: "on_host (VCpu_getRegs K v) e = (rr, e') \<Longrightarrow> R e e'"
  using getRegs by (auto simp: on_host_def split: prod.splits)

lemma rip: "event_rip K v ev e = (ev', e') \<Longrightarrow> R e e'"
  using on_host_getRegs by (auto simp: event_rip_def split: prod.splits sum.splits)

lemma stamped: "on_host (clock_now K) e = (now, e1) \<Longrightarrow> event_rip K v ev e1 = (ev', e2) \<Longrightarrow> R e e2"
  using compose on_host_clock rip by blast

lemma deliver:
  "\<forall>s \<in> set subs. listener_keeps R (sub_handler s) \<Longrightarrow> deliver subs ev e = Some e' \<Longrightarrow> R e e'"
proof (induction subs arbitrary: e)
  case (Cons s subs)
  show ?case
  proof (cases "sub_filter s = None \<or> sub_filter s = Some (ev_type ev)")
    case True
    with Cons.prems(2) obtain e1 where "sub_handler s ev e = Some e1" "deliver subs ev e1 = Some e'"
      by (auto split: Option.bind_splits)
    with Cons.IH [of e1] Cons.prems(1) show ?thesis by (auto simp: listener_keeps_def intro: compose)
  qed (use Cons in auto)
qed (simp add: same)

lemma publish:
  "listeners_keep R d \<Longrightarrow> EventDispatcher_publish d ev e = Some (d', e') \<Longrightarrow>
     R e e' \<and> listeners_keep R d'"
  by (auto simp: EventDispatcher_publish_def listeners_keep_def intro: deliver split: Option.bind_splits)

lemma kept_same: "trapper_keeps R t \<Longrightarrow> kept R e t e"
  by (simp add: kept_def same)

lemma kept_after: "R e e1 \<Longrightarrow> kept R e1 t' e' \<Longrightarrow> kept R e t' e'"
  by (auto simp: kept_def intro: compose)

text \<open>The state after an event, from a state that has come as far as \<open>e1\<close>.\<close>

lemma published:
  assumes "publish_and_return r d ev t e1 = Some (r', t', e')" and "R e e1"
    and "trapper_keeps R t" and "it_dispatch t = Some d"
  shows "kept R e t' e'"
proof -
  obtain d' where p: "EventDispatcher_publish d ev e1 = Some (d', e')" and t': "t' = t\<lparr>it_dispatch := Some d'\<rparr>"
    using assms(1) by (auto simp: publish_and_return_def split: Option.bind_splits)
  have "listeners_keep R d" using assms(3,4) by (simp add: trapper_keeps_def)
  from publish [OF this p] assms(2,3) t' show ?thesis by (auto simp: kept_def trapper_keeps_def intro: compose)
qed

lemma hlt:
  assumes "dispatch_hlt K t e = Some (r, t', e')" and "trapper_keeps R t"
  shows "kept R e t' e'"
  using assms by (auto simp: kept_same dispatch_hlt_def Let_def split: option.splits prod.splits
      intro: published [OF _ stamped assms(2)])

lemma shutdown:
  assumes "dispatch_shutdown K t e = Some (r, t', e')" and "trapper_keeps R t"
  shows "kept R e t' e'"
  using assms by (auto simp: kept_same dispatch_shutdown_def Let_def split: option.splits prod.splits
      intro: published [OF _ on_host_clock assms(2)])

lemma publish_io:
  assumes "publish_io K t e = Some (r, t', e')" and "trapper_keeps R t"
  shows "kept R e t' e'"
  using assms by (auto simp: kept_same publish_io_def Let_def split: option.splits prod.splits Option.bind_splits
      intro: published [OF _ stamped assms(2)])

lemma publish_mmio:
  assumes "publish_mmio K t e = Some (r, t', e')" and "trapper_keeps R t"
  shows "kept R e t' e'"
  using assms by (auto simp: kept_same publish_mmio_def Let_def split: option.splits prod.splits Option.bind_splits
      intro: published [OF _ stamped assms(2)])

lemma publish_cpuid:
  assumes "publish_cpuid K t e = Some (r, t', e')" and "trapper_keeps R t"
  shows "kept R e t' e'"
proof (cases "it_dispatch t")
  case (Some d)
  obtain rr e1 where g: "on_host (VCpu_getRegs K (it_vcpu t)) e = (rr, e1)" by fastforce
  obtain now e2 where c: "on_host (clock_now K) e1 = (now, e2)" by fastforce
  obtain ev ev' e3 where i: "event_rip K (it_vcpu t) ev e2 = (ev', e3)"
    and p: "publish_and_return RR_Continue d ev' t e3 = Some (r, t', e')"
    using assms(1) by (auto simp: publish_cpuid_def Some g c Let_def split: prod.splits)
  have "R e e3" using compose [OF on_host_getRegs [OF g] stamped [OF c i]] .
  from published [OF p this assms(2) Some] show ?thesis .
qed (use assms in \<open>auto simp: kept_same publish_cpuid_def\<close>)

text \<open>What the agent does for an event before it calls its callbacks.\<close>

lemma snapshot:
  assumes "VmiAgent_snapshotRegisters K a i (e_host e) = (snap, h')"
  shows "R e (e\<lparr>e_host := h'\<rparr>)"
proof -
  have two: "R e (e\<lparr>e_host := h2\<rparr>)" if "VCpu_getRegs K v (e_host e) = (g, h1)" "VCpu_getSregs K v h1 = (g', h2)" for v g h1 g' h2
    using getRegs [OF that(1)] getSregs [of v "e\<lparr>e_host := h1\<rparr>"] that(2) compose by simp
  have "R e (e\<lparr>e_host := h'\<rparr>)" if "VCpu_getRegs K v (e_host e) = (g, h1)" "VCpu_getSregs K v h1 = (g', h2)"
    "clock_now K h2 = (now, h')" for v g h1 g' h2 now
    using two [OF that(1,2)] clock [of "e\<lparr>e_host := h2\<rparr>"] that(3) compose by simp
  with two show ?thesis
    using assms same [of e]
    by (auto simp: VmiAgent_snapshotRegisters_def Let_def split: option.splits if_splits prod.splits sum.splits)
qed

end

section \<open>Answering the guest\<close>

locale host_frame = host_view +
  assumes page: "h_runs (e_host e) p \<noteq> None \<Longrightarrow> R e (set_run p run e)"
begin

lemma set_run: "h_runs (e_host e) p = Some run \<Longrightarrow> R e (set_run p r e)"
  using page by simp

lemma io_handle:
  assumes "IoPortHandler_handle v p t e = Some (ok, t', e')" and "io_keeps R t"
  shows "R e e' \<and> io_keeps R t'"
proof -
  have cbs: "R e (snd (cb ctx e))" if "iph_inCallbacks t port = Some cb" for port cb ctx
    using assms(2) that by (auto simp: io_keeps_def keeps_env_def)
  have out: "R e (cb ctx e)" if "iph_outCallbacks t port = Some cb" for port cb ctx
    using assms(2) that by (auto simp: io_keeps_def keeps_env_def)
  have "R e e'"
    using assms(1)
    by (auto simp: IoPortHandler_handle_def Let_def split_def split: Option.bind_splits if_splits option.splits
        intro: same cbs out set_run compose [OF cbs set_run])
  with assms(2) io_callbacks_kept [OF assms(1)] show ?thesis by (simp add: io_keeps_def)
qed

lemma mmio_handle:
  assumes "MmioHandler_handle p t e = Some (ok, t', e')" and "mmio_keeps R t"
  shows "R e e' \<and> mmio_keeps R t'"
proof -
  have cbs: "R e (snd (cb ctx e))" if "mh_readCallbacks t addr = Some cb" for addr cb ctx
    using assms(2) that by (auto simp: mmio_keeps_def keeps_env_def)
  have out: "R e (cb ctx e)" if "mh_writeCallbacks t addr = Some cb" for addr cb ctx
    using assms(2) that by (auto simp: mmio_keeps_def keeps_env_def)
  have "R e e'"
    using assms(1)
    by (auto simp: MmioHandler_handle_def Let_def split_def split: Option.bind_splits if_splits option.splits
        intro: same cbs out set_run compose [OF cbs set_run])
  with assms(2) mmio_callbacks_kept [OF assms(1)] show ?thesis by (simp add: mmio_keeps_def)
qed

lemma dispatch_io:
  assumes io: "dispatch_io K t e = Some (r, t', e')" and t: "trapper_keeps R t"
  shows "kept R e t' e'"
proof -
  obtain ok io' e1 where h: "optionally (IoPortHandler_handle (it_vcpu t) (v_runPage (it_vcpu t))) (it_io t) e = Some (ok, io', e1)"
    and rest: "(if \<not> ok then Some (RR_Error, t\<lparr>it_io := io'\<rparr>, e1) else Instruction_Trapper.publish_io K (t\<lparr>it_io := io'\<rparr>) e1) = Some (r, t', e')"
    using io by (auto simp: dispatch_io_def Let_def split: Option.bind_splits)
  have "R e e1 \<and> pred_option (io_keeps R) io'"
    using h t same by (fastforce simp: optionally_def trapper_keeps_def dest: io_handle split: option.splits Option.bind_splits)
  moreover from this have "trapper_keeps R (t\<lparr>it_io := io'\<rparr>)" using t by (simp add: trapper_keeps_def)
  ultimately show ?thesis
    using rest publish_io [of "t\<lparr>it_io := io'\<rparr>" e1] kept_after by (cases ok) (auto simp: kept_def)
qed

lemma dispatch_mmio:
  assumes mm: "dispatch_mmio K t e = Some (r, t', e')" and t: "trapper_keeps R t"
  shows "kept R e t' e'"
proof -
  obtain ok mmio' e1 where h: "optionally (MmioHandler_handle (v_runPage (it_vcpu t))) (it_mmio t) e = Some (ok, mmio', e1)"
    and rest: "(if \<not> ok then Some (RR_Error, t\<lparr>it_mmio := mmio'\<rparr>, e1) else Instruction_Trapper.publish_mmio K (t\<lparr>it_mmio := mmio'\<rparr>) e1) = Some (r, t', e')"
    using mm by (auto simp: dispatch_mmio_def Let_def split: Option.bind_splits)
  have "R e e1 \<and> pred_option (mmio_keeps R) mmio'"
    using h t same by (fastforce simp: optionally_def trapper_keeps_def dest: mmio_handle split: option.splits Option.bind_splits)
  moreover from this have "trapper_keeps R (t\<lparr>it_mmio := mmio'\<rparr>)" using t by (simp add: trapper_keeps_def)
  ultimately show ?thesis
    using rest publish_mmio [of "t\<lparr>it_mmio := mmio'\<rparr>" e1] kept_after by (cases ok) (auto simp: kept_def)
qed

end

section \<open>Running the guest\<close>

locale guest_frame = host_frame +
  assumes set_regs: "sys_ioctl K fd (KVM_SET_REGS r) (e_host e) = (rc, h') \<Longrightarrow> R e (e\<lparr>e_host := h'\<rparr>)"
    and set_sregs: "sys_ioctl K fd (KVM_SET_SREGS s) (e_host e) = (rc, h') \<Longrightarrow> R e (e\<lparr>e_host := h'\<rparr>)"
    and enter: "sys_ioctl K fd KVM_RUN (e_host e) = (rc, h') \<Longrightarrow> R e (e\<lparr>e_host := h'\<rparr>)"
    and store: "heap_store (e_host e) p off bs = Some h' \<Longrightarrow> R e (e\<lparr>e_host := h'\<rparr>)"
begin

lemma setRegs: "VCpu_setRegs K v r (e_host e) = (ec, h') \<Longrightarrow> R e (e\<lparr>e_host := h'\<rparr>)"
  using set_regs by (auto simp: VCpu_setRegs_def split: prod.splits if_splits)

lemma setSregs: "VCpu_setSregs K v s (e_host e) = (ec, h') \<Longrightarrow> R e (e\<lparr>e_host := h'\<rparr>)"
  using set_sregs by (auto simp: VCpu_setSregs_def split: prod.splits if_splits)

lemma on_host_setRegs: "on_host (VCpu_setRegs K v r) e = (ec, e') \<Longrightarrow> R e e'"
  using setRegs by (auto simp: on_host_def split: prod.splits)

lemma cpuid_handle:
  assumes "CpuidHandler_handle K v t e = (ok, t', e')" and "cpuid_keeps R t"
  shows "R e e' \<and> cpuid_keeps R t'"
proof -
  obtain rr e1 where g: "on_host (VCpu_getRegs K v) e = (rr, e1)" by fastforce
  have cbs: "R e1 (snd (cb l s e1))" if "ch_leafCallbacks t leaf = Some cb" for leaf cb l s
    using assms(2) that by (auto simp: cpuid_keeps_def keeps_env_def)
  have "R e1 e'"
  proof (cases rr)
    case (Inl ec)
    with assms(1) g same show ?thesis by (simp add: CpuidHandler_handle_def)
  next
    case (Inr regs)
    let ?l = "ucast (rax regs) :: u32" and ?s = "ucast (rcx regs) :: u32"
    obtain result e2 where a: "(case ch_leafCallbacks t ?l of Some cb \<Rightarrow> cb ?l ?s e1
        | None \<Rightarrow> (CpuidHandler_executeHostCpuid K ?l ?s (e_host e1), e1)) = (result, e2)" by fastforce
    have r2: "R e1 e2"
      using a same cbs [of ?l _ ?l ?s] by (auto split: option.splits dest: arg_cong [of _ _ snd])
    obtain regs' ec e3 where st: "on_host (VCpu_setRegs K v regs') e2 = (ec, e3)" and "e' = e3"
      using assms(1) g Inr a by (auto simp: CpuidHandler_handle_def Let_def split: prod.splits if_splits)
    with compose [OF r2 on_host_setRegs [OF st]] show ?thesis by simp
  qed
  with compose [OF on_host_getRegs [OF g]] assms(2) cpuid_callbacks_kept [OF assms(1)] show ?thesis
    by (simp add: cpuid_keeps_def)
qed

lemma cpuid_optional:
  assumes h: "optionally (\<lambda>c s. Some (CpuidHandler_handle K (it_vcpu t) c s)) (it_cpuid t) e = Some (ok, cpuid', e1)"
    and t: "trapper_keeps R t"
  shows "R e e1" and "trapper_keeps R (t\<lparr>it_cpuid := cpuid'\<rparr>)"
proof -
  have "R e e1 \<and> pred_option (cpuid_keeps R) cpuid'"
    using h t same
    by (fastforce simp: optionally_def trapper_keeps_def dest: cpuid_handle split: option.splits Option.bind_splits prod.splits)
  then show "R e e1" and "trapper_keeps R (t\<lparr>it_cpuid := cpuid'\<rparr>)"
    using t by (simp_all add: trapper_keeps_def)
qed

lemma internal_error:
  assumes ie: "dispatch_internal_error K t e = Some (r, t', e')" and t: "trapper_keeps R t"
  shows "kept R e t' e'"
proof -
  from ie consider "t' = t" "e' = e"
    | ok cpuid' e1 where "optionally (\<lambda>c s. Some (CpuidHandler_handle K (it_vcpu t) c s)) (it_cpuid t) e = Some (ok, cpuid', e1)"
      "(if \<not> ok then Some (RR_Error, t\<lparr>it_cpuid := cpuid'\<rparr>, e1)
        else Instruction_Trapper.publish_cpuid K (t\<lparr>it_cpuid := cpuid'\<rparr>) e1) = Some (r, t', e')"
    by (auto simp: dispatch_internal_error_def Let_def split: Option.bind_splits if_splits)
  then show ?thesis
  proof cases
    case 2
    note c = cpuid_optional [OF 2(1) t]
    from 2(2) publish_cpuid [OF _ c(2)] kept_after [OF c(1)] kept_same [OF c(2)] show ?thesis
      by (cases ok) (auto intro: kept_after [OF c(1)])
  qed (use t kept_same in blast)
qed

lemma unknown:
  assumes un: "dispatch_unknown K t e = Some (r, t', e')" and t: "trapper_keeps R t"
  shows "kept R e t' e'"
proof -
  from un consider "t' = t" "e' = e"
    | ok cpuid' e1 where "optionally (\<lambda>c s. Some (CpuidHandler_handle K (it_vcpu t) c s)) (it_cpuid t) e = Some (ok, cpuid', e1)"
      "t' = t\<lparr>it_cpuid := cpuid'\<rparr>" "e' = e1"
    by (auto simp: dispatch_unknown_def Let_def split: Option.bind_splits if_splits)
  then show ?thesis
  proof cases
    case 2
    with cpuid_optional [OF 2(1) t] show ?thesis by (simp add: kept_def)
  qed (use t kept_same in blast)
qed

lemma dispatch:
  assumes "InstructionTrapper_dispatchExit K reason t e = Some (r, t', e')" and "trapper_keeps R t"
  shows "kept R e t' e'"
  using assms hlt shutdown dispatch_io dispatch_mmio internal_error unknown kept_same by (cases reason) auto

lemma step:
  assumes s: "InstructionTrapper_step K t e = Some (r, t', e')" and t: "trapper_keeps R t"
  shows "kept R e t' e'"
proof -
  obtain rc h1 where io: "sys_ioctl K (v_fd (it_vcpu t)) KVM_RUN (e_host e) = (rc, h1)" by fastforce
  let ?e = "e\<lparr>e_host := h1\<rparr>" and ?t = "t\<lparr>it_exitCount := it_exitCount t + 1\<rparr>"
  have t1: "trapper_keeps R ?t" using t by (simp add: trapper_keeps_def)
  from s have "t' \<in> {t, ?t} \<and> e' = ?e \<or> (\<exists>reason. InstructionTrapper_dispatchExit K reason ?t ?e = Some (r, t', e'))"
    by (auto simp: InstructionTrapper_step_def VCpu_run_def io Let_def split: if_splits option.splits)
  then have "kept R ?e t' e'" using kept_same t t1 dispatch [OF _ t1] by blast
  with enter [OF io] show ?thesis by (intro kept_after [of e ?e]) simp_all
qed

lemma steps:
  "trap_steps K n c c' \<Longrightarrow> trapper_keeps R (fst c) \<Longrightarrow> kept R (snd c) (fst c') (snd c')"
proof (induction rule: trap_steps.induct)
  case (trap_steps_Suc t e t1 e1 n c)
  from step [OF trap_steps_Suc.hyps(1)] trap_steps_Suc.prems have "kept R e t1 e1" by simp
  with trap_steps_Suc.IH show ?case using kept_after by (fastforce simp: kept_def)
qed (simp add: kept_same)

lemma run_loop:
  assumes l: "InstructionTrapper_runLoop K lim t e = Some (r, t', e')" and t: "trapper_keeps R t"
  shows "kept R e t' e'"
proof -
  obtain n t1 e1 where n: "trap_steps K n (t, e) (t1, e1)" and ends: "loop_ends K lim 0 n (t1, e1) (r, t', e')"
    using run_iterations_sound [OF l [unfolded InstructionTrapper_runLoop_def]] by auto
  have k: "kept R e t1 e1" using steps [OF n] t by simp
  from ends have "t' = t1 \<and> e' = e1 \<or> InstructionTrapper_step K t1 e1 = Some (r, t', e')" by (auto simp: loop_ends_def)
  with k step [of t1 e1] kept_after [of e e1] show ?thesis by (auto simp: kept_def)
qed

text \<open>Snapshots.\<close>

lemma take_snapshot:
  assumes "VirtualMachine_takeSnapShot K vm (e_host e) = Some (snap, h')"
  shows "R e (e\<lparr>e_host := h'\<rparr>)"
proof -
  obtain v g h1 g' where "VCpu_getRegs K v (e_host e) = (g, h1)" "VCpu_getSregs K v h1 = (g', h')"
    using assms by (auto simp: VirtualMachine_takeSnapShot_def Let_def split: list.splits prod.splits Option.bind_splits)
  with compose [OF getRegs] getSregs [of v "e\<lparr>e_host := h1\<rparr>"] show ?thesis by simp
qed

lemma restore_memory: "restore_regions rs bss h = Some h' \<Longrightarrow> R (e\<lparr>e_host := h\<rparr>) (e\<lparr>e_host := h'\<rparr>)"
proof (induction rs bss h rule: restore_regions.induct)
  case (2 r rs snaps h)
  show ?case
  proof (cases "m_hostAddr r = 0 \<or> snaps = [] \<or> hd snaps = []")
    case False
    with 2(3) obtain bs h1 where ld: "load_at (hd snaps) 0 (unat (m_size r)) = Some bs"
      and st: "heap_store h (m_hostAddr r) 0 bs = Some h1" and rest: "restore_regions rs (tl snaps) h1 = Some h'"
      by (auto split: Option.bind_splits)
    from store [of "e\<lparr>e_host := h\<rparr>"] st compose [OF _ 2(2) [OF False ld st rest]] show ?thesis by simp
  qed (use 2 in simp)
qed (simp add: same)

lemma restore:
  assumes "VirtualMachine_restoreSnapshot K vm snap (e_host e) = Some (cr, cs, h')"
  shows "R e (e\<lparr>e_host := h'\<rparr>)"
proof -
  obtain v h1 h2 where "VCpu_setRegs K v (snap_regs snap) (e_host e) = (cr, h1)" "VCpu_setSregs K v (snap_sregs snap) h1 = (cs, h2)"
    and m: "restore_regions (vm_memoryRegions vm) (snap_memoryRegions snap) h2 = Some h'"
    using assms by (auto simp: VirtualMachine_restoreSnapshot_def Let_def split: list.splits prod.splits Option.bind_splits)
  with compose [OF setRegs] setSregs [of v _ "e\<lparr>e_host := h1\<rparr>"] have "R e (e\<lparr>e_host := h2\<rparr>)" by simp
  from compose [OF this restore_memory [OF m]] show ?thesis .
qed

end

end
