(* ===== verification/Hv_Leak.thy ===== *)
theory Hv_Leak
  imports Hv_Report Host_Frame
begin

text \<open>
  What a run of the program holds of the host and gives back: descriptors, guest memory and
  \<^verbatim>\<open>kvm_run\<close> pages. A machine owns exactly what was added since it was created, running the guest
  changes none of it, and the destructors on each path out of \<^verbatim>\<open>main\<close> return all of it.
\<close>

section \<open>Resources\<close>

definition resources :: "('k host \<Rightarrow> int set) \<Rightarrow> 'k host \<Rightarrow> int set \<times> (u64 \<rightharpoonup> nat) \<times> u64 set" where
  "resources F h = (F h, heap_shape h, dom (h_runs h))"

definition resource_laws :: "'k kernel \<Rightarrow> ('k host \<Rightarrow> int set) \<Rightarrow> bool" where
  "resource_laws K F \<longleftrightarrow> fd_law K F \<and> fd_frame K F \<and> page_law K \<and> mem_laws K \<and> mapping_law K \<and> reg_laws K \<and>
     clock_frame K \<and> run_law K"

lemma resource_lawsD:
  assumes "resource_laws K F"
  shows "fd_law K F" "fd_frame K F" "page_law K" "mem_laws K" "mapping_law K" "reg_laws K" "clock_frame K" "run_law K"
  using assms by (simp_all add: resource_laws_def)

lemma clock_resources:
  assumes "resource_laws K F" and "clock_now K h = (now, h')"
  shows "resources F h' = resources F h"
proof -
  have "F h' = F h" using fd_frameD(1) [OF resource_lawsD(2) [OF assms(1)] assms(2)] .
  moreover have "h_heap h' = h_heap h" "h_runs h' = h_runs h"
    using assms(2) resource_lawsD(7) [OF assms(1)] unfolding clock_frame_def by metis+
  ultimately show ?thesis by (simp add: resources_def heap_shape_def)
qed

lemma get_resources:
  assumes "resource_laws K F"
  shows "sys_get_regs K fd h = (rc, r, h') \<Longrightarrow> resources F h' = resources F h"
    and "sys_get_sregs K fd h = (rc, s, h') \<Longrightarrow> resources F h' = resources F h"
proof -
  have "F h' = F h" if "sys_get_regs K fd h = (rc, r, h') \<or> sys_get_sregs K fd h = (rc, s, h')"
    using that fd_frameD(2,3) [OF resource_lawsD(2) [OF assms]] by blast
  then show "sys_get_regs K fd h = (rc, r, h') \<Longrightarrow> resources F h' = resources F h"
    and "sys_get_sregs K fd h = (rc, s, h') \<Longrightarrow> resources F h' = resources F h"
    using get_regs_frameD(1,2) [OF resource_lawsD(6) [OF assms]] get_sregs_frameD(1,2) [OF resource_lawsD(6) [OF assms]]
    by (simp_all add: resources_def heap_shape_def)
qed

lemma ioctl_resources:
  assumes "resource_laws K F" and "sys_ioctl K fd q h = (rc, h')" and "\<not> creates_fd q"
  shows "resources F h' = resources F h"
proof (cases "q = KVM_RUN")
  case True
  have "F h' = F h" using fd_ioctlD(2) [OF resource_lawsD(1) [OF assms(1)] assms(2,3)] .
  moreover have "heap_shape h' = heap_shape h"
    using assms(2) True resource_lawsD(8) [OF assms(1)] unfolding run_law_def by metis
  moreover have "dom (h_runs h') = dom (h_runs h)"
    using page_lawD(4) [OF resource_lawsD(3) [OF assms(1)]] assms(2) True by blast
  ultimately show ?thesis by (simp add: resources_def)
next
  case False
  with fd_ioctlD(2) [OF resource_lawsD(1) [OF assms(1)] assms(2,3)] ioctlD [OF resource_lawsD(4) [OF assms(1)] assms(2)]
  show ?thesis by (simp add: resources_def heap_shape_def)
qed

lemma write_resources:
  assumes "resource_laws K F"
  shows "heap_store h p off bs = Some h' \<Longrightarrow> resources F h' = resources F h"
    and "h_runs h p \<noteq> None \<Longrightarrow> resources F (h\<lparr>h_runs := (h_runs h)(p \<mapsto> r)\<rparr>) = resources F h"
proof -
  note F = fd_frameD(6,7) [OF resource_lawsD(2) [OF assms]]
  show "heap_store h p off bs = Some h' \<Longrightarrow> resources F h' = resources F h"
    using heap_shape_store [of h p off bs h'] F(1) by (auto simp: resources_def heap_store_def)
  show "h_runs h p \<noteq> None \<Longrightarrow> resources F (h\<lparr>h_runs := (h_runs h)(p \<mapsto> r)\<rparr>) = resources F h"
    using F(2) by (auto simp: resources_def heap_shape_def)
qed

section \<open>Running the guest\<close>

text \<open>The agent as the program sets it up: its only callback prints.\<close>

definition prints_only :: "'k main_app \<Rightarrow> bool" where
  "prints_only app \<longleftrightarrow> vmi_callbacks (aa_agent app) = [vmi_print]"

definition same_resources :: "'k kernel \<Rightarrow> ('k host \<Rightarrow> int set) \<Rightarrow> ('k, 'k main_app) env_rel" where
  "same_resources K F e e' \<longleftrightarrow> (resource_laws K F \<longrightarrow> prints_only (e_app e) \<longrightarrow>
     resources F (e_host e') = resources F (e_host e) \<and> prints_only (e_app e'))"

interpretation held: guest_frame K "same_resources K F" for K F
proof unfold_locales
  show "same_resources K F e (set_run p run e)" if "h_runs (e_host e) p \<noteq> None" for e p run
    using write_resources(2) [OF _ that] by (simp add: same_resources_def set_run_def)
qed (auto simp: same_resources_def clock_resources get_resources ioctl_resources write_resources(1) creates_fd_def)

lemma same_resources_user: "same_resources K F e (on_user f e)"
  by (simp add: same_resources_def prints_only_def)

lemma agent_held: "listener_keeps (same_resources K F) (VmiAgent_handleHvEvent K)"
  unfolding listener_keeps_def
proof (intro allI impI)
  fix ev and e e' :: "'a main_env"
  assume h: "VmiAgent_handleHvEvent K ev e = Some e'"
  let ?a = "aa_agent (e_app e)"
  obtain snap h1 where s: "VmiAgent_snapshotRegisters K ?a (ev_vcpu_id ev) (e_host e) = (snap, h1)" by fastforce
  have "e_host e' = h1 \<and> vmi_callbacks (aa_agent (e_app e')) = [vmi_print]" if "vmi_callbacks ?a = [vmi_print]"
    using h s that by (auto simp: VmiAgent_handleHvEvent_def vmi_print_def Let_def split: Option.bind_splits)
  with held.snapshot [OF s, of F] show "same_resources K F e e'" by (auto simp: same_resources_def prints_only_def)
qed

lemma logger_held: "listener_keeps (same_resources K F) logger"
  using held.compose [OF same_resources_user same_resources_user]
  by (auto simp: listener_keeps_def logger_def Let_def)

lemma main_listeners_held: "main_listeners K vm = (a, Some d) \<Longrightarrow> listeners_keep (same_resources K F) d"
  using agent_held logger_held by (auto simp: listeners_keep_def main_listeners_eq)

lemma main_trapper_held:
  assumes "listeners_keep (same_resources K F) d"
  shows "trapper_keeps (same_resources K F) (main_trapper K v d)"
proof -
  have "cpuid_keeps (same_resources K F) (main_cpuid K)"
    using held.same by (auto simp: cpuid_keeps_def keeps_env_def main_cpuid_def CpuidHandler_registerLeaf_def CpuidHandler0_def
        cpuid_leaf1_def split_def Let_def split: if_splits)
  moreover have "io_keeps (same_resources K F) main_io"
    using same_resources_user by (auto simp: io_keeps_def keeps_env_def main_io_def IoPortHandler_registerInPort_def
        IoPortHandler0_def keyboard_in_def split: if_splits)
  moreover have "mmio_keeps (same_resources K F) main_mmio"
    using same_resources_user held.same by (auto simp: mmio_keeps_def keeps_env_def main_mmio_defs status_read_def
        input_write_def magic_read_def Let_def split: if_splits)
  ultimately show ?thesis
    using assms by (simp add: trapper_keeps_def main_trapper_def InstructionTrapper_new_def)
qed

lemma build_cpuid_held:
  assumes "build_cpuid K leaves es d s = Some (es', d', s')" and "listeners_keep (same_resources K F) d"
  shows "same_resources K F s s' \<and> listeners_keep (same_resources K F) d'"
  using assms
proof (induction leaves arbitrary: es d s)
  case (Cons leaf leaves)
  obtain e now ev s1 es1 d1 s2 where c: "on_host (clock_now K) (say (cpuid_line e) s) = (now, s1)"
    and p: "EventDispatcher_publish d ev s1 = Some (d1, s2)"
    and rest: "build_cpuid K leaves es1 d1 s2 = Some (es', d', s')"
    by (rule build_cpuid_round [of K s leaf leaves es d]) (use Cons.prems(1) in \<open>auto split: Option.bind_splits\<close>)
  have "same_resources K F s s1" by (rule held.compose [OF same_resources_user held.on_host_clock [OF c]])
  with held.publish [OF Cons.prems(2) p] Cons.IH [OF rest] held.compose show ?case by blast
qed (simp add: held.same)

lemma fuzz_prepare_held:
  assumes "fuzz_prepare K vm snap i (e_host e) = Some (cr, cs, h')"
  shows "same_resources K F e (e\<lparr>e_host := h'\<rparr>)"
proof -
  obtain h1 p b where r: "(if i > 0 then VirtualMachine_restoreSnapshot K vm snap (e_host e) else Some (ok_code, ok_code, e_host e)) =
      Some (cr, cs, h1)" and st: "heap_store h1 p 0x2000 [b] = Some h'"
    using assms by (auto simp: fuzz_prepare_def split: Option.bind_splits)
  have "same_resources K F e (e\<lparr>e_host := h1\<rparr>)"
    using r held.restore [of K vm snap e cr cs h1] held.same [of K F e] by (auto split: if_splits)
  with held.store [of "e\<lparr>e_host := h1\<rparr>"] st held.compose show ?thesis by fastforce
qed

lemma say_prepared_held: "say_prepared message vm cr cs i e = Some e' \<Longrightarrow> same_resources K F e e'"
  by (auto simp: say_prepared_def say_restored_def same_resources_def prints_only_def Let_def split: Option.bind_splits)

lemma say_result_held: "same_resources K F e (say_result r (say text e))"
  by (auto simp: say_result_def same_resources_def prints_only_def split: RunResult.splits)

lemma fuzz_runs_held:
  assumes "fuzz_runs K message vm snap n i t e = Some (ok, t', e')" and "trapper_keeps (same_resources K F) t"
  shows "same_resources K F e e'"
  using assms
proof (induction n arbitrary: i t e)
  case (Suc n)
  let ?R = "same_resources K F"
  from Suc.prems(1) obtain cr cs h1 e1 r t1 e2 where p: "fuzz_prepare K vm snap i (e_host e) = Some (cr, cs, h1)"
    and s: "say_prepared message vm cr cs i (e\<lparr>e_host := h1\<rparr>) = Some e1"
    and l: "InstructionTrapper_runLoop K 0 t e1 = Some (r, t1, e2)"
    and rest: "(if r = RR_Error then Some (False, t1, say_result r (say (exits_line t1) e2))
      else fuzz_runs K message vm snap n (i + 1) t1 (say_result r (say (exits_line t1) e2))) = Some (ok, t', e')"
    by (auto simp: Let_def split: Option.bind_splits)
  let ?e3 = "say_result r (say (exits_line t1) e2)"
  from held.run_loop [OF l Suc.prems(2)] have k: "?R e1 e2" "trapper_keeps ?R t1" by (simp_all add: kept_def)
  from held.compose [OF fuzz_prepare_held [OF p] say_prepared_held [OF s]] have "?R e e1" .
  from held.compose [OF held.compose [OF this k(1)] say_result_held] have e3: "?R e ?e3" .
  show ?case
  proof (cases "r = RR_Error")
    case False
    with rest Suc.IH [of "i + 1" t1 ?e3] k(2) held.compose [OF e3] show ?thesis by simp
  qed (use rest e3 in auto)
qed (simp add: held.same)

section \<open>Ownership\<close>

text \<open>
  A machine owns exactly what was added to the host since \<open>h0\<close>: its descriptors, the memory of its
  regions, the pages of its vCPUs.
\<close>

definition vm_fds :: "VirtualMachine \<Rightarrow> int set" where
  "vm_fds vm = insert (vm_fd vm) (v_fd ` set (vm_vcpus vm))"

definition vm_pages :: "VirtualMachine \<Rightarrow> u64 set" where
  "vm_pages vm = v_runPage ` set (vm_vcpus vm)"

definition vm_addrs :: "VirtualMachine \<Rightarrow> u64 set" where
  "vm_addrs vm = m_hostAddr ` set (vm_memoryRegions vm)"

definition owns :: "('k host \<Rightarrow> int set) \<Rightarrow> 'k host \<Rightarrow> VirtualMachine \<Rightarrow> 'k host \<Rightarrow> bool" where
  "owns F h0 vm h \<longleftrightarrow>
     F h = F h0 \<union> vm_fds vm \<and> vm_fds vm \<inter> F h0 = {} \<and> (\<forall>fd \<in> vm_fds vm. 0 \<le> fd) \<and>
     (\<forall>r \<in> set (vm_memoryRegions vm). region_mapped (heap_shape h) r) \<and>
     distinct (map m_hostAddr (vm_memoryRegions vm)) \<and> heap_shape h |` (- vm_addrs vm) = heap_shape h0 \<and>
     dom (h_runs h) = dom (h_runs h0) \<union> vm_pages vm \<and> vm_pages vm \<inter> dom (h_runs h0) = {} \<and>
     (\<forall>p \<in> vm_pages vm. heap_shape h p = None \<and> p \<noteq> 0 \<and> p \<noteq> MAP_FAILED)"

lemma owns_cong: "resources F h' = resources F h \<Longrightarrow> owns F h0 vm h \<Longrightarrow> owns F h0 vm h'"
  by (simp add: owns_def resources_def)

lemma heap_shape_None: "heap_shape h p = None \<longleftrightarrow> h_heap h p = None"
  by (simp add: heap_shape_def)

lemma fold_vcpu_release_runs:
  assumes "page_law K" "mem_laws K"
  shows "\<forall>v \<in> set vs. h_heap h (v_runPage v) = None \<and> v_runPage v \<noteq> 0 \<and> v_runPage v \<noteq> MAP_FAILED \<Longrightarrow>
    dom (h_runs (fold (VCpu_release K) vs h)) = dom (h_runs h) - v_runPage ` set vs"
proof (induction vs arbitrary: h)
  case (Cons v vs)
  obtain rc h1 where un: "sys_munmap K (v_runPage v) (v_mmapSize v) h = (rc, h1)" by fastforce
  have "h_runs (snd (sys_close K (v_fd v) x)) = h_runs x" for x
    by (rule closeD(2) [OF assms(2) prod.collapse [symmetric]])
  then have "dom (h_runs (VCpu_release K v h)) = dom (h_runs h) - {v_runPage v}"
    using page_lawD(3) [OF assms(1) un] un Cons.prems by (simp add: VCpu_release_def)
  with Cons.IH [of "VCpu_release K v h"] Cons.prems vcpu_release_heap [OF assms(2), of h v] show ?case by auto
qed simp

lemma machine_returns_all:
  assumes laws: "resource_laws K F" and own: "owns F h0 vm h"
  shows "resources F (VirtualMachine_release K vm h) = resources F h0"
proof -
  note l = resource_lawsD [OF laws]
  obtain rc h1 where cl: "sys_close K (vm_fd vm) h = (rc, h1)" by fastforce
  let ?h2 = "fold (VCpu_release K) (vm_vcpus vm) h1" and ?h3 = "VirtualMachine_release K vm h"
  have fd: "0 \<le> vm_fd vm" "\<forall>v \<in> set (vm_vcpus vm). 0 \<le> v_fd v" using own by (auto simp: owns_def vm_fds_def)
  have h3: "?h3 = fold (MemoryRegion_release K) (vm_memoryRegions vm) ?h2"
    using fd(1) cl by (simp add: VirtualMachine_release_def)
  have pages: "\<forall>v \<in> set (vm_vcpus vm). h_heap h1 (v_runPage v) = None \<and> v_runPage v \<noteq> 0 \<and> v_runPage v \<noteq> MAP_FAILED"
    using own closeD(1) [OF l(4) cl] by (auto simp: owns_def vm_pages_def heap_shape_None)
  have heap2: "h_heap ?h2 = h_heap h"
    using fold_vcpu_release_heap [OF l(4), of "vm_vcpus vm" h1] pages closeD(1) [OF l(4) cl] by simp
  have "\<forall>r \<in> set (vm_memoryRegions vm). region_live ?h2 r" "distinct (map m_hostAddr (vm_memoryRegions vm))"
    using own heap_shape_cong [OF heap2] by (simp_all add: owns_def region_live_shape)
  from fold_region_release [OF l(4) this] have
    r: "h_heap ?h3 = h_heap h |` (- vm_addrs vm)" "h_runs ?h3 = h_runs ?h2" by (simp_all add: h3 heap2 vm_addrs_def)
  have "F ?h3 = F h - {vm_fd vm} - {fd. fd \<in> v_fd ` set (vm_vcpus vm) \<and> 0 \<le> fd}"
    unfolding h3 fold_region_release_fds [OF l(1)] fold_vcpu_release_fds [OF l(1)] fd_closeD [OF l(1) cl] ..
  then have "F ?h3 = F h0" using own fd(2) by (auto simp: owns_def vm_fds_def)
  moreover have "heap_shape ?h3 = heap_shape h |` (- vm_addrs vm)"
    by (simp add: heap_shape_def r(1) restrict_map_def fun_eq_iff)
  moreover have "dom (h_runs ?h3) = dom (h_runs h) - vm_pages vm"
    using r(2) fold_vcpu_release_runs [OF l(3,4) pages] closeD(2) [OF l(4) cl] by (simp add: vm_pages_def)
  ultimately show ?thesis using own by (auto simp: resources_def owns_def)
qed

lemma new_machine_owns:
  assumes "resource_laws K F" and "KvmSystem_createVm K s h = (res, h')"
  shows "case res of Inl _ \<Rightarrow> resources F h' = resources F h | Inr vm \<Rightarrow> owns F h vm h'"
proof -
  note l = resource_lawsD [OF assms(1)]
  obtain fd h1 where io: "sys_ioctl K (s_fd s) KVM_CREATE_VM h = (fd, h1)" by fastforce
  have "heap_shape h1 = heap_shape h" "h_runs h1 = h_runs h"
    using ioctlD [OF l(4) io] by (simp_all add: heap_shape_def)
  moreover have "fd < 0 \<Longrightarrow> F h1 = F h" "\<not> fd < 0 \<Longrightarrow> fd \<notin> F h \<and> F h1 = insert fd (F h)"
    using fd_ioctlD(3-5) [OF l(1) io] by (simp_all add: creates_fd_def)
  ultimately show ?thesis
    using assms(2) io
    by (auto simp: KvmSystem_createVm_def resources_def owns_def vm_fds_def vm_addrs_def vm_pages_def VirtualMachine_new_def
        Let_def restrict_map_def fun_eq_iff split: if_splits)
qed

lemma region_create_runs_fds:
  assumes laws: "resource_laws K F" and c: "MemoryRegion_create K fd slot gpa n flags h = (res, h')"
  shows "F h' = F h" and "res = Inr r \<Longrightarrow> h_runs h (m_hostAddr r) = None"
proof -
  note l = resource_lawsD [OF laws]
  obtain p h1 where mm: "sys_mmap K n h = (p, h1)" by fastforce
  obtain rc2 h2 where adv: "sys_madvise K p n h1 = (rc2, h2)" by fastforce
  let ?q = "KVM_SET_USER_MEMORY_REGION \<lparr>umr_slot = slot, umr_flags = flags, umr_guest_phys_addr = gpa,
    umr_memory_size = n, umr_userspace_addr = p\<rparr>"
  obtain rc h3 where io: "sys_ioctl K fd ?q h2 = (rc, h3)" by fastforce
  obtain rc4 h4 where un: "sys_munmap K p n h3 = (rc4, h4)" by fastforce
  have "F h1 = F h" "F h2 = F h1" "F h3 = F h2" "F h4 = F h3"
    using fd_frameD(4) [OF l(2) mm] fd_frameD(5) [OF l(2) adv] fd_ioctlD(2) [OF l(1) io] fd_mapD(2) [OF l(1) un]
    by (simp_all add: creates_fd_def)
  then show "F h' = F h" and "res = Inr r \<Longrightarrow> h_runs h (m_hostAddr r) = None"
    using c mm adv io un page_lawD(5) [OF l(3) mm] by (auto simp: MemoryRegion_create_def Let_def split: if_splits)
qed

lemma region_added_owns:
  assumes laws: "resource_laws K F" and own: "owns F h0 vm h"
    and add: "VirtualMachine_addMemoryRegion K gpa n flags vm h = (res, vm', h')"
  shows "owns F h0 vm' h'"
proof -
  obtain cres h1 where cr: "MemoryRegion_create K (vm_fd vm) (vm_nextSlot vm) gpa n flags h = (cres, h1)" by fastforce
  note fds = region_create_runs_fds [OF laws cr]
  from region_create_split [OF resource_lawsD(4) [OF laws] cr] consider
    (bad) ec where "cres = Inl ec" "h_heap h1 = h_heap h" "h_runs h1 = h_runs h"
  | (good) r where "cres = Inr r" "region_live h1 r" "h_heap h (m_hostAddr r) = None" "h_runs h1 = h_runs h"
      "h_heap h1 = (h_heap h)(m_hostAddr r \<mapsto> replicate (unat n) 0)" by blast
  then show ?thesis
  proof cases
    case bad
    with add cr have "vm' = vm" "resources F h' = resources F h"
      using fds(1) by (auto simp: VirtualMachine_addMemoryRegion_def resources_def heap_shape_def)
    with owns_cong own show ?thesis by blast
  next
    case (good r)
    with add cr have vm': "vm' = vm\<lparr>vm_memoryRegions := vm_memoryRegions vm @ [r], vm_nextSlot := vm_nextSlot vm + 1\<rparr>"
      and h': "h' = h1" by (auto simp: VirtualMachine_addMemoryRegion_def)
    have shape: "heap_shape h1 = (heap_shape h)(m_hostAddr r \<mapsto> unat n)" by (simp add: heap_shape_def good(5) fun_eq_iff)
    have new: "heap_shape h (m_hostAddr r) = None" using good(3) by (simp add: heap_shape_None)
    have other: "m_hostAddr q \<noteq> m_hostAddr r" if "q \<in> set (vm_memoryRegions vm)" for q
      using own that new by (force simp: owns_def region_mapped_def)
    have "m_hostAddr r \<notin> dom (h_runs h)" using fds(2) [OF good(1)] by auto
    then have "m_hostAddr r \<notin> vm_pages vm" using own by (simp add: owns_def)
    moreover have "m_hostAddr r \<notin> vm_addrs vm" using other by (force simp: vm_addrs_def)
    moreover have "region_mapped (heap_shape h1) r" using good(2) by (simp add: region_live_shape)
    moreover have "region_mapped (heap_shape h1) q" if "q \<in> set (vm_memoryRegions vm)" for q
      using own that other [OF that] by (simp add: owns_def region_mapped_def shape)
    moreover have "heap_shape h1 |` (- insert (m_hostAddr r) (vm_addrs vm)) = heap_shape h0"
    proof -
      have "heap_shape h1 |` (- insert (m_hostAddr r) (vm_addrs vm)) = heap_shape h |` (- vm_addrs vm)"
        using new by (auto simp: shape restrict_map_def fun_eq_iff)
      with own show ?thesis by (simp add: owns_def)
    qed
    moreover have "vm_fds vm' = vm_fds vm" "vm_pages vm' = vm_pages vm" "vm_addrs vm' = insert (m_hostAddr r) (vm_addrs vm)"
      by (simp_all add: vm' vm_fds_def vm_pages_def vm_addrs_def)
    moreover have "\<forall>p \<in> vm_pages vm. heap_shape h1 p = None"
      using own \<open>m_hostAddr r \<notin> vm_pages vm\<close> by (auto simp: owns_def shape)
    ultimately show ?thesis
      using own fds(1) good(4) unfolding owns_def h' by (auto simp: vm' vm_addrs_def)
  qed
qed

lemma vcpu_added_owns:
  assumes laws: "resource_laws K F" and own: "owns F h0 vm h"
    and add: "VirtualMachine_addVCpu K i vm h = (res, vm', h')"
  shows "owns F h0 vm' h'"
proof -
  note l = resource_lawsD [OF laws]
  let ?q = "KVM_CREATE_VCPU (ucast i)" and ?n = "of_int (vm_vcpuMmapSize vm) :: u64"
  obtain fd h1 where io: "sys_ioctl K (vm_fd vm) ?q h = (fd, h1)" by fastforce
  obtain p h2 where mm: "sys_mmap_vcpu K fd ?n h1 = (p, h2)" by fastforce
  obtain rc h3 where cl: "sys_close K fd h2 = (rc, h3)" by fastforce
  have h1: "heap_shape h1 = heap_shape h" "h_runs h1 = h_runs h" using ioctlD [OF l(4) io] by (simp_all add: heap_shape_def)
  have h2: "heap_shape h2 = heap_shape h1" using mm l(5) unfolding mapping_law_def heap_shape_def by metis
  have h3: "heap_shape h3 = heap_shape h2" "h_runs h3 = h_runs h2" using closeD [OF l(4) cl] by (simp_all add: heap_shape_def)
  have F: "F h2 = F h1" "F h3 = F h2 - {fd}" using fd_mapD(1) [OF l(1) mm] fd_closeD [OF l(1) cl] by simp_all
  have F1: "fd < 0 \<Longrightarrow> F h1 = F h" "\<not> fd < 0 \<Longrightarrow> fd \<notin> F h \<and> F h1 = insert fd (F h)"
    using fd_ioctlD(3-5) [OF l(1) io] by (simp_all add: creates_fd_def)
  note page = page_lawD(1,2) [OF l(3) mm]
  consider (bad) "vm' = vm" "resources F h' = resources F h"
    | (good) "\<not> fd < 0" "p \<noteq> MAP_FAILED" "h' = h2"
      "vm' = vm\<lparr>vm_vcpus := vm_vcpus vm @ [\<lparr>v_fd = fd, v_id = i, v_runPage = p, v_mmapSize = ?n\<rparr>]\<rparr>"
    using add io mm cl h1 h2 h3 F F1 page
    by (cases "fd < 0"; cases "p = MAP_FAILED")
      (auto simp: VirtualMachine_addVCpu_def VCpu_create_def resources_def Let_def)
  then show ?thesis
  proof cases
    case bad
    with owns_cong own show ?thesis by blast
  next
    case good
    have "p \<notin> dom (h_runs h)" "dom (h_runs h2) = insert p (dom (h_runs h))" "heap_shape h p = None" "p \<noteq> 0"
      using page(2) good(2) h1 by (auto simp: heap_shape_None [symmetric])
    moreover have "dom (h_runs h) = dom (h_runs h0) \<union> vm_pages vm" using own by (simp add: owns_def)
    moreover have "vm_fds vm' = insert fd (vm_fds vm)" "vm_pages vm' = insert p (vm_pages vm)" "vm_addrs vm' = vm_addrs vm"
      by (simp_all add: good(4) vm_fds_def vm_pages_def vm_addrs_def insert_commute)
    ultimately show ?thesis
      using own F F1(2) good(1,2) h1 h2 unfolding owns_def good(3) by (simp add: good(4))
  qed
qed

lemma setup_resources:
  assumes "resource_laws K F" and "GuestLoader_setupRealModeVCpu K v ip h = (ec, h')"
  shows "resources F h' = resources F h"
proof -
  have set: "VCpu_setRegs K v r x = (c, x') \<Longrightarrow> resources F x' = resources F x"
    "VCpu_setSregs K v s x = (c, x') \<Longrightarrow> resources F x' = resources F x" for r s x c x'
    using ioctl_resources [OF assms(1)]
    by (auto simp: VCpu_setRegs_def VCpu_setSregs_def creates_fd_def split: prod.splits if_splits)
  have "VCpu_getSregs K v x = (c, x') \<Longrightarrow> resources F x' = resources F x" for x c x'
    using get_resources(2) [OF assms(1)] by (auto simp: VCpu_getSregs_def split: prod.splits if_splits)
  then show ?thesis
    using assms(2) set by (auto simp: GuestLoader_setupRealModeVCpu_def Let_def split: prod.splits sum.splits if_splits)
qed

lemma loaded_owns:
  assumes laws: "resource_laws K F" and own: "owns F h0 vm h"
    and l: "GuestLoader_loadBytes K vm code addr n h = Some (ec, vm', h')"
  shows "owns F h0 vm' h'"
proof -
  obtain res vm1 h1 where a: "VirtualMachine_addMemoryRegion K 0 n 0 vm h = (res, vm1, h1)" by (metis prod_cases3)
  note o1 = region_added_owns [OF laws own a]
  have written: "owns F h0 vm2 h3" if "MemoryRegion_write r addr code h1 = Some h2"
    "VirtualMachine_addVCpu K 0 vm1 h2 = (vres, vm2, h3)" for r h2 vres vm2 h3
    using that vcpu_added_owns [OF laws owns_cong [OF write_resources(1) [OF laws region_write_heap] o1]] by blast
  have set: "owns F h0 vm2 h4" if "GuestLoader_setupRealModeVCpu K v ip h3 = (c, h4)" "owns F h0 vm2 h3" for v ip h3 c h4 vm2
    using owns_cong [OF setup_resources [OF laws that(1)] that(2)] .
  show ?thesis
    using l o1
    by (auto simp: loadBytes_boot boot_def a Let_def split: sum.splits Option.bind_splits prod.splits if_splits
        dest: written set)
qed

section \<open>The whole program\<close>

text \<open>
  The library's part: a file that could not be opened takes nothing, and one that was opened is closed
  again after the text is written (the stream is destroyed there).
\<close>

definition stream_law :: "'k library \<Rightarrow> ('k host \<Rightarrow> int set) \<Rightarrow> bool" where
  "stream_law L F \<longleftrightarrow> (\<forall>path h ok h'. open_out L path h = (ok, h') \<longrightarrow>
     (if ok then \<forall>text. resources F (write_out L path text h') = resources F h else resources F h' = resources F h))"

lemma dump_resources:
  assumes "stream_law L F"
  shows "resources F (VmiAgent_dumpEventLog (open_out L) (write_out L) a path h) = resources F h"
proof -
  obtain ok h1 where o: "open_out L path h = (ok, h1)" by fastforce
  from assms [unfolded stream_law_def, rule_format, OF o] o show ?thesis
    by (simp add: VmiAgent_dumpEventLog_def split: if_splits)
qed

lemma system_open_resources:
  assumes "resource_laws K F" and "KvmSystem_open K path h = (res, h')"
  shows "h_heap h' = h_heap h" and "h_runs h' = h_runs h"
proof -
  note l = resource_lawsD [OF assms(1)]
  have "h_heap y = h_heap x \<and> h_runs y = h_runs x" if "sys_ioctl K fd q x = (rc, y)" "q \<noteq> KVM_RUN" for fd q x rc y
    using ioctlD [OF l(4) that] by simp
  moreover have "h_heap y = h_heap x \<and> h_runs y = h_runs x" if "sys_close K fd x = (rc, y)" for fd x rc y
    using closeD [OF l(4) that] by simp
  ultimately have "h_heap h' = h_heap h \<and> h_runs h' = h_runs h"
    using assms(2) page_lawD(6) [OF l(3)] by (fastforce simp: KvmSystem_open_def Let_def split: prod.splits if_splits)
  then show "h_heap h' = h_heap h" and "h_runs h' = h_runs h" by simp_all
qed

text \<open>Leaving \<^verbatim>\<open>main\<close> with a machine that owns what was added since the device was opened.\<close>

lemma exit_returns_all:
  assumes laws: "resource_laws K F" and op: "KvmSystem_open K path h = (Inr s, h0)" and own: "owns F h0 vm h1"
    and x: "main_exit K s vm code out h1 = Some (code', out', h')"
  shows "resources F h' = resources F h"
proof -
  note l = resource_lawsD [OF laws]
  let ?h2 = "VirtualMachine_release K vm h1"
  obtain rc h3 where cl: "sys_close K (s_fd s) ?h2 = (rc, h3)" by fastforce
  have fd: "s_fd s \<notin> F h" "F h0 = insert (s_fd s) (F h)" "0 \<le> s_fd s" using system_open_fds [OF l(1) op] by simp_all
  then have "h' = h3" using x cl by (simp add: main_exit_def KvmSystem_release_def)
  moreover have "resources F ?h2 = resources F h0" by (rule machine_returns_all [OF laws own])
  ultimately show ?thesis
    using fd fd_closeD [OF l(1) cl] closeD [OF l(4) cl] system_open_resources [OF laws op]
    by (simp add: resources_def heap_shape_def)
qed

lemma held_owns:
  assumes "resource_laws K F" and "same_resources K F e e'"
  shows "prints_only (e_app e) \<and> owns F h0 vm (e_host e) \<Longrightarrow> prints_only (e_app e') \<and> owns F h0 vm (e_host e')"
  using assms owns_cong by (auto simp: same_resources_def)

lemma finish_returns_all:
  fixes K :: "'k kernel"
  assumes laws: "resource_laws K F" "stream_law L F" and op: "KvmSystem_open K path h = (Inr s, h0)"
    and own: "owns F h0 vm (e_host e)" and f: "main_finish K L s vm t e = Some (code, out, h')"
  shows "resources F h' = resources F h"
proof -
  obtain a :: "('k, main_state) VmiAgent" and out' where "main_exit K s vm 0 out' (VmiAgent_dumpEventLog (open_out L) (write_out L) a ''vmi_events.json'' (e_host e)) =
      Some (code, out, h')"
    using f by (auto simp: main_finish_def Let_def split: Option.bind_splits)
  from exit_returns_all [OF laws(1) op owns_cong [OF dump_resources [OF laws(2)] own] this] show ?thesis .
qed

lemma guest_returns_all:
  assumes laws: "resource_laws K F" "stream_law L F" and op: "KvmSystem_open K path h = (Inr s, h0)"
    and own: "owns F h0 vm h1" and g: "main_guest K L s vm out h1 = Some (code, out', h')"
  shows "resources F h' = resources F h"
proof -
  obtain a d where l: "main_listeners K vm = (a, Some d)" by (simp add: main_listeners_eq)
  let ?w = "wired K vm out h1"
  have w: "?w = \<lparr>e_host = h1, e_app = \<lparr>aa_agent = a, aa_user = \<lparr>ms_mmio = MmioDeviceState0, ms_console = out\<rparr>\<rparr>\<rparr>"
    by (simp add: wired_def l)
  obtain v vs es d1 e1 where v: "vm_vcpus vm = v # vs" and b: "build_cpuid K cpuid_leaves [] d ?w = Some (es, d1, e1)"
    using g by (auto simp: main_guest_def l w split: list.splits Option.bind_splits)
  obtain ec h2 where ic: "VCpu_installCpuid K v es (e_host e1) = (ec, h2)" by fastforce
  from build_cpuid_held [OF b main_listeners_held [OF l]] have
    k1: "same_resources K F ?w e1" and d1: "listeners_keep (same_resources K F) d1" by blast+
  have "prints_only (e_app ?w)" by (simp add: prints_only_def wired_def main_listeners_eq)
  with held_owns [OF laws(1) k1] own have o1: "prints_only (e_app e1)" "owns F h0 vm (e_host e1)" by (simp_all add: wired_def)
  have "resources F h2 = resources F (e_host e1)"
    using ic ioctl_resources [OF laws(1)] by (auto simp: VCpu_installCpuid_def creates_fd_def Let_def split: prod.splits if_splits)
  from owns_cong [OF this o1(2)] have o2: "owns F h0 vm h2" .
  show ?thesis
  proof (cases "ec = ok_code")
    case False
    then obtain out2 where "main_exit K s vm 1 out2 h2 = Some (code, out', h')"
      using g v l b ic by (auto simp: main_guest_def w)
    from exit_returns_all [OF laws(1) op o2 this] show ?thesis .
  next
    case True
    then obtain snap h3 ok t' e' m1 m2 where sn: "VirtualMachine_takeSnapShot K vm h2 = Some (snap, h3)"
      and f: "fuzz_runs K (ec_message L) vm snap 3 0 (main_trapper K v d1) ((say m1 (say m2 e1))\<lparr>e_host := h3\<rparr>) = Some (ok, t', e')"
      and rest: "(if \<not> ok then main_exit K s vm 1 (printed e') (e_host e') else main_finish K L s vm t' e') = Some (code, out', h')"
      using g v l b ic
      by (auto simp: main_guest_def w main_trapper_def [symmetric] Let_def split: Option.bind_splits)
    let ?e = "e1\<lparr>e_host := h2\<rparr>"
    from held.take_snapshot [of K vm ?e snap h3 F] sn have "same_resources K F ?e (?e\<lparr>e_host := h3\<rparr>)" by simp
    with held_owns [OF laws(1) this, of h0 vm] o1(1) o2 have "owns F h0 vm h3" by simp
    with held_owns [OF laws(1) fuzz_runs_held [OF f main_trapper_held [OF d1]], of h0 vm] o1(1)
    have o3: "owns F h0 vm (e_host e')" by (simp add: prints_only_def)
    show ?thesis
    proof (cases ok)
      case True
      with rest finish_returns_all [OF laws op o3] show ?thesis by simp
    next
      case False
      with rest exit_returns_all [OF laws(1) op o3] show ?thesis by simp
    qed
  qed
qed

lemma main_returns_all:
  assumes laws: "resource_laws K F" "stream_law L F" and m: "main K L h = Some (code, out, h')"
  shows "resources F h' = resources F h"
proof -
  note l = resource_lawsD [OF laws(1)]
  obtain kr h0 where k: "KvmSystem_open K ''/dev/kvm'' h = (kr, h0)" by fastforce
  note same = system_open_resources [OF laws(1) k]
  show ?thesis
  proof (cases kr)
    case (Inl ec)
    with m k have "h' = h0" by (simp add: main_def)
    with system_open_fds [OF l(1) k] Inl same show ?thesis by (simp add: resources_def heap_shape_def)
  next
    case kvm: (Inr s)
    note op = k [unfolded kvm]
    obtain vr h2 where v: "KvmSystem_createVm K s h0 = (vr, h2)" by fastforce
    note new = new_machine_owns [OF laws(1) v]
    show ?thesis
    proof (cases vr)
      case (Inl ec)
      obtain rc h3 where cl: "sys_close K (s_fd s) h2 = (rc, h3)" by fastforce
      have fd: "s_fd s \<notin> F h" "F h0 = insert (s_fd s) (F h)" "0 \<le> s_fd s" using system_open_fds [OF l(1) op] by simp_all
      with m k kvm v Inl cl have "h' = h3" by (simp add: main_def KvmSystem_release_def)
      with fd new Inl fd_closeD [OF l(1) cl] closeD [OF l(4) cl] same show ?thesis
        by (simp add: resources_def heap_shape_def)
    next
      case vm: (Inr vm)
      obtain ext h3 where x: "KvmSystem_checkExtension K s KVM_CAP_EXIT_ON_EMULATION_FAILURE h2 = (ext, h3)" by fastforce
      obtain ec h4 where e: "(if ext then VirtualMachine_enableEmulationExits K vm h3 else (ok_code, h3)) = (ec, h4)" by fastforce
      have "resources F h3 = resources F h2" "resources F h4 = resources F h3"
        using x e ioctl_resources [OF laws(1)]
        by (auto simp: KvmSystem_checkExtension_def VirtualMachine_enableEmulationExits_def creates_fd_def Let_def
            split: prod.splits if_splits)
      then have own: "owns F h0 vm h4" using new vm owns_cong [of F h4 h2] by simp
      from m k kvm v vm x e consider out1 where "main_exit K s vm 1 out1 h4 = Some (code, out, h')"
        | out1 bytes where "main_load K L s vm out1 bytes h4 = Some (code, out, h')"
        by (auto simp: main_def Let_def split: if_splits)
      then show ?thesis
      proof cases
        case 1
        from exit_returns_all [OF laws(1) op own 1] show ?thesis .
      next
        case (2 out1 bytes)
        then obtain ec1 vm1 h5 where ld: "GuestLoader_loadBytes K vm bytes 0x1000 0x80000 h4 = Some (ec1, vm1, h5)"
          by (auto simp: main_load_def split: Option.bind_splits)
        note own1 = loaded_owns [OF laws(1) own ld]
        from 2 ld consider out2 where "main_exit K s vm1 1 out2 h5 = Some (code, out, h')"
          | out2 where "main_guest K L s vm1 out2 h5 = Some (code, out, h')"
          by (auto simp: main_load_def split: if_splits)
        then show ?thesis
          using exit_returns_all [OF laws(1) op own1] guest_returns_all [OF laws op own1] by cases
      qed
    qed
  qed
qed

section \<open>The concrete kernel\<close>

abbreviation sim_fd_table :: "sim host \<Rightarrow> int set" where
  "sim_fd_table \<equiv> \<lambda>h. set (sim_fds (h_kern h))"

lemma halt_ioctl_cases:
  assumes "halt_ioctl fd q h = (rc, h')"
  obtains "sim_ioctl fd q h = (rc, h')"
  | "q = KVM_RUN" "fd \<in> sim_fd_table h" "h_kern h' = h_kern h" "dom (h_runs h') = dom (h_runs h)"
  using assms by (cases "q = KVM_RUN \<and> fd \<in> sim_fd_table h") (auto simp: halt_ioctl_def dom_def)

lemma halt_same:
  "sys_open halt_kernel = sys_open sim_kernel" "sys_close halt_kernel = sys_close sim_kernel"
  "sys_mmap halt_kernel = sys_mmap sim_kernel" "sys_mmap_vcpu halt_kernel = sys_mmap_vcpu sim_kernel"
  "sys_munmap halt_kernel = sys_munmap sim_kernel" "sys_madvise halt_kernel = sys_madvise sim_kernel"
  "sys_get_regs halt_kernel = sys_get_regs sim_kernel" "sys_get_sregs halt_kernel = sys_get_sregs sim_kernel"
  "clock_now halt_kernel = clock_now sim_kernel"
  by (simp_all add: halt_kernel_def)

lemma halt_fd_law: "fd_law halt_kernel sim_fd_table"
proof -
  have "fd_ioctl_law halt_kernel sim_fd_table"
    unfolding fd_ioctl_law_def
  proof (intro allI impI)
    fix fd q h rc h' assume "sys_ioctl halt_kernel fd q h = (rc, h')"
    then have "halt_ioctl fd q h = (rc, h')" by (simp add: halt_kernel_def)
    then show "(fd \<notin> sim_fd_table h \<longrightarrow> rc < 0) \<and>
        (if creates_fd q \<and> 0 \<le> rc then rc \<notin> sim_fd_table h \<and> sim_fd_table h' = insert rc (sim_fd_table h)
         else sim_fd_table h' = sim_fd_table h)"
    proof (cases rule: halt_ioctl_cases)
      case 1
      have "fd_ioctl_law sim_kernel sim_fd_table" using sim_fd_law by (simp add: fd_law_def)
      from this [unfolded fd_ioctl_law_def sim_kernel_simps, rule_format, OF 1] show ?thesis .
    qed (simp add: creates_fd_def)
  qed
  moreover have "fd_open_law halt_kernel sim_fd_table \<and> fd_close_law halt_kernel sim_fd_table \<and> fd_map_law halt_kernel sim_fd_table"
    using sim_fd_law unfolding fd_law_def fd_open_law_def fd_close_law_def fd_map_law_def halt_same by (intro conjI; elim conjE) assumption+
  ultimately show ?thesis by (simp add: fd_law_def)
qed

lemma halt_page_law: "page_law halt_kernel"
proof -
  have "dom (h_runs h') = dom (h_runs h)" if "halt_ioctl fd KVM_RUN h = (rc, h')" for fd h rc h'
    using that page_lawD(4) [OF sim_page_law] by (cases rule: halt_ioctl_cases) auto
  then show ?thesis
    using sim_page_law unfolding page_law_def halt_same by (intro conjI; elim conjE) (assumption | simp add: halt_kernel_def)+
qed

lemma halt_resource_laws: "resource_laws halt_kernel sim_fd_table"
proof -
  have "fd_frame halt_kernel sim_fd_table"
    using sim_fd_frame unfolding fd_frame_def halt_same .
  then show ?thesis by (simp add: resource_laws_def halt_laws halt_fd_law halt_page_law)
qed

lemma demo_stream_law: "stream_law demo_library F"
  by (simp add: stream_law_def demo_library_def)

end
