(* ===== verification/Guest_Program.thy ===== *)
theory Guest_Program
  imports Kvm_Abi
begin

text \<open>
  The guest (guests/simpleGuest.asm) as the instructions of its lines, their machine code, and the part
  of the processor that executes them: 16-bit instructions in real mode over the register files of the
  KVM interface and a block of guest memory from address 0. An access outside this block leaves the
  guest as a memory-mapped access. Instructions and modes that the guest does not use are outside the
  model, which then says nothing (\<open>Stuck\<close>).
\<close>

section \<open>Instructions\<close>

datatype reg16 = AX | CX | DX | BX | SP | BP | SI | DI

datatype sreg = ES | CS | SS | DS | FS | GS

text \<open>
  The memory operands are \<^verbatim>\<open>[bx]\<close> and \<^verbatim>\<open>[bx + displacement]\<close>; loads and stores have 16 bits.
\<close>

datatype instr =
    Mov_imm reg16 u16
  | Mov_seg sreg reg16
  | Xor_reg reg16 reg16
  | Mov_load reg16 "u8 option"
  | Mov_store "u8 option" u16
  | Cli
  | Hlt

definition simpleGuest :: "instr list" where
  "simpleGuest =
     [Mov_imm AX 0x8000, Mov_seg DS AX, Xor_reg BX BX, Mov_load AX None,
      Mov_store (Some 0x08) 0x0042,
      Mov_load AX (Some 0x10),
      Cli, Hlt]"

section \<open>Machine code\<close>

text \<open>Numbers of the registers, in the order of the constructors.\<close>

definition reg_codes :: "(reg16 \<times> byte) list" where
  "reg_codes = [(AX, 0), (CX, 1), (DX, 2), (BX, 3), (SP, 4), (BP, 5), (SI, 6), (DI, 7)]"

definition sreg_codes :: "(sreg \<times> byte) list" where
  "sreg_codes = [(ES, 0), (CS, 1), (SS, 2), (DS, 3), (FS, 4), (GS, 5)]"

definition reg_code :: "reg16 \<Rightarrow> byte" where
  "reg_code r = the (map_of reg_codes r)"

definition sreg_code :: "sreg \<Rightarrow> byte" where
  "sreg_code s = the (map_of sreg_codes s)"

definition reg_of :: "byte \<Rightarrow> reg16 option" where
  "reg_of b = map_of (map (\<lambda>(r, c). (c, r)) reg_codes) b"

definition sreg_of :: "byte \<Rightarrow> sreg option" where
  "sreg_of b = map_of (map (\<lambda>(s, c). (c, s)) sreg_codes) b"

text \<open>The byte with addressing mode, register and operand; operand 7 is \<^verbatim>\<open>[bx]\<close>.\<close>

definition modrm :: "byte \<Rightarrow> byte \<Rightarrow> byte \<Rightarrow> byte" where
  "modrm md reg rm = md * 64 + reg * 8 + rm"

fun at_bx :: "byte \<Rightarrow> u8 option \<Rightarrow> byte list" where
  "at_bx reg None = [modrm 0 reg 7]"
| "at_bx reg (Some disp) = [modrm 1 reg 7, disp]"

fun encode :: "instr \<Rightarrow> byte list" where
  "encode (Mov_imm r w) = (0xB8 + reg_code r) # le_bytes 2 w"
| "encode (Mov_seg s r) = [0x8E, modrm 3 (sreg_code s) (reg_code r)]"
| "encode (Xor_reg d s) = [0x31, modrm 3 (reg_code s) (reg_code d)]"
| "encode (Mov_load r disp) = 0x8B # at_bx (reg_code r) disp"
| "encode (Mov_store disp w) = 0xC7 # at_bx 0 disp @ le_bytes 2 w"
| "encode Cli = [0xFA]"
| "encode Hlt = [0xF4]"

definition assemble :: "instr list \<Rightarrow> byte list" where
  "assemble is = concat (map encode is)"

text \<open>What the processor makes of the bytes at its instruction pointer: an instruction and what follows it.\<close>

fun decode_bx :: "byte list \<Rightarrow> (byte \<times> u8 option \<times> byte list) option" where
  "decode_bx [] = None"
| "decode_bx (m # bs) =
     (if m mod 8 \<noteq> 7 then None
      else if m div 64 = 0 then Some (m div 8, None, bs)
      else if m div 64 = 1 then (case bs of [] \<Rightarrow> None | d # bs' \<Rightarrow> Some (m div 8 mod 8, Some d, bs'))
      else None)"

fun decode :: "byte list \<Rightarrow> (instr \<times> byte list) option" where
  "decode [] = None"
| "decode (b # bs) =
     (if b = 0xFA then Some (Cli, bs)
      else if b = 0xF4 then Some (Hlt, bs)
      else if b div 8 = 0x17 then
        (case (reg_of (b mod 8), bs) of
           (Some r, x # y # rest) \<Rightarrow> Some (Mov_imm r (le_word [x, y]), rest)
         | _ \<Rightarrow> None)
      else if b = 0x8E then
        (case bs of
           m # rest \<Rightarrow> (case (m div 64 = 3, sreg_of (m div 8 mod 8), reg_of (m mod 8)) of
               (True, Some s, Some r) \<Rightarrow> Some (Mov_seg s r, rest) | _ \<Rightarrow> None)
         | [] \<Rightarrow> None)
      else if b = 0x31 then
        (case bs of
           m # rest \<Rightarrow> (case (m div 64 = 3, reg_of (m div 8 mod 8), reg_of (m mod 8)) of
               (True, Some s, Some d) \<Rightarrow> Some (Xor_reg d s, rest) | _ \<Rightarrow> None)
         | [] \<Rightarrow> None)
      else if b = 0x8B then
        (case decode_bx bs of
           Some (reg, disp, rest) \<Rightarrow> map_option (\<lambda>r. (Mov_load r disp, rest)) (reg_of reg)
         | None \<Rightarrow> None)
      else if b = 0xC7 then
        (case decode_bx bs of
           Some (reg, disp, x # y # rest) \<Rightarrow> if reg = 0 then Some (Mov_store disp (le_word [x, y]), rest) else None
         | _ \<Rightarrow> None)
      else None)"

lemma reg_of_code [simp]: "reg_of (reg_code r) = Some r"
  by (cases r) (simp_all add: reg_of_def reg_code_def reg_codes_def)

lemma decode_at_bx: "decode_bx (at_bx (reg_code r) disp @ rest) = Some (reg_code r, disp, rest)"
  "decode_bx (at_bx 0 disp @ rest) = Some (0, disp, rest)"
  by (cases disp; cases r; simp add: modrm_def reg_code_def reg_codes_def; fail)
    (cases disp; simp add: modrm_def)

lemma le_bytes2: "le_bytes 2 w = [ucast w, ucast (drop_bit 8 w)]"
  by (simp add: numeral_2_eq_2)

lemma le_word2 [simp]: "le_word [ucast w, ucast (drop_bit 8 w)] = (w :: u16)"
  using le_word_bytes [of 2 w] by (simp add: le_bytes2 take_bit_word_eq_self)

text \<open>Decoding the machine code of an instruction gives the instruction and the bytes after it.\<close>

lemma decode_encode: "decode (encode i @ rest) = Some (i, rest)"
proof (cases i)
  case (Mov_imm r w)
  then show ?thesis
    by (cases r) (simp_all add: le_bytes2 reg_code_def reg_codes_def reg_of_def del: le_word.simps)
next
  case (Mov_seg s r)
  then show ?thesis
    by (cases s; cases r) (simp_all add: modrm_def reg_code_def reg_codes_def reg_of_def sreg_code_def sreg_codes_def sreg_of_def)
next
  case (Xor_reg d s)
  then show ?thesis
    by (cases s; cases d) (simp_all add: modrm_def reg_code_def reg_codes_def reg_of_def)
next
  case (Mov_load r disp)
  then show ?thesis by (simp add: decode_at_bx)
next
  case (Mov_store disp w)
  then show ?thesis by (simp add: decode_at_bx le_bytes2 del: le_word.simps)
qed simp_all

section \<open>The processor\<close>

fun get16 :: "reg16 \<Rightarrow> kvm_regs \<Rightarrow> u16" where
  "get16 AX g = ucast (rax g)"
| "get16 CX g = ucast (rcx g)"
| "get16 DX g = ucast (rdx g)"
| "get16 BX g = ucast (rbx g)"
| "get16 SP g = ucast (rsp g)"
| "get16 BP g = ucast (rbp g)"
| "get16 SI g = ucast (rsi g)"
| "get16 DI g = ucast (rdi g)"

text \<open>Writing a 16-bit register keeps the upper 48 bits.\<close>

definition low16 :: "u16 \<Rightarrow> u64 \<Rightarrow> u64" where
  "low16 w old = push_bit 16 (drop_bit 16 old) OR ucast w"

fun set16 :: "reg16 \<Rightarrow> u16 \<Rightarrow> kvm_regs \<Rightarrow> kvm_regs" where
  "set16 AX w g = g\<lparr>rax := low16 w (rax g)\<rparr>"
| "set16 CX w g = g\<lparr>rcx := low16 w (rcx g)\<rparr>"
| "set16 DX w g = g\<lparr>rdx := low16 w (rdx g)\<rparr>"
| "set16 BX w g = g\<lparr>rbx := low16 w (rbx g)\<rparr>"
| "set16 SP w g = g\<lparr>rsp := low16 w (rsp g)\<rparr>"
| "set16 BP w g = g\<lparr>rbp := low16 w (rbp g)\<rparr>"
| "set16 SI w g = g\<lparr>rsi := low16 w (rsi g)\<rparr>"
| "set16 DI w g = g\<lparr>rdi := low16 w (rdi g)\<rparr>"

text \<open>A segment register loaded in real mode: the base is sixteen times the selector. Loading CS this way is invalid.\<close>

definition real_seg :: "u16 \<Rightarrow> kvm_segment \<Rightarrow> kvm_segment" where
  "real_seg w s = s\<lparr>seg_selector := w, seg_base := ucast w * 16\<rparr>"

fun load_seg :: "sreg \<Rightarrow> u16 \<Rightarrow> kvm_sregs \<Rightarrow> kvm_sregs option" where
  "load_seg ES w s = Some (s\<lparr>sr_es := real_seg w (sr_es s)\<rparr>)"
| "load_seg CS w s = None"
| "load_seg SS w s = Some (s\<lparr>sr_ss := real_seg w (sr_ss s)\<rparr>)"
| "load_seg DS w s = Some (s\<lparr>sr_ds := real_seg w (sr_ds s)\<rparr>)"
| "load_seg FS w s = Some (s\<lparr>sr_fs := real_seg w (sr_fs s)\<rparr>)"
| "load_seg GS w s = Some (s\<lparr>sr_gs := real_seg w (sr_gs s)\<rparr>)"

text \<open>
  The flags after a 16-bit logical operation: carry (bit 0) and overflow (11) cleared, parity (2, of the low byte),
  zero (6) and sign (7) from the result. The auxiliary carry (4) is undefined: \<open>af\<close> is what the processor
  leaves there.
\<close>

definition set_flag :: "nat \<Rightarrow> bool \<Rightarrow> u64 \<Rightarrow> u64" where
  "set_flag i b f = (if b then f OR push_bit i 1 else f AND NOT (push_bit i 1))"

definition logic_flags :: "bool \<Rightarrow> u16 \<Rightarrow> u64 \<Rightarrow> u64" where
  "logic_flags af w f =
     set_flag 0 False (set_flag 11 False (set_flag 2 (even (length (filter (bit w) [0..<8])))
       (set_flag 6 (w = 0) (set_flag 7 (bit w 15) (set_flag 4 af f)))))"

text \<open>
  A processor: its register files, and the register that waits for the data of a memory-mapped read. The
  instruction pointer is then already behind the reading instruction.
\<close>

record cpu =
  c_regs :: kvm_regs
  c_sregs :: kvm_sregs
  c_pending :: "reg16 option"

datatype guest_exit = GX_Halt | GX_Read u64 | GX_Write u64 u16

datatype cpu_result = Next cpu "byte list" | Leave guest_exit cpu "byte list" | Stuck

text \<open>Where a 16-bit access at an offset of a segment goes: into the memory block, outside, or nowhere.\<close>

datatype place = In_ram nat | Outside u64 | Invalid

definition locate :: "kvm_segment \<Rightarrow> u16 \<Rightarrow> byte list \<Rightarrow> place" where
  "locate seg off ram =
     (let addr = seg_base seg + ucast off in
      if unat off + 2 > unat (seg_limit seg) + 1 then Invalid
      else if unat addr + 2 \<le> length ram then In_ram (unat addr)
      else if length ram \<le> unat addr then Outside addr
      else Invalid)"

definition bx_offset :: "u8 option \<Rightarrow> kvm_regs \<Rightarrow> u16" where
  "bx_offset disp g = get16 BX g + (case disp of None \<Rightarrow> 0 | Some d \<Rightarrow> scast d)"

text \<open>An instruction with the instruction pointer already behind it.\<close>

definition execute :: "bool \<Rightarrow> instr \<Rightarrow> cpu \<Rightarrow> byte list \<Rightarrow> cpu_result" where
  "execute af i c ram =
     (let g = c_regs c; s = c_sregs c in
      case i of
        Mov_imm r w \<Rightarrow> Next (c\<lparr>c_regs := set16 r w g\<rparr>) ram
      | Mov_seg sr r \<Rightarrow> (case load_seg sr (get16 r g) s of None \<Rightarrow> Stuck | Some s' \<Rightarrow> Next (c\<lparr>c_sregs := s'\<rparr>) ram)
      | Xor_reg d r \<Rightarrow>
          let w = get16 d g XOR get16 r g
          in Next (c\<lparr>c_regs := (set16 d w g)\<lparr>rflags := logic_flags af w (rflags g)\<rparr>\<rparr>) ram
      | Mov_load r disp \<Rightarrow>
          (case locate (sr_ds s) (bx_offset disp g) ram of
             In_ram a \<Rightarrow> Next (c\<lparr>c_regs := set16 r (le_word (take 2 (drop a ram))) g\<rparr>) ram
           | Outside addr \<Rightarrow> Leave (GX_Read addr) (c\<lparr>c_pending := Some r\<rparr>) ram
           | Invalid \<Rightarrow> Stuck)
      | Mov_store disp w \<Rightarrow>
          (case locate (sr_ds s) (bx_offset disp g) ram of
             In_ram a \<Rightarrow> Next c (take a ram @ le_bytes 2 w @ drop (a + 2) ram)
           | Outside addr \<Rightarrow> Leave (GX_Write addr w) c ram
           | Invalid \<Rightarrow> Stuck)
      | Cli \<Rightarrow> Next (c\<lparr>c_regs := g\<lparr>rflags := set_flag 9 False (rflags g)\<rparr>\<rparr>) ram
      | Hlt \<Rightarrow> Leave GX_Halt c ram)"

text \<open>
  One instruction: fetched from the code segment, in real mode, not across the end of the segment.
\<close>

definition cpu_step :: "bool \<Rightarrow> cpu \<Rightarrow> byte list \<Rightarrow> cpu_result" where
  "cpu_step af c ram =
     (let ip = (ucast (rip (c_regs c)) :: u16);
          code = drop (unat (seg_base (sr_cs (c_sregs c)) + ucast ip)) ram in
      if bit (sr_cr0 (c_sregs c)) 0 \<or> c_pending c \<noteq> None then Stuck
      else case decode code of
        None \<Rightarrow> Stuck
      | Some (i, rest) \<Rightarrow>
          if unat ip + (length code - length rest) > unat (seg_limit (sr_cs (c_sregs c))) + 1 then Stuck
          else execute af i
            (c\<lparr>c_regs := (c_regs c)\<lparr>rip := ucast (ip + of_nat (length code - length rest))\<rparr>\<rparr>) ram)"

text \<open>Running until the guest has to be left; \<^const>\<open>None\<close> is a guest that never is, or leaves the model.\<close>

partial_function (option) run_cpu :: "(cpu \<Rightarrow> bool) \<Rightarrow> cpu \<Rightarrow> byte list \<Rightarrow> (guest_exit \<times> cpu \<times> byte list) option" where
  "run_cpu af c ram =
     (case cpu_step (af c) c ram of
        Next c' ram' \<Rightarrow> run_cpu af c' ram'
      | Leave ex c' ram' \<Rightarrow> Some (ex, c', ram')
      | Stuck \<Rightarrow> None)"

text \<open>Entering the guest again completes a read with the data that was left for it.\<close>

definition complete_read :: "byte list \<Rightarrow> cpu \<Rightarrow> cpu" where
  "complete_read data c =
     (case c_pending c of
        None \<Rightarrow> c
      | Some r \<Rightarrow> c\<lparr>c_regs := set16 r (le_word (take 2 data)) (c_regs c), c_pending := None\<rparr>)"

section \<open>The guest's run\<close>

lemma assemble_simpleGuest:
  "assemble simpleGuest =
     [0xB8, 0x00, 0x80, 0x8E, 0xD8, 0x31, 0xDB, 0x8B, 0x07, 0xC7, 0x47, 0x08, 0x42, 0x00, 0x8B, 0x47, 0x10, 0xFA, 0xF4]"
  by (simp add: assemble_def simpleGuest_def le_bytes2 modrm_def reg_code_def reg_codes_def sreg_code_def sreg_codes_def)

text \<open>Memory with the guest at the address that the assembler is told.\<close>

definition holds_guest :: "byte list \<Rightarrow> bool" where
  "holds_guest ram \<longleftrightarrow> length ram = 0x80000 \<and> take (length (assemble simpleGuest)) (drop 0x1000 ram) = assemble simpleGuest"

lemma assemble_append [simp]: "assemble (is @ js) = assemble is @ assemble js"
  by (simp add: assemble_def)

lemma fetch:
  assumes "holds_guest ram" and "simpleGuest = pre @ i # post"
  shows "decode (drop (0x1000 + length (assemble pre)) ram) = Some (i, drop (0x1000 + length (assemble pre) + length (encode i)) ram)"
    and "length (drop (0x1000 + length (assemble pre)) ram) - length (drop (0x1000 + length (assemble pre) + length (encode i)) ram) =
      length (encode i)"
proof -
  have g: "assemble simpleGuest = assemble pre @ encode i @ assemble post" by (simp add: assms(2)) (simp add: assemble_def)
  define rest where "rest = drop (length (assemble simpleGuest)) (drop 0x1000 ram)"
  have r: "drop 0x1000 ram = assemble pre @ encode i @ assemble post @ rest"
    using assms(1) g append_take_drop_id [of "length (assemble simpleGuest)" "drop 0x1000 ram"]
    by (simp only: holds_guest_def rest_def append_assoc)
  have a: "drop (0x1000 + n) ram = drop n (drop 0x1000 ram)" for n by (simp add: add.commute)
  have "drop (0x1000 + length (assemble pre)) ram = encode i @ assemble post @ rest" unfolding a r by simp
  moreover have "drop (0x1000 + length (assemble pre) + length (encode i)) ram = assemble post @ rest"
    unfolding add.assoc a r by simp
  ultimately show "decode (drop (0x1000 + length (assemble pre)) ram) = Some (i, drop (0x1000 + length (assemble pre) + length (encode i)) ram)"
    and "length (drop (0x1000 + length (assemble pre)) ram) - length (drop (0x1000 + length (assemble pre) + length (encode i)) ram) =
      length (encode i)" by (simp_all add: decode_encode)
qed

lemma unat_widen: "unat (ucast (w :: u16) :: u64) = unat w"
  using unsigned_less [of w, where ?'a = nat] by (simp add: unsigned_ucast_eq take_bit_nat_eq_self)

text \<open>A processor that can fetch the guest's instructions.\<close>

definition fetching :: "cpu \<Rightarrow> bool" where
  "fetching c \<longleftrightarrow> \<not> bit (sr_cr0 (c_sregs c)) 0 \<and> c_pending c = None \<and> seg_base (sr_cs (c_sregs c)) = 0 \<and>
     seg_limit (sr_cs (c_sregs c)) = 0xFFFF"

lemma guest_step:
  assumes ram: "holds_guest ram" and at: "simpleGuest = pre @ i # post" and c: "fetching c" "rip (c_regs c) = of_nat ip"
    and ip: "ip = 0x1000 + length (assemble pre)" "ip' = ip + length (encode i)" "ip' < 0x2000"
  shows "cpu_step af c ram = execute af i (c\<lparr>c_regs := (c_regs c)\<lparr>rip := of_nat ip'\<rparr>\<rparr>) ram"
proof -
  let ?ip = "ucast (rip (c_regs c)) :: u16" and ?n = "length (encode i)"
  have u: "unat (ucast (of_nat n :: u64) :: u16) = n" if "n < 0x2000" for n
    using that by (simp add: unsigned_ucast_eq unsigned_of_nat take_bit_nat_eq_self)
  have "ip < 0x2000" using ip(2,3) by linarith
  then have at2: "unat ?ip = ip" unfolding c(2) by (rule u)
  then have at_ip: "unat (seg_base (sr_cs (c_sregs c)) + ucast ?ip) = ip"
    using c(1) by (simp add: fetching_def unat_widen)
  have after: "(ucast (?ip + of_nat ?n) :: u64) = of_nat ip'"
  proof -
    have "unat (?ip + of_nat ?n) = ip'"
      using at2 ip by (simp add: unat_word_ariths unat_of_nat)
    with ip(3) show ?thesis by (simp add: word_unat_eq_iff unat_widen unat_of_nat_id)
  qed
  have "decode (drop ip ram) = Some (i, drop (ip + ?n) ram)" "length (drop ip ram) - length (drop (ip + ?n) ram) = ?n"
    using fetch [OF ram at] by (simp_all only: ip(1))
  moreover have "\<not> unat ?ip + ?n > unat (0xFFFF :: u32) + 1" using at2 ip by simp
  ultimately show ?thesis
    using c(1) at_ip after unfolding cpu_step_def Let_def at_ip by (simp add: fetching_def)
qed

lemmas code_lengths = assemble_def simpleGuest_def le_bytes2

lemma guest_step_nth:
  assumes "holds_guest ram" and "fetching c" and k: "k < length simpleGuest"
    and "rip (c_regs c) = of_nat (0x1000 + length (assemble (take k simpleGuest)))"
  shows "cpu_step af c ram = execute af (simpleGuest ! k)
    (c\<lparr>c_regs := (c_regs c)\<lparr>rip := of_nat (0x1000 + length (assemble (take k simpleGuest)) + length (encode (simpleGuest ! k)))\<rparr>\<rparr>) ram"
proof (rule guest_step [OF assms(1) id_take_nth_drop [OF k] assms(2,4) refl refl])
  have "length (assemble simpleGuest) = length (assemble (take k simpleGuest)) + length (encode (simpleGuest ! k)) +
      length (assemble (drop (Suc k) simpleGuest))"
    by (subst id_take_nth_drop [OF k]) (simp add: assemble_def)
  then show "0x1000 + length (assemble (take k simpleGuest)) + length (encode (simpleGuest ! k)) < 0x2000"
    by (simp add: assemble_simpleGuest)
qed

lemma guest_steps:
  assumes "holds_guest ram" and "fetching c"
  shows "rip (c_regs c) = 0x1000 \<Longrightarrow> cpu_step af c ram = execute af (Mov_imm AX 0x8000) (c\<lparr>c_regs := (c_regs c)\<lparr>rip := 0x1003\<rparr>\<rparr>) ram"
    and "rip (c_regs c) = 0x1003 \<Longrightarrow> cpu_step af c ram = execute af (Mov_seg DS AX) (c\<lparr>c_regs := (c_regs c)\<lparr>rip := 0x1005\<rparr>\<rparr>) ram"
    and "rip (c_regs c) = 0x1005 \<Longrightarrow> cpu_step af c ram = execute af (Xor_reg BX BX) (c\<lparr>c_regs := (c_regs c)\<lparr>rip := 0x1007\<rparr>\<rparr>) ram"
    and "rip (c_regs c) = 0x1007 \<Longrightarrow> cpu_step af c ram = execute af (Mov_load AX None) (c\<lparr>c_regs := (c_regs c)\<lparr>rip := 0x1009\<rparr>\<rparr>) ram"
    and "rip (c_regs c) = 0x1009 \<Longrightarrow> cpu_step af c ram = execute af (Mov_store (Some 8) 0x42) (c\<lparr>c_regs := (c_regs c)\<lparr>rip := 0x100E\<rparr>\<rparr>) ram"
    and "rip (c_regs c) = 0x100E \<Longrightarrow> cpu_step af c ram = execute af (Mov_load AX (Some 0x10)) (c\<lparr>c_regs := (c_regs c)\<lparr>rip := 0x1011\<rparr>\<rparr>) ram"
    and "rip (c_regs c) = 0x1011 \<Longrightarrow> cpu_step af c ram = execute af (Cli) (c\<lparr>c_regs := (c_regs c)\<lparr>rip := 0x1012\<rparr>\<rparr>) ram"
    and "rip (c_regs c) = 0x1012 \<Longrightarrow> cpu_step af c ram = execute af (Hlt) (c\<lparr>c_regs := (c_regs c)\<lparr>rip := 0x1013\<rparr>\<rparr>) ram"
proof -
  show "rip (c_regs c) = 0x1000 \<Longrightarrow> cpu_step af c ram = execute af (Mov_imm AX 0x8000) (c\<lparr>c_regs := (c_regs c)\<lparr>rip := 0x1003\<rparr>\<rparr>) ram"
    using guest_step_nth [OF assms, of 0] by (simp add: code_lengths)
  show "rip (c_regs c) = 0x1003 \<Longrightarrow> cpu_step af c ram = execute af (Mov_seg DS AX) (c\<lparr>c_regs := (c_regs c)\<lparr>rip := 0x1005\<rparr>\<rparr>) ram"
    using guest_step_nth [OF assms, of 1] by (simp add: code_lengths)
  show "rip (c_regs c) = 0x1005 \<Longrightarrow> cpu_step af c ram = execute af (Xor_reg BX BX) (c\<lparr>c_regs := (c_regs c)\<lparr>rip := 0x1007\<rparr>\<rparr>) ram"
    using guest_step_nth [OF assms, of 2] by (simp add: code_lengths)
  show "rip (c_regs c) = 0x1007 \<Longrightarrow> cpu_step af c ram = execute af (Mov_load AX None) (c\<lparr>c_regs := (c_regs c)\<lparr>rip := 0x1009\<rparr>\<rparr>) ram"
    using guest_step_nth [OF assms, of 3] by (simp add: code_lengths)
  show "rip (c_regs c) = 0x1009 \<Longrightarrow> cpu_step af c ram = execute af (Mov_store (Some 8) 0x42) (c\<lparr>c_regs := (c_regs c)\<lparr>rip := 0x100E\<rparr>\<rparr>) ram"
    using guest_step_nth [OF assms, of 4] by (simp add: code_lengths)
  show "rip (c_regs c) = 0x100E \<Longrightarrow> cpu_step af c ram = execute af (Mov_load AX (Some 0x10)) (c\<lparr>c_regs := (c_regs c)\<lparr>rip := 0x1011\<rparr>\<rparr>) ram"
    using guest_step_nth [OF assms, of 5] by (simp add: code_lengths)
  show "rip (c_regs c) = 0x1011 \<Longrightarrow> cpu_step af c ram = execute af (Cli) (c\<lparr>c_regs := (c_regs c)\<lparr>rip := 0x1012\<rparr>\<rparr>) ram"
    using guest_step_nth [OF assms, of 6] by (simp add: code_lengths)
  show "rip (c_regs c) = 0x1012 \<Longrightarrow> cpu_step af c ram = execute af (Hlt) (c\<lparr>c_regs := (c_regs c)\<lparr>rip := 0x1013\<rparr>\<rparr>) ram"
    using guest_step_nth [OF assms, of 7] by (simp add: code_lengths)
qed

text \<open>The guest between its first and last access to the device: \<^verbatim>\<open>DS:BX\<close> is the device's base.\<close>

definition on_device :: "u64 \<Rightarrow> cpu \<Rightarrow> bool" where
  "on_device ip c \<longleftrightarrow> fetching (c\<lparr>c_pending := None\<rparr>) \<and> rip (c_regs c) = ip \<and> get16 BX (c_regs c) = 0 \<and>
     seg_base (sr_ds (c_sregs c)) = 0x80000 \<and> seg_limit (sr_ds (c_sregs c)) = 0xFFFF"

lemma get_set16: "get16 r (set16 r w g) = w"
proof -
  have "(ucast (low16 w old) :: u16) = w" for old
    by (rule bit_word_eqI) (simp add: low16_def bit_ucast_iff bit_or_iff bit_push_bit_iff)
  then show ?thesis by (cases r) simp_all
qed

lemma set16_frame [simp]:
  "rip (set16 r w g) = rip g" "get16 BX (set16 AX w g) = get16 BX g"
  by (cases r; simp) simp

lemma run_next: "cpu_step (af c) c ram = Next c' ram' \<Longrightarrow> run_cpu af c ram = run_cpu af c' ram'"
  by (subst run_cpu.simps) simp

lemma run_leave: "cpu_step (af c) c ram = Leave ex c' ram' \<Longrightarrow> run_cpu af c ram = Some (ex, c', ram')"
  by (subst run_cpu.simps) simp

text \<open>Where the guest's accesses go.\<close>

lemma locate_device:
  assumes "length ram = 0x80000" "seg_base seg = 0x80000" "seg_limit seg = 0xFFFF"
  shows "locate seg 0 ram = Outside 0x80000" "locate seg 8 ram = Outside 0x80008" "locate seg 0x10 ram = Outside 0x80010"
  using assms by (simp_all add: locate_def)

lemma run_first:
  assumes ram: "holds_guest ram" and c: "fetching c" "rip (c_regs c) = 0x1000" "seg_limit (sr_ds (c_sregs c)) = 0xFFFF"
  shows "\<exists>c'. run_cpu af c ram = Some (GX_Read 0x80000, c', ram) \<and> c_pending c' = Some AX \<and> on_device 0x1009 c'"
proof -
  have len: "length ram = 0x80000" using ram by (simp add: holds_guest_def)
  let ?c1 = "c\<lparr>c_regs := set16 AX 0x8000 ((c_regs c)\<lparr>rip := 0x1003\<rparr>)\<rparr>"
  let ?c2 = "?c1\<lparr>c_regs := (c_regs ?c1)\<lparr>rip := 0x1005\<rparr>, c_sregs := (c_sregs c)\<lparr>sr_ds := real_seg 0x8000 (sr_ds (c_sregs c))\<rparr>\<rparr>"
  let ?g = "(c_regs ?c2)\<lparr>rip := 0x1007\<rparr>"
  let ?c3 = "?c2\<lparr>c_regs := (set16 BX 0 ?g)\<lparr>rflags := logic_flags (af ?c2) 0 (rflags ?g)\<rparr>\<rparr>"
  let ?c4 = "?c3\<lparr>c_regs := (c_regs ?c3)\<lparr>rip := 0x1009\<rparr>, c_pending := Some AX\<rparr>"
  have f: "fetching ?c1" "fetching ?c2" "fetching ?c3" using c(1) by (simp_all add: fetching_def)
  have seg: "seg_base (real_seg 0x8000 d) = 0x80000" "seg_limit (real_seg w d) = seg_limit d" for w d
    by (simp_all add: real_seg_def)
  have "run_cpu af c ram = run_cpu af ?c1 ram"
    by (rule run_next, unfold guest_steps(1) [OF ram c(1,2)]) (simp add: execute_def)
  also have "\<dots> = run_cpu af ?c2 ram"
    by (rule run_next, subst guest_steps(2) [OF ram f(1)]) (simp_all add: execute_def Let_def get_set16 [of AX, simplified])
  also have "\<dots> = run_cpu af ?c3 ram"
    by (rule run_next, subst guest_steps(3) [OF ram f(2)]) (simp_all add: execute_def Let_def)
  also have "\<dots> = Some (GX_Read 0x80000, ?c4, ram)"
    using locate_device(1) [OF len, of "real_seg 0x8000 (sr_ds (c_sregs c))"] seg c(3)
    by (intro run_leave, subst guest_steps(4) [OF ram f(3)])
      (simp_all add: execute_def Let_def bx_offset_def get_set16 [of BX, simplified])
  finally have "run_cpu af c ram = Some (GX_Read 0x80000, ?c4, ram)" .
  moreover have "on_device 0x1009 ?c4"
    using c f seg by (simp add: on_device_def fetching_def get_set16 [of BX, simplified])
  ultimately show ?thesis by (intro exI [of _ ?c4]) simp
qed

lemma completed:
  assumes "c_pending c = Some AX" and "on_device ip c"
  shows "c_pending (complete_read data c) = None" "on_device ip (complete_read data c)"
    "get16 AX (c_regs (complete_read data c)) = le_word (take 2 data)"
  using assms by (simp_all add: complete_read_def on_device_def fetching_def get_set16 [of AX, simplified])

lemma run_write:
  assumes ram: "holds_guest ram" and c: "c_pending c = None" "on_device 0x1009 c"
  shows "\<exists>c'. run_cpu af c ram = Some (GX_Write 0x80008 0x42, c', ram) \<and> c_pending c' = None \<and> on_device 0x100E c'"
proof -
  have len: "length ram = 0x80000" using ram by (simp add: holds_guest_def)
  let ?c1 = "c\<lparr>c_regs := (c_regs c)\<lparr>rip := 0x100E\<rparr>\<rparr>"
  have f: "fetching c" "rip (c_regs c) = 0x1009" using c by (simp_all add: on_device_def fetching_def)
  have "cpu_step (af c) c ram = Leave (GX_Write 0x80008 0x42) ?c1 ram"
    unfolding guest_steps(5) [OF ram f] using c locate_device(2) [OF len, of "sr_ds (c_sregs c)"]
    by (simp add: execute_def bx_offset_def on_device_def)
  moreover have "on_device 0x100E ?c1" using c(2) by (simp add: on_device_def fetching_def)
  ultimately show ?thesis using c(1) by (subst run_cpu.simps) (intro exI [of _ ?c1], simp)
qed

lemma run_second:
  assumes ram: "holds_guest ram" and c: "c_pending c = None" "on_device 0x100E c"
  shows "\<exists>c'. run_cpu af c ram = Some (GX_Read 0x80010, c', ram) \<and> c_pending c' = Some AX \<and> on_device 0x1011 c'"
proof -
  have len: "length ram = 0x80000" using ram by (simp add: holds_guest_def)
  let ?c1 = "c\<lparr>c_regs := (c_regs c)\<lparr>rip := 0x1011\<rparr>, c_pending := Some AX\<rparr>"
  have f: "fetching c" "rip (c_regs c) = 0x100E" using c by (simp_all add: on_device_def fetching_def)
  have "cpu_step (af c) c ram = Leave (GX_Read 0x80010) ?c1 ram"
    unfolding guest_steps(6) [OF ram f] using c locate_device(3) [OF len, of "sr_ds (c_sregs c)"]
    by (simp add: execute_def bx_offset_def on_device_def)
  moreover have "on_device 0x1011 ?c1" using c(2) by (simp add: on_device_def fetching_def)
  ultimately show ?thesis by (subst run_cpu.simps) (intro exI [of _ ?c1], simp)
qed

lemma run_last:
  assumes ram: "holds_guest ram" and c: "c_pending c = None" "on_device 0x1011 c"
  shows "\<exists>c'. run_cpu af c ram = Some (GX_Halt, c', ram) \<and> c_pending c' = None \<and> on_device 0x1013 c' \<and>
    get16 AX (c_regs c') = get16 AX (c_regs c)"
proof -
  let ?g = "(c_regs c)\<lparr>rip := 0x1012\<rparr>"
  let ?c1 = "c\<lparr>c_regs := ?g\<lparr>rflags := set_flag 9 False (rflags ?g)\<rparr>\<rparr>"
  let ?c2 = "?c1\<lparr>c_regs := (c_regs ?c1)\<lparr>rip := 0x1013\<rparr>\<rparr>"
  have f: "fetching c" "rip (c_regs c) = 0x1011" using c by (simp_all add: on_device_def fetching_def)
  have f1: "fetching ?c1" "rip (c_regs ?c1) = 0x1012" using f(1) by (simp_all add: fetching_def)
  have "run_cpu af c ram = run_cpu af ?c1 ram"
    by (rule run_next, unfold guest_steps(7) [OF ram f]) (simp add: execute_def)
  also have "\<dots> = Some (GX_Halt, ?c2, ram)"
    by (rule run_leave, unfold guest_steps(8) [OF ram f1]) (simp add: execute_def)
  finally have "run_cpu af c ram = Some (GX_Halt, ?c2, ram)" .
  moreover have "on_device 0x1013 ?c2" using c(2) by (simp add: on_device_def fetching_def)
  ultimately show ?thesis using c(1) by (intro exI [of _ ?c2]) simp
qed

end
