(* ===== verification/Guest_Session.thy ===== *)
theory Guest_Session
  imports Hv_Leak Guest_Program
begin

text \<open>
  The program and its guest together: KVM, as far as the program uses it, executes the guest of theory
  \<open>Guest_Program\<close>. The laws here say what KVM's documentation promises of memory slots, vCPUs and
  \<^verbatim>\<open>KVM_RUN\<close>, with the processor of that theory; from them follows everything that a session of the
  program with this guest does.
\<close>

section \<open>What KVM knows of a machine\<close>

text \<open>
  Its memory slots (guest address, size, host address), the machine and the \<^verbatim>\<open>kvm_run\<close> page of each
  vCPU, and the vCPU's processor.
\<close>

record kvm_view =
  kv_slots :: "int \<Rightarrow> (u64 \<times> u64 \<times> u64) list"
  kv_vm :: "int \<Rightarrow> int option"
  kv_page :: "int \<Rightarrow> u64 option"
  kv_cpu :: "int \<Rightarrow> cpu"

abbreviation set_cpu :: "int \<Rightarrow> cpu \<Rightarrow> kvm_view \<Rightarrow> kvm_view" where
  "set_cpu fd c w \<equiv> w\<lparr>kv_cpu := (kv_cpu w)(fd := c)\<rparr>"

text \<open>Calls that change none of it.\<close>

fun view_quiet :: "kvm_request \<Rightarrow> bool" where
  "view_quiet KVM_CREATE_VM = False"
| "view_quiet (KVM_SET_USER_MEMORY_REGION _) = False"
| "view_quiet (KVM_CREATE_VCPU _) = False"
| "view_quiet (KVM_SET_REGS _) = False"
| "view_quiet (KVM_SET_SREGS _) = False"
| "view_quiet KVM_RUN = False"
| "view_quiet _ = True"

definition view_frame :: "'k kernel \<Rightarrow> ('k host \<Rightarrow> kvm_view) \<Rightarrow> bool" where
  "view_frame K V \<longleftrightarrow>
     (\<forall>h now h'. clock_now K h = (now, h') \<longrightarrow> V h' = V h) \<and>
     (\<forall>fd h rc r h'. sys_get_regs K fd h = (rc, r, h') \<longrightarrow> V h' = V h) \<and>
     (\<forall>fd h rc r h'. sys_get_sregs K fd h = (rc, r, h') \<longrightarrow> V h' = V h) \<and>
     (\<forall>n h p h'. sys_mmap K n h = (p, h') \<longrightarrow> V h' = V h) \<and>
     (\<forall>p n h rc h'. sys_madvise K p n h = (rc, h') \<longrightarrow> V h' = V h) \<and>
     (\<forall>fd q h rc h'. sys_ioctl K fd q h = (rc, h') \<longrightarrow> view_quiet q \<longrightarrow> V h' = V h) \<and>
     (\<forall>h m. V (h\<lparr>h_heap := m\<rparr>) = V h) \<and> (\<forall>h m. V (h\<lparr>h_runs := m\<rparr>) = V h)"

text \<open>
  A new machine has no memory; its first slot is its memory; a new vCPU waits for nothing; mapping its
  page is seen by later runs.
\<close>

definition view_create :: "'k kernel \<Rightarrow> ('k host \<Rightarrow> kvm_view) \<Rightarrow> bool" where
  "view_create K V \<longleftrightarrow>
     (\<forall>fd h rc h'. sys_ioctl K fd KVM_CREATE_VM h = (rc, h') \<longrightarrow> 0 \<le> rc \<longrightarrow> kv_slots (V h') rc = []) \<and>
     (\<forall>fd u h rc h'. sys_ioctl K fd (KVM_SET_USER_MEMORY_REGION u) h = (rc, h') \<longrightarrow> 0 \<le> rc \<longrightarrow>
        umr_memory_size u \<noteq> 0 \<longrightarrow> kv_slots (V h) fd = [] \<longrightarrow>
        kv_slots (V h') fd = [(umr_guest_phys_addr u, umr_memory_size u, umr_userspace_addr u)]) \<and>
     (\<forall>fd i h rc h'. sys_ioctl K fd (KVM_CREATE_VCPU i) h = (rc, h') \<longrightarrow> 0 \<le> rc \<longrightarrow>
        kv_slots (V h') = kv_slots (V h) \<and> kv_vm (V h') rc = Some fd \<and> c_pending (kv_cpu (V h') rc) = None) \<and>
     (\<forall>fd n h p h'. sys_mmap_vcpu K fd n h = (p, h') \<longrightarrow> p \<noteq> MAP_FAILED \<longrightarrow>
        V h' = (V h)\<lparr>kv_page := (kv_page (V h))(fd \<mapsto> p)\<rparr>)"

text \<open>
  The register requests read and write the processor of a vCPU that waits for nothing. Setting the general
  registers succeeds (bit 1 of the flags is always set), and so does writing back special registers that
  were read; special registers that KVM accepts are set.
\<close>

definition view_regs :: "'k kernel \<Rightarrow> ('k host \<Rightarrow> kvm_view) \<Rightarrow> bool" where
  "view_regs K V \<longleftrightarrow> (\<forall>fd h. kv_vm (V h) fd \<noteq> None \<longrightarrow> c_pending (kv_cpu (V h) fd) = None \<longrightarrow>
     kregs K fd h = Some (c_regs (kv_cpu (V h) fd)) \<and> ksregs K fd h = Some (c_sregs (kv_cpu (V h) fd)) \<and>
     (\<forall>r rc h'. sys_ioctl K fd (KVM_SET_REGS r) h = (rc, h') \<longrightarrow> bit (rflags r) 1 \<longrightarrow>
        0 \<le> rc \<and> V h' = set_cpu fd ((kv_cpu (V h) fd)\<lparr>c_regs := r\<rparr>) (V h)) \<and>
     (\<forall>s rc h'. sys_ioctl K fd (KVM_SET_SREGS s) h = (rc, h') \<longrightarrow>
        ((\<exists>h0. ksregs K fd h0 = Some s) \<longrightarrow> 0 \<le> rc) \<and>
        (0 \<le> rc \<longrightarrow> V h' = set_cpu fd ((kv_cpu (V h) fd)\<lparr>c_sregs := s\<rparr>) (V h))))"

text \<open>
  Running the guest: a waiting read gets the data in the page, the processor runs on the memory of the
  machine's one slot, from guest address 0, and what made it leave the guest is left in the page. A run
  is not interrupted. What the processor leaves in an undefined flag is \<open>af\<close>.
\<close>

fun shows_exit :: "guest_exit \<Rightarrow> kvm_run \<Rightarrow> bool" where
  "shows_exit GX_Halt run \<longleftrightarrow> exit_reason run = 5"
| "shows_exit (GX_Read addr) run \<longleftrightarrow> exit_reason run = 6 \<and> mmio_phys_addr (run_mmio run) = addr \<and>
     mmio_len (run_mmio run) = 2 \<and> mmio_is_write (run_mmio run) = 0"
| "shows_exit (GX_Write addr w) run \<longleftrightarrow> exit_reason run = 6 \<and> mmio_phys_addr (run_mmio run) = addr \<and>
     mmio_len (run_mmio run) = 2 \<and> mmio_is_write (run_mmio run) = 1 \<and> take 2 (mmio_data (run_mmio run)) = le_bytes 2 w"

definition view_run :: "'k kernel \<Rightarrow> ('k host \<Rightarrow> kvm_view) \<Rightarrow> (cpu \<Rightarrow> bool) \<Rightarrow> bool" where
  "view_run K V af \<longleftrightarrow> (\<forall>fd m n a p ram run ex c' ram' h rc h'.
     kv_vm (V h) fd = Some m \<longrightarrow> kv_slots (V h) m = [(0, n, a)] \<longrightarrow> kv_page (V h) fd = Some p \<longrightarrow>
     h_heap h a = Some ram \<longrightarrow> length ram = unat n \<longrightarrow> h_runs h p = Some run \<longrightarrow>
     run_cpu af (complete_read (mmio_data (run_mmio run)) (kv_cpu (V h) fd)) ram = Some (ex, c', ram') \<longrightarrow>
     sys_ioctl K fd KVM_RUN h = (rc, h') \<longrightarrow>
     0 \<le> rc \<and> V h' = set_cpu fd c' (V h) \<and> h_heap h' = (h_heap h)(a \<mapsto> ram') \<and>
     (\<exists>run'. h_runs h' = (h_runs h)(p \<mapsto> run') \<and> shows_exit ex run'))"

definition session_laws :: "'k kernel \<Rightarrow> ('k host \<Rightarrow> kvm_view) \<Rightarrow> (cpu \<Rightarrow> bool) \<Rightarrow> bool" where
  "session_laws K V af \<longleftrightarrow> reg_laws K \<and> clock_frame K \<and> run_law K \<and> mem_laws K \<and> mapping_law K \<and> errno_law K \<and>
     get_errno_law K \<and> view_frame K V \<and> view_create K V \<and> view_regs K V \<and> view_run K V af"

lemma session_lawsD:
  assumes "session_laws K V af"
  shows "reg_laws K" "clock_frame K" "run_law K" "mem_laws K" "mapping_law K" "errno_law K" "get_errno_law K"
    "view_frame K V" "view_create K V" "view_regs K V" "view_run K V af"
  using assms by (simp_all add: session_laws_def)

lemma view_frameD:
  assumes "view_frame K V"
  shows "clock_now K h = (now, h') \<Longrightarrow> V h' = V h"
    and "sys_get_regs K fd h = (rc, r, h') \<Longrightarrow> V h' = V h"
    and "sys_get_sregs K fd h = (rc, s, h') \<Longrightarrow> V h' = V h"
    and "sys_mmap K n h = (p, h') \<Longrightarrow> V h' = V h"
    and "sys_madvise K p n h = (rc, h') \<Longrightarrow> V h' = V h"
    and "sys_ioctl K fd q h = (rc, h') \<Longrightarrow> view_quiet q \<Longrightarrow> V h' = V h"
    and "V (h\<lparr>h_heap := m\<rparr>) = V h" and "V (h\<lparr>h_runs := m'\<rparr>) = V h"
  using assms unfolding view_frame_def by metis+

section \<open>Listening does not disturb the guest\<close>

definition view_kept :: "'k kernel \<Rightarrow> ('k host \<Rightarrow> kvm_view) \<Rightarrow> ('k, 'k main_app) env_rel" where
  "view_kept K V e e' \<longleftrightarrow> (reg_laws K \<longrightarrow> clock_frame K \<longrightarrow> view_frame K V \<longrightarrow> prints_only (e_app e) \<longrightarrow>
     V (e_host e') = V (e_host e) \<and> h_heap (e_host e') = h_heap (e_host e) \<and> h_runs (e_host e') = h_runs (e_host e) \<and>
     ms_mmio (aa_user (e_app e')) = ms_mmio (aa_user (e_app e)) \<and> prints_only (e_app e'))"

interpretation unseen: host_view K "view_kept K V" for K V
proof unfold_locales
  show "view_kept K V e (e\<lparr>e_host := h'\<rparr>)" if "clock_now K (e_host e) = (now, h')" for e now h'
    using that view_frameD(1) [OF _ that] by (auto simp: view_kept_def clock_frame_def)
  show "view_kept K V e (e\<lparr>e_host := h'\<rparr>)" if "sys_get_regs K fd (e_host e) = (rc, r, h')" for fd e rc r h'
    using that view_frameD(2) [OF _ that] get_regs_frameD(1,2) [OF _ that] by (auto simp: view_kept_def)
  show "view_kept K V e (e\<lparr>e_host := h'\<rparr>)" if "sys_get_sregs K fd (e_host e) = (rc, s, h')" for fd e rc s h'
    using that view_frameD(3) [OF _ that] get_sregs_frameD(1,2) [OF _ that] by (auto simp: view_kept_def)
qed (auto simp: view_kept_def)

lemma view_kept_print:
  "view_kept K V e (on_user (user_println s text) e)" "view_kept K V e (on_user (user_print s text) e)"
  by (simp_all add: view_kept_def prints_only_def user_println_def user_print_def)

lemma agent_unseen: "listener_keeps (view_kept K V) (VmiAgent_handleHvEvent K)"
  unfolding listener_keeps_def
proof (intro allI impI)
  fix ev and e e' :: "'a main_env"
  assume h: "VmiAgent_handleHvEvent K ev e = Some e'"
  let ?a = "aa_agent (e_app e)"
  obtain snap h1 where s: "VmiAgent_snapshotRegisters K ?a (ev_vcpu_id ev) (e_host e) = (snap, h1)" by fastforce
  have "e_host e' = h1 \<and> vmi_callbacks (aa_agent (e_app e')) = [vmi_print] \<and> ms_mmio (aa_user (e_app e')) = ms_mmio (aa_user (e_app e))"
    if "vmi_callbacks ?a = [vmi_print]"
    using h s that by (auto simp: VmiAgent_handleHvEvent_def vmi_print_def user_println_def Let_def split: Option.bind_splits)
  with unseen.snapshot [OF s, of V] show "view_kept K V e e'" by (auto simp: view_kept_def prints_only_def)
qed

lemma logger_unseen: "listener_keeps (view_kept K V) logger"
  using unseen.compose [OF view_kept_print(2) view_kept_print(1)] by (auto simp: listener_keeps_def logger_def Let_def)

lemma main_listeners_unseen: "main_listeners K vm = (a, Some d) \<Longrightarrow> listeners_keep (view_kept K V) d"
  using agent_unseen logger_unseen by (auto simp: listeners_keep_def main_listeners_eq)

section \<open>A guest under the run loop\<close>

text \<open>A vCPU with its page, in a machine whose memory is the region.\<close>

definition attached :: "('k host \<Rightarrow> kvm_view) \<Rightarrow> VCpu \<Rightarrow> MemoryRegion \<Rightarrow> 'k host \<Rightarrow> bool" where
  "attached V v r h \<longleftrightarrow> (\<exists>m. kv_vm (V h) (v_fd v) = Some m \<and> kv_slots (V h) m = [(0, m_size r, m_hostAddr r)]) \<and>
     kv_page (V h) (v_fd v) = Some (v_runPage v) \<and> region_live h r"

text \<open>A trapper with the program's device and listeners.\<close>

definition wired_trapper :: "'k kernel \<Rightarrow> ('k host \<Rightarrow> kvm_view) \<Rightarrow> ('k, 'k main_app) InstructionTrapper \<Rightarrow> bool" where
  "wired_trapper K V t \<longleftrightarrow>
     (\<exists>m. it_mmio t = Some m \<and> mh_readCallbacks m = mh_readCallbacks main_mmio \<and> mh_writeCallbacks m = mh_writeCallbacks main_mmio) \<and>
     (\<exists>d. it_dispatch t = Some d \<and> agent_subscribed K d \<and> listeners_keep (view_kept K V) d)"

text \<open>Type and contents of an event, without the time and the instruction pointer it is stamped with.\<close>

definition event_of :: "HvEvent \<Rightarrow> EventType \<times> EventPayload" where
  "event_of ev = (ev_type ev, ev_payload ev)"

text \<open>
  Everything a session is made of: trapper and environment are in order, the guest's processor is \<open>c\<close>, \<open>data\<close>
  is what a waiting read will get, the memory is \<open>ram\<close>, the device \<open>dev\<close>, the log has the events \<open>log\<close>,
  and the guest has been left \<open>n\<close> times.
\<close>

definition in_session ::
  "'k kernel \<Rightarrow> ('k host \<Rightarrow> kvm_view) \<Rightarrow> VirtualMachine \<Rightarrow> VCpu \<Rightarrow> MemoryRegion \<Rightarrow>
   ('k, 'k main_app) InstructionTrapper \<Rightarrow> 'k main_env \<Rightarrow>
   cpu \<Rightarrow> byte list \<Rightarrow> byte list \<Rightarrow> MmioDeviceState \<Rightarrow> (EventType \<times> EventPayload) list \<Rightarrow> u64 \<Rightarrow> bool" where
  "in_session K V vm v r t e c data ram dev log n \<longleftrightarrow>
     trapper_safe (main_inv vm) K v t \<and> env_ready (main_inv vm) (v_runPage v) e \<and> wired_trapper K V t \<and>
     attached V v r (e_host e) \<and> kv_cpu (V (e_host e)) (v_fd v) = c \<and>
     (\<exists>run. h_runs (e_host e) (v_runPage v) = Some run \<and> take 2 (mmio_data (run_mmio run)) = data) \<and>
     region_bytes (e_host e) r = ram \<and> ms_mmio (aa_user (e_app e)) = dev \<and> map event_of (log_of e) = log \<and>
     it_exitCount t = n"

lemma ready_prints: "env_ready (main_inv vm) p e \<Longrightarrow> prints_only (e_app e)"
  by (simp add: env_ready_def main_inv_def prints_only_def)

lemma complete_read_take: "complete_read (take 2 data) c = complete_read data c"
  by (simp add: complete_read_def split: option.split)

text \<open>Entering the guest.\<close>

lemma guest_entered:
  assumes laws: "session_laws K V af" and s: "in_session K V vm v r t e c data ram dev log n"
    and go: "run_cpu af (complete_read data c) ram = Some (ex, c', ram')"
    and io: "sys_ioctl K (v_fd v) KVM_RUN (e_host e) = (rc, h')"
  shows "\<exists>run. 0 \<le> rc \<and> V h' = set_cpu (v_fd v) c' (V (e_host e)) \<and> region_bytes h' r = ram' \<and>
    h_runs h' (v_runPage v) = Some run \<and> run_wf run \<and> shows_exit ex run \<and>
    env_ready (main_inv vm) (v_runPage v) (e\<lparr>e_host := h'\<rparr>) \<and> attached V v r h'"
proof -
  note l = session_lawsD [OF laws]
  obtain m run b where v: "kv_vm (V (e_host e)) (v_fd v) = Some m" "kv_slots (V (e_host e)) m = [(0, m_size r, m_hostAddr r)]"
    "kv_page (V (e_host e)) (v_fd v) = Some (v_runPage v)"
    and b: "h_heap (e_host e) (m_hostAddr r) = Some b" "length b = unat (m_size r)"
    and run: "h_runs (e_host e) (v_runPage v) = Some run" "take 2 (mmio_data (run_mmio run)) = data"
    using s by (auto simp: in_session_def attached_def region_live_def)
  have "ram = b" using s b(1) by (simp add: in_session_def region_bytes_def block_def)
  then have "run_cpu af (complete_read (mmio_data (run_mmio run)) (kv_cpu (V (e_host e)) (v_fd v))) b = Some (ex, c', ram')"
    using go s run(2) complete_read_take [of "mmio_data (run_mmio run)" c] by (simp add: in_session_def)
  from l(11) [unfolded view_run_def, rule_format, OF v b run(1) this io] obtain run' where
    r: "0 \<le> rc" "V h' = set_cpu (v_fd v) c' (V (e_host e))" "h_heap h' = (h_heap (e_host e))(m_hostAddr r \<mapsto> ram')"
    "h_runs h' = (h_runs (e_host e))(v_runPage v \<mapsto> run')" "shows_exit ex run'" by blast
  have q: "heap_shape h' = heap_shape (e_host e)" "page_ready (v_runPage v) (e_host e) \<longrightarrow> page_ready (v_runPage v) h'"
    using l(3) [unfolded run_law_def, rule_format, OF io] by simp_all
  have ready: "env_ready (main_inv vm) (v_runPage v) (e\<lparr>e_host := h'\<rparr>)"
    using s q by (simp add: in_session_def env_ready_def)
  then have "run_wf run'" using r(4) by (auto simp: env_ready_def page_ready_def run_fits_def)
  moreover have "attached V v r h'"
    using s q(1) r(2) by (simp add: in_session_def attached_def region_live_shape)
  ultimately show ?thesis using r ready by (intro exI [of _ run']) (simp add: region_bytes_def block_def)
qed

text \<open>After the exit's handling: an event is published, the guest and its memory stay as they are.\<close>

lemma session_published:
  assumes laws: "session_laws K V af"
    and p: "publish_and_return res d ev t e1 = Some (res', t', e')"
    and k: "view_kept K V e e1" "e_app e1 = e_app e"
    and w: "wired_trapper K V t" "it_dispatch t = Some d" and pr: "prints_only (e_app e)"
  shows "res' = res \<and> wired_trapper K V t' \<and> view_kept K V e e' \<and> log_of e' = log_of e @ [ev] \<and> it_exitCount t' = it_exitCount t"
proof -
  obtain d' where p: "EventDispatcher_publish d ev e1 = Some (d', e')" "res' = res" and t': "t' = t\<lparr>it_dispatch := Some d'\<rparr>"
    using p by (auto simp: publish_and_return_def split: Option.bind_splits)
  have d: "agent_subscribed K d" "listeners_keep (view_kept K V) d" using w by (auto simp: wired_trapper_def)
  from publish_logs [OF d(1) p(1)] unseen.publish [OF d(2) p(1)] unseen.compose [OF k(1)] p(2) t' w(1) k(2) log_of_app [OF k(2)]
  show ?thesis by (auto simp: wired_trapper_def)
qed

lemma event_of_rip: "event_rip K v ev e = (ev', e') \<Longrightarrow> event_of ev' = event_of ev"
  by (auto simp: event_rip_def event_of_def split: prod.splits sum.splits)

definition mem_event :: "u64 \<Rightarrow> u64 \<Rightarrow> bool \<Rightarrow> EventType \<times> EventPayload" where
  "mem_event addr value w =
     (ET_MemAccess, PL_Mmio \<lparr>mme_guest_phys_addr = addr, mme_size = 2, mme_value = value, mme_isWrite = w\<rparr>)"

lemma mmio_published:
  assumes laws: "session_laws K V af" and p: "publish_mmio K t e = Some (res, t', e')" and w: "wired_trapper K V t"
    and run: "h_runs (e_host e) (v_runPage (it_vcpu t)) = Some run" "run_wf run" "mmio_len (run_mmio run) = 2"
    and pr: "prints_only (e_app e)"
  shows "res = RR_Continue \<and> wired_trapper K V t' \<and> view_kept K V e e' \<and> it_exitCount t' = it_exitCount t \<and>
    map event_of (log_of e') = map event_of (log_of e) @ [mem_event (mmio_phys_addr (run_mmio run))
      (le_word (take 2 (mmio_data (run_mmio run)))) (mmio_is_write (run_mmio run) \<noteq> 0)]"
proof -
  obtain d where d: "it_dispatch t = Some d" using w by (auto simp: wired_trapper_def)
  let ?data = "mmio_data (run_mmio run)" and ?v = "it_vcpu t"
  have two: "unat (min (ucast (2 :: u32)) 8 :: u8) = 2" by (simp add: min_def)
  have ld: "load_at ?data 0 2 = Some (take 2 ?data)" using run(2) by (simp add: load_at_def run_wf_def)
  have val: "(le_word (memcpy (le_bytes 8 (0 :: u64)) (take 2 ?data) 2) :: u64) = le_word (take 2 ?data)"
    using run(2) by (subst le_word_take_zero) (simp_all add: run_wf_def)
  let ?ev = "\<lambda>now. (HvEvent0 ET_MemAccess)\<lparr>ev_vcpu_id := v_id ?v, ev_payload := PL_Mmio
    \<lparr>mme_guest_phys_addr = mmio_phys_addr (run_mmio run), mme_size = 2, mme_value = le_word (take 2 ?data),
     mme_isWrite = (mmio_is_write (run_mmio run) \<noteq> 0)\<rparr>, ev_timestamp := now\<rparr>"
  obtain now e1 where c: "on_host (clock_now K) e = (now, e1)" by fastforce
  obtain ev e2 where i: "event_rip K ?v (?ev now) e1 = (ev, e2)" by fastforce
  have "publish_and_return RR_Continue d ev t e2 = Some (res, t', e')"
    using p d run(1,3) ld c i by (simp add: publish_mmio_def two val Let_def)
  from session_published [OF laws this unseen.stamped [OF c i] stamped_app [OF c i] w d pr] event_of_rip [OF i]
  show ?thesis by (auto simp: event_of_def mem_event_def HvEvent0_def)
qed

text \<open>What a step that leaves the guest in a memory-mapped access does before the access is handled.\<close>

lemma step_dispatches:
  assumes laws: "session_laws K V af" and s: "in_session K V vm v r t e c data ram dev log n"
    and go: "run_cpu af (complete_read data c) ram = Some (ex, c', ram')"
  obtains h' run where "InstructionTrapper_step K t e =
      InstructionTrapper_dispatchExit K (exit_reason_of (exit_reason run)) (t\<lparr>it_exitCount := n + 1\<rparr>) (e\<lparr>e_host := h'\<rparr>)"
    "V h' = set_cpu (v_fd v) c' (V (e_host e))" "region_bytes h' r = ram'" "h_runs h' (v_runPage v) = Some run" "run_wf run"
    "shows_exit ex run" "env_ready (main_inv vm) (v_runPage v) (e\<lparr>e_host := h'\<rparr>)" "attached V v r h'"
proof -
  obtain rc h' where io: "sys_ioctl K (v_fd v) KVM_RUN (e_host e) = (rc, h')" by fastforce
  from guest_entered [OF laws s go io] obtain run where
    r: "0 \<le> rc" "V h' = set_cpu (v_fd v) c' (V (e_host e))" "region_bytes h' r = ram'" "h_runs h' (v_runPage v) = Some run" "run_wf run"
    "shows_exit ex run" "env_ready (main_inv vm) (v_runPage v) (e\<lparr>e_host := h'\<rparr>)" "attached V v r h'" by blast
  have "it_vcpu t = v" "it_exitCount t = n" using s by (simp_all add: in_session_def trapper_safe_def)
  then have "InstructionTrapper_step K t e =
      InstructionTrapper_dispatchExit K (exit_reason_of (exit_reason run)) (t\<lparr>it_exitCount := n + 1\<rparr>) (e\<lparr>e_host := h'\<rparr>)"
    using r(1,4) io by (simp add: InstructionTrapper_step_def VCpu_run_def Let_def)
  from that [OF this r(2-8)] show thesis .
qed

lemma exit_reasons: "exit_reason_of 5 = ER_Hlt" "exit_reason_of 6 = ER_Mmio"
  by (simp_all add: exit_reason_of_def exit_reason_table_def)

lemma step_halts:
  assumes laws: "session_laws K V af" and s: "in_session K V vm v r t e c data ram dev log n"
    and go: "run_cpu af (complete_read data c) ram = Some (GX_Halt, c', ram')"
  shows "\<exists>t' e' data'. InstructionTrapper_step K t e = Some (RR_Halt, t', e') \<and>
    in_session K V vm v r t' e' c' data' ram' dev (log @ [(ET_GuestHalt, PL_Monostate)]) (n + 1)"
proof -
  note l = session_lawsD [OF laws]
  from step_dispatches [OF laws s go] obtain h1 run where st: "InstructionTrapper_step K t e =
      InstructionTrapper_dispatchExit K (exit_reason_of (exit_reason run)) (t\<lparr>it_exitCount := n + 1\<rparr>) (e\<lparr>e_host := h1\<rparr>)"
    and h1: "V h1 = set_cpu (v_fd v) c' (V (e_host e))" "region_bytes h1 r = ram'" "h_runs h1 (v_runPage v) = Some run"
    "shows_exit GX_Halt run" "env_ready (main_inv vm) (v_runPage v) (e\<lparr>e_host := h1\<rparr>)" "attached V v r h1" by blast
  let ?t = "t\<lparr>it_exitCount := n + 1\<rparr>" and ?e = "e\<lparr>e_host := h1\<rparr>"
  have safe: "trapper_safe (main_inv vm) K v ?t" and w: "wired_trapper K V ?t" and v: "it_vcpu t = v"
    using s by (simp_all add: in_session_def trapper_safe_def wired_trapper_def)
  obtain d where d: "it_dispatch ?t = Some d" using w by (auto simp: wired_trapper_def)
  obtain now e1 where c: "on_host (clock_now K) ?e = (now, e1)" by fastforce
  let ?ev = "(HvEvent0 ET_GuestHalt)\<lparr>ev_vcpu_id := v_id v, ev_timestamp := now, ev_payload := PL_Monostate\<rparr>"
  obtain ev e2 where i: "event_rip K v ?ev e1 = (ev, e2)" by fastforce
  from dispatch_hlt_ok [OF l(1,2) safe h1(5)] obtain res t' e' where
    y: "dispatch_hlt K ?t ?e = Some (res, t', e')" "trapper_safe (main_inv vm) K v t'" "env_ready (main_inv vm) (v_runPage v) e'"
    unfolding outcome_ok_def by blast
  have p: "publish_and_return RR_Halt d ev ?t e2 = Some (res, t', e')"
    using y(1) d c i by (simp add: dispatch_hlt_def v Let_def)
  note pr = ready_prints [OF h1(5)]
  from session_published [OF laws p unseen.stamped [OF c i] stamped_app [OF c i] w d pr] event_of_rip [OF i]
  have q: "res = RR_Halt" "wired_trapper K V t'" "view_kept K V ?e e'" "it_exitCount t' = n + 1"
    "map event_of (log_of e') = map event_of (log_of ?e) @ [(ET_GuestHalt, PL_Monostate)]" by (auto simp: event_of_def HvEvent0_def)
  have k: "V (e_host e') = V h1" "h_heap (e_host e') = h_heap h1" "h_runs (e_host e') = h_runs h1"
    "ms_mmio (aa_user (e_app e')) = dev"
    using q(3) l pr s by (simp_all add: view_kept_def in_session_def)
  have "InstructionTrapper_step K t e = Some (RR_Halt, t', e')" using st h1(4) y(1) q(1) by (simp add: exit_reasons)
  moreover have "in_session K V vm v r t' e' c' (take 2 (mmio_data (run_mmio run))) ram' dev (log @ [(ET_GuestHalt, PL_Monostate)]) (n + 1)"
    using y q k h1 s unfolding in_session_def attached_def region_live_def region_bytes_def block_def by (simp add: log_of_def)
  ultimately show ?thesis by blast
qed

text \<open>
  A handled access: the handler leaves environment \<open>e1\<close>, whose page has \<open>run1\<close>; publishing gives the rest.
\<close>

lemma step_mmio:
  assumes laws: "session_laws K V af" and s: "in_session K V vm v r t e c data ram dev log n"
    and st: "InstructionTrapper_step K t e = dispatch_mmio K (t\<lparr>it_exitCount := n + 1\<rparr>) e0"
    and e0: "V (e_host e0) = set_cpu (v_fd v) c' (V (e_host e))" "region_bytes (e_host e0) r = ram'" "attached V v r (e_host e0)"
      "env_ready (main_inv vm) (v_runPage v) e0" "log_of e0 = log_of e"
    and h: "\<And>m. mh_readCallbacks m = mh_readCallbacks main_mmio \<Longrightarrow> mh_writeCallbacks m = mh_writeCallbacks main_mmio \<Longrightarrow>
      \<exists>m'. MmioHandler_handle (v_runPage v) m e0 = Some (True, m', e1)"
    and e1: "V (e_host e1) = V (e_host e0)" "h_heap (e_host e1) = h_heap (e_host e0)" "ms_mmio (aa_user (e_app e1)) = dev'"
      "h_runs (e_host e1) (v_runPage v) = Some run1" "run_wf run1" "mmio_len (run_mmio run1) = 2" "log_of e1 = log_of e0"
  shows "\<exists>t' e'. InstructionTrapper_step K t e = Some (RR_Continue, t', e') \<and>
    in_session K V vm v r t' e' c' (take 2 (mmio_data (run_mmio run1))) ram' dev'
      (log @ [mem_event (mmio_phys_addr (run_mmio run1)) (le_word (take 2 (mmio_data (run_mmio run1)))) (mmio_is_write (run_mmio run1) \<noteq> 0)])
      (n + 1)"
proof -
  note l = session_lawsD [OF laws]
  let ?t = "t\<lparr>it_exitCount := n + 1\<rparr>"
  have safe: "trapper_safe (main_inv vm) K v ?t" and v: "it_vcpu t = v"
    using s by (simp_all add: in_session_def trapper_safe_def)
  obtain m where m: "it_mmio t = Some m" "mh_readCallbacks m = mh_readCallbacks main_mmio" "mh_writeCallbacks m = mh_writeCallbacks main_mmio"
    using s by (auto simp: in_session_def wired_trapper_def)
  from h [OF m(2,3)] obtain m' where m': "MmioHandler_handle (v_runPage v) m e0 = Some (True, m', e1)" by blast
  let ?t1 = "?t\<lparr>it_mmio := Some m'\<rparr>"
  from dispatch_mmio_ok [OF l(1,2) safe e0(4)] obtain res t' e' where
    y: "dispatch_mmio K ?t e0 = Some (res, t', e')" "trapper_safe (main_inv vm) K v t'" "env_ready (main_inv vm) (v_runPage v) e'"
    unfolding outcome_ok_def by blast
  have p: "publish_mmio K ?t1 e1 = Some (res, t', e')"
    using y(1) m(1) m' by (simp add: dispatch_mmio_def optionally_def v)
  have w: "wired_trapper K V ?t1"
    using s m mmio_callbacks_kept [OF m'] by (simp add: in_session_def wired_trapper_def)
  have pm: "pred_option (mmio_quiet (main_inv vm :: 'a main_app app_inv)) (Some m)" using s m(1) by (simp add: in_session_def trapper_safe_def)
  have "env_ready (main_inv vm) (v_runPage v) e1"
    using mmio_exits.keeps [OF m'] pm e0(4) by simp
  note pr = ready_prints [OF this]
  from mmio_published [OF laws p w _ e1(5,6) pr] e1(4)
  have q: "res = RR_Continue" "wired_trapper K V t'" "view_kept K V e1 e'" "it_exitCount t' = n + 1"
    "map event_of (log_of e') = map event_of (log_of e1) @ [mem_event (mmio_phys_addr (run_mmio run1))
      (le_word (take 2 (mmio_data (run_mmio run1)))) (mmio_is_write (run_mmio run1) \<noteq> 0)]" by (simp_all add: v)
  have k: "V (e_host e') = V (e_host e0)" "h_heap (e_host e') = h_heap (e_host e0)" "h_runs (e_host e') = h_runs (e_host e1)"
    "ms_mmio (aa_user (e_app e')) = dev'"
    using q(3) l pr e1 by (simp_all add: view_kept_def)
  have "in_session K V vm v r t' e' c' (take 2 (mmio_data (run_mmio run1))) ram' dev'
      (log @ [mem_event (mmio_phys_addr (run_mmio run1)) (le_word (take 2 (mmio_data (run_mmio run1)))) (mmio_is_write (run_mmio run1) \<noteq> 0)])
      (n + 1)"
    using y q k e0 e1 s unfolding in_session_def attached_def region_live_def region_bytes_def block_def by simp
  with st y(1) q(1) show ?thesis by auto
qed

lemma step_reads:
  assumes laws: "session_laws K V af" and s: "in_session K V vm v r t e c data ram dev log n"
    and go: "run_cpu af (complete_read data c) ram = Some (GX_Read addr, c', ram')"
    and cb: "mh_readCallbacks (main_mmio :: ('k, 'k main_app) MmioHandler) addr = Some cb"
    and val: "\<And>ctx e. ms_mmio (aa_user (e_app e)) = dev \<Longrightarrow> cb ctx e = (answer, e)"
  shows "\<exists>t' e'. InstructionTrapper_step (K :: 'k kernel) t e = Some (RR_Continue, t', e') \<and>
    in_session K V vm v r t' e' c' (le_bytes 2 answer) ram' dev (log @ [mem_event addr (take_bit 16 answer) False]) (n + 1)"
proof -
  note l = session_lawsD [OF laws]
  from step_dispatches [OF laws s go] obtain h1 run where st: "InstructionTrapper_step K t e =
      InstructionTrapper_dispatchExit K (exit_reason_of (exit_reason run)) (t\<lparr>it_exitCount := n + 1\<rparr>) (e\<lparr>e_host := h1\<rparr>)"
    and h1: "V h1 = set_cpu (v_fd v) c' (V (e_host e))" "region_bytes h1 r = ram'" "h_runs h1 (v_runPage v) = Some run" "run_wf run"
    "shows_exit (GX_Read addr) run" "env_ready (main_inv vm) (v_runPage v) (e\<lparr>e_host := h1\<rparr>)" "attached V v r h1" by blast
  let ?e = "e\<lparr>e_host := h1\<rparr>" and ?p = "v_runPage v"
  have size: "mmio_size run = 2" using h1(5) by (simp add: mmio_size_def)
  let ?run1 = "run\<lparr>run_mmio := (run_mmio run)\<lparr>mmio_data := le_bytes 2 answer @ drop 2 (mmio_data (run_mmio run))\<rparr>\<rparr>"
  have h: "\<exists>m'. MmioHandler_handle ?p m ?e = Some (True, m', set_run ?p ?run1 ?e)"
    if "mh_readCallbacks m = mh_readCallbacks main_mmio" for m :: "('k, 'k main_app) MmioHandler"
    using handle_read [of ?e ?p run m answer ?e] h1(3-5) size cb that val [of ?e] s by (simp add: in_session_def)
  have "V (e_host (set_run ?p ?run1 ?e)) = V h1" by (simp add: set_run_def view_frameD(8) [OF l(8)])
  moreover have "run_wf ?run1" using h1(4) by (simp add: run_wf_def)
  ultimately have "\<exists>t' e'. InstructionTrapper_step K t e = Some (RR_Continue, t', e') \<and>
    in_session K V vm v r t' e' c' (take 2 (mmio_data (run_mmio ?run1))) ram' dev
      (log @ [mem_event (mmio_phys_addr (run_mmio ?run1)) (le_word (take 2 (mmio_data (run_mmio ?run1)))) (mmio_is_write (run_mmio ?run1) \<noteq> 0)])
      (n + 1)"
    using s h1 st by (intro step_mmio [OF laws s _ _ _ _ _ _ h]) (simp_all add: exit_reasons in_session_def log_of_def)
  then show ?thesis using h1(5) by (simp add: le_word_bytes)
qed

lemma bit_le_word2: "bit (le_word (le_bytes 2 w) :: 'a::len word) i \<longleftrightarrow> i < LENGTH('a) \<and> i < 16 \<and> bit (w :: 'b::len word) i"
proof (cases "i < 16")
  case True
  then have "i div 8 < 2" by simp
  with True show ?thesis by (auto simp: bit_le_word le_bytes_nth bit_ucast_iff bit_drop_bit_eq)
qed (simp add: bit_le_word)

lemma le_word_widen: "(le_word (le_bytes 2 (w :: u16)) :: u64) = ucast w"
  by (rule bit_word_eqI) (auto simp: bit_le_word2 bit_ucast_iff dest: bit_imp_le_length)

lemma le_word_narrow: "(le_word (le_bytes 2 (w :: u64)) :: u16) = ucast (take_bit 16 w)"
  by (rule bit_word_eqI) (auto simp: bit_le_word2 bit_ucast_iff bit_take_bit_iff)

text \<open>The device's input register.\<close>

definition dev_written :: "u16 \<Rightarrow> MmioDeviceState \<Rightarrow> MmioDeviceState" where
  "dev_written w dev = \<lparr>last_write_value = ucast w, write_count = write_count dev + 1\<rparr>"

lemma step_writes:
  assumes laws: "session_laws (K :: 'k kernel) V af" and s: "in_session K V vm v r t e c data ram dev log n"
    and go: "run_cpu af (complete_read data c) ram = Some (GX_Write k_reg_input w, c', ram')"
  shows "\<exists>t' e'. InstructionTrapper_step K t e = Some (RR_Continue, t', e') \<and>
    in_session K V vm v r t' e' c' (le_bytes 2 w) ram' (dev_written w dev) (log @ [mem_event k_reg_input (ucast w) True]) (n + 1)"
proof -
  note l = session_lawsD [OF laws]
  from step_dispatches [OF laws s go] obtain h1 run where st: "InstructionTrapper_step K t e =
      InstructionTrapper_dispatchExit K (exit_reason_of (exit_reason run)) (t\<lparr>it_exitCount := n + 1\<rparr>) (e\<lparr>e_host := h1\<rparr>)"
    and h1: "V h1 = set_cpu (v_fd v) c' (V (e_host e))" "region_bytes h1 r = ram'" "h_runs h1 (v_runPage v) = Some run" "run_wf run"
    "shows_exit (GX_Write k_reg_input w) run" "env_ready (main_inv vm) (v_runPage v) (e\<lparr>e_host := h1\<rparr>)" "attached V v r h1" by blast
  let ?e = "e\<lparr>e_host := h1\<rparr>" and ?p = "v_runPage v"
  have size: "mmio_size run = 2" using h1(5) by (simp add: mmio_size_def)
  have val: "(le_word (le_bytes 2 w) :: u64) = ucast w" by (rule le_word_widen)
  let ?ctx = "\<lparr>wc_addr = k_reg_input, wc_size = 2, wc_value = ucast w\<rparr>"
  have cb: "mh_writeCallbacks (main_mmio :: ('k, 'k main_app) MmioHandler) k_reg_input = Some input_write"
    by (simp add: main_mmio_defs)
  have h: "\<exists>m'. MmioHandler_handle ?p m ?e = Some (True, m', input_write ?ctx ?e)"
    if "mh_writeCallbacks m = mh_writeCallbacks main_mmio" for m :: "('k, 'k main_app) MmioHandler"
    using handle_write [of ?e ?p run m] h1(3-5) size that val by (simp add: cb)
  have dev: "ms_mmio (aa_user (e_app (input_write ?ctx ?e))) = dev_written w dev"
    using s by (simp add: input_write_def user_println_def dev_written_def in_session_def)
  have "\<exists>t' e'. InstructionTrapper_step K t e = Some (RR_Continue, t', e') \<and>
    in_session K V vm v r t' e' c' (take 2 (mmio_data (run_mmio run))) ram' (dev_written w dev)
      (log @ [mem_event (mmio_phys_addr (run_mmio run)) (le_word (take 2 (mmio_data (run_mmio run)))) (mmio_is_write (run_mmio run) \<noteq> 0)])
      (n + 1)"
    using s h1 st dev by (intro step_mmio [OF laws s _ _ _ _ _ _ h]) (simp_all add: exit_reasons log_of_def input_write_def)
  then show ?thesis using h1(5) val by simp
qed

section \<open>One run\<close>

text \<open>The processor that the loader has set up.\<close>

definition booted :: "cpu \<Rightarrow> bool" where
  "booted c \<longleftrightarrow> fetching c \<and> rip (c_regs c) = 0x1000 \<and> seg_limit (sr_ds (c_sregs c)) = 0xFFFF \<and> bit (rflags (c_regs c)) 1"

definition run_events :: "(EventType \<times> EventPayload) list" where
  "run_events = [mem_event k_reg_magic 0x494F False, mem_event k_reg_input 0x42 True, mem_event k_reg_status 0x42 False,
     (ET_GuestHalt, PL_Monostate)]"

lemma device_addresses: "k_reg_magic = 0x80000" "k_reg_input = 0x80008" "k_reg_status = 0x80010"
  by (simp_all add: k_reg_magic_def k_reg_input_def k_reg_status_def k_mmio_base_def)

lemma device_reads:
  "mh_readCallbacks main_mmio 0x80000 = Some magic_read" "mh_readCallbacks main_mmio 0x80010 = Some status_read"
  by (simp_all add: main_mmio_defs)

lemma status_low: "take_bit 16 (push_bit 32 c OR (0x42 AND 0xFFFFFFFF) :: u64) = 0x42"
proof -
  have "take_bit 16 (push_bit 32 c OR 0x42 :: u64) = take_bit 16 (0x42 :: u64)"
    by (rule bit_word_eqI) (auto simp: bit_take_bit_iff bit_or_iff bit_push_bit_iff)
  then show ?thesis by simp
qed

lemma session_run:
  assumes laws: "session_laws (K :: 'k kernel) V af" and s: "in_session K V vm v r t e c data ram dev log n"
    and c: "booted c" and ram: "holds_guest ram"
  shows "\<exists>t' e' c' data'. InstructionTrapper_runLoop K 0 t e = Some (RR_Halt, t', e') \<and>
    in_session K V vm v r t' e' c' data' ram (dev_written 0x42 dev) (log @ run_events) (n + 4) \<and>
    c_pending c' = None \<and> get16 AX (c_regs c') = 0x42"
proof -
  let ?dev = "dev_written 0x42 dev"
  let ?status = "push_bit 32 (write_count ?dev AND 0xFFFFFFFF) OR (0x42 AND 0xFFFFFFFF) :: u64"
  have "complete_read data c = c" using c by (simp add: booted_def fetching_def complete_read_def)
  with run_first [OF ram, of c af] c obtain c1 where
    r1: "run_cpu af (complete_read data c) ram = Some (GX_Read 0x80000, c1, ram)" "c_pending c1 = Some AX" "on_device 0x1009 c1"
    by (auto simp: booted_def)
  from step_reads [OF laws s r1(1) device_reads(1)] obtain t1 e1 where
    s1: "InstructionTrapper_step K t e = Some (RR_Continue, t1, e1)"
    "in_session K V vm v r t1 e1 c1 (le_bytes 2 (0x4D4D494F :: u64)) ram dev (log @ [mem_event 0x80000 (take_bit 16 0x4D4D494F) False]) (n + 1)"
    by (fastforce simp: magic_read_def)
  let ?c1 = "complete_read (le_bytes 2 (0x4D4D494F :: u64)) c1"
  from run_write [OF ram completed(1,2) [OF r1(2,3)]] obtain c2 where
    r2: "run_cpu af ?c1 ram = Some (GX_Write 0x80008 0x42, c2, ram)" "c_pending c2 = None" "on_device 0x100E c2" by blast
  from step_writes [OF laws s1(2), of "0x42" c2 ram] r2(1) obtain t2 e2 where
    s2: "InstructionTrapper_step K t1 e1 = Some (RR_Continue, t2, e2)"
    "in_session K V vm v r t2 e2 c2 (le_bytes 2 (0x42 :: u16)) ram ?dev
      ((log @ [mem_event 0x80000 (take_bit 16 0x4D4D494F) False]) @ [mem_event 0x80008 0x42 True]) (n + 1 + 1)"
    by (auto simp: device_addresses)
  have "complete_read (le_bytes 2 (0x42 :: u16)) c2 = c2" using r2(2) by (simp add: complete_read_def)
  with run_second [OF ram r2(2,3), of af] obtain c3 where
    r3: "run_cpu af (complete_read (le_bytes 2 (0x42 :: u16)) c2) ram = Some (GX_Read 0x80010, c3, ram)"
    "c_pending c3 = Some AX" "on_device 0x1011 c3" by auto
  have st: "status_read ctx e = (?status, e)" if "ms_mmio (aa_user (e_app e)) = ?dev" for ctx and e :: "'k main_env"
    using that by (simp add: status_read_def dev_written_def Let_def)
  from step_reads [OF laws s2(2) r3(1) device_reads(2) st] obtain t3 e3 where
    s3: "InstructionTrapper_step K t2 e2 = Some (RR_Continue, t3, e3)"
    "in_session K V vm v r t3 e3 c3 (le_bytes 2 ?status) ram ?dev
      (((log @ [mem_event 0x80000 (take_bit 16 0x4D4D494F) False]) @ [mem_event 0x80008 0x42 True]) @
        [mem_event 0x80010 (take_bit 16 ?status) False]) (n + 1 + 1 + 1)" by blast
  let ?c3 = "complete_read (le_bytes 2 ?status) c3"
  from run_last [OF ram completed(1,2) [OF r3(2,3)]] obtain c4 where
    r4: "run_cpu af ?c3 ram = Some (GX_Halt, c4, ram)" "c_pending c4 = None" "get16 AX (c_regs c4) = get16 AX (c_regs ?c3)" by blast
  from step_halts [OF laws s3(2) r4(1)] obtain t4 e4 data4 where
    s4: "InstructionTrapper_step K t3 e3 = Some (RR_Halt, t4, e4)"
    "in_session K V vm v r t4 e4 c4 data4 ram ?dev
      ((((log @ [mem_event 0x80000 (take_bit 16 0x4D4D494F) False]) @ [mem_event 0x80008 0x42 True]) @
        [mem_event 0x80010 (take_bit 16 ?status) False]) @ [(ET_GuestHalt, PL_Monostate)]) (n + 1 + 1 + 1 + 1)" by blast
  have ax: "get16 AX (c_regs c4) = 0x42"
  proof -
    have "le_word (take 2 (le_bytes 2 ?status)) = (0x42 :: u16)"
      using status_low [of "write_count ?dev AND 0xFFFFFFFF"] by (simp add: le_word_narrow del: take_bit_or push_bit_and)
    then show ?thesis using r4(3) completed(3) [OF r3(2,3), of "le_bytes 2 ?status"] by (simp only:)
  qed
  have "trap_steps K 3 (t, e) (t3, e3)"
    using s1(1) s2(1) s3(1) by (auto simp: numeral_3_eq_3 intro!: trap_steps.intros)
  then have "InstructionTrapper_runLoop K 0 t e = Some (RR_Halt, t4, e4)"
    using s4(1) unfolding InstructionTrapper_runLoop_def
    by (intro run_iterations_complete [where n = 3]) (auto simp: loop_ends_def)
  moreover have "in_session K V vm v r t4 e4 c4 data4 ram ?dev (log @ run_events) (n + 4)"
    using s4(2) status_low [of "write_count ?dev AND 0xFFFFFFFF"] by (simp add: run_events_def device_addresses add.assoc take_bit_eq_mod)
  ultimately show ?thesis using r4(2) ax by blast
qed

section \<open>Runs from the snapshot\<close>

lemma in_session_printed:
  assumes "in_session K V vm v r t e c data ram dev log n" and "e_host e' = e_host e" "aa_agent (e_app e') = aa_agent (e_app e)"
    "ms_mmio (aa_user (e_app e')) = ms_mmio (aa_user (e_app e))" "env_ready (main_inv vm) (v_runPage v) e'"
  shows "in_session K V vm v r t e' c data ram dev log n"
  using assms by (simp add: in_session_def log_of_def)

lemma say_prepared_same:
  "say_prepared message vm cr cs i e = Some e' \<Longrightarrow> e_host e' = e_host e \<and> aa_agent (e_app e') = aa_agent (e_app e) \<and>
     ms_mmio (aa_user (e_app e')) = ms_mmio (aa_user (e_app e))"
  by (auto simp: say_prepared_def say_restored_def user_println_def Let_def split: Option.bind_splits)

lemma say_result_same:
  "e_host (say_result res (say text e)) = e_host e \<and> aa_agent (e_app (say_result res (say text e))) = aa_agent (e_app e) \<and>
     ms_mmio (aa_user (e_app (say_result res (say text e)))) = ms_mmio (aa_user (e_app e))"
  by (simp add: say_result_def user_println_def split: RunResult.split)

text \<open>Setting the registers of a vCPU that waits for nothing.\<close>

lemma set_view:
  assumes laws: "session_laws K V af" and v: "kv_vm (V h) (v_fd v) \<noteq> None" "c_pending (kv_cpu (V h) (v_fd v)) = None"
  shows "VCpu_setRegs K v g h = (ec, h') \<Longrightarrow> bit (rflags g) 1 \<Longrightarrow>
      ec = ok_code \<and> V h' = set_cpu (v_fd v) ((kv_cpu (V h) (v_fd v))\<lparr>c_regs := g\<rparr>) (V h)"
    and "VCpu_setSregs K v s h = (ec, h') \<Longrightarrow> ksregs K (v_fd v) h0 = Some s \<or> ec = ok_code \<Longrightarrow>
      ec = ok_code \<and> V h' = set_cpu (v_fd v) ((kv_cpu (V h) (v_fd v))\<lparr>c_sregs := s\<rparr>) (V h)"
proof -
  note l = session_lawsD [OF laws]
  note r = l(10) [unfolded view_regs_def, rule_format, OF v]
  show "VCpu_setRegs K v g h = (ec, h') \<Longrightarrow> bit (rflags g) 1 \<Longrightarrow>
      ec = ok_code \<and> V h' = set_cpu (v_fd v) ((kv_cpu (V h) (v_fd v))\<lparr>c_regs := g\<rparr>) (V h)"
    using r by (fastforce simp: VCpu_setRegs_def split: prod.splits if_splits)
  assume s: "VCpu_setSregs K v s h = (ec, h')" and ok: "ksregs K (v_fd v) h0 = Some s \<or> ec = ok_code"
  obtain rc h1 where io: "sys_ioctl K (v_fd v) (KVM_SET_SREGS s) h = (rc, h1)" by fastforce
  have e: "rc < 0 \<Longrightarrow> h_errno h1 \<noteq> 0" using l(6) io unfolding errno_law_def by blast
  have "ksregs K (v_fd v) h0 = Some s \<Longrightarrow> 0 \<le> rc" "0 \<le> rc \<Longrightarrow> V h1 = set_cpu (v_fd v) ((kv_cpu (V h) (v_fd v))\<lparr>c_sregs := s\<rparr>) (V h)"
    using r io by blast+
  with s ok io e show "ec = ok_code \<and> V h' = set_cpu (v_fd v) ((kv_cpu (V h) (v_fd v))\<lparr>c_sregs := s\<rparr>) (V h)"
    by (cases "rc < 0") (auto simp: VCpu_setSregs_def)
qed

text \<open>What a snapshot of the booted machine has in it.\<close>

definition boot_snapshot :: "'k kernel \<Rightarrow> VCpu \<Rightarrow> cpu \<Rightarrow> byte list \<Rightarrow> VmSnapShot \<Rightarrow> bool" where
  "boot_snapshot K v b ram snap \<longleftrightarrow> booted b \<and> holds_guest ram \<and> snap_regs snap = c_regs b \<and> snap_sregs snap = c_sregs b \<and>
     snap_memoryRegions snap = [ram] \<and> (\<exists>h0. ksregs K (v_fd v) h0 = Some (c_sregs b))"

lemma holds_guest_update: "holds_guest ram \<Longrightarrow> holds_guest (ram[0x2000 := x])"
  by (simp add: holds_guest_def drop_update_swap assemble_simpleGuest take_update_cancel)

lemma restored_regions_view:
  assumes "view_frame K V"
  shows "restore_regions rs bss h = Some h' \<Longrightarrow> V h' = V h"
proof (induction rs bss h rule: restore_regions.induct)
  case (2 r rs snaps h)
  show ?case
  proof (cases "m_hostAddr r = 0 \<or> snaps = [] \<or> hd snaps = []")
    case False
    with 2(3) obtain bs h1 where ld: "load_at (hd snaps) 0 (unat (m_size r)) = Some bs"
      and st: "heap_store h (m_hostAddr r) 0 bs = Some h1" and rest: "restore_regions rs (tl snaps) h1 = Some h'"
      by (auto split: Option.bind_splits)
    have "V h1 = V h" using st view_frameD(7) [OF assms] by (auto simp: heap_store_def)
    with 2(2) [OF False ld st rest] show ?thesis by simp
  qed (use 2 in simp)
qed simp

lemma restored_view:
  assumes laws: "session_laws K V af" and v: "vm_vcpus vm = v # vs" and snap: "boot_snapshot K v b ram0 snap"
    and w: "kv_vm (V h) (v_fd v) \<noteq> None" "c_pending (kv_cpu (V h) (v_fd v)) = None"
    and r: "VirtualMachine_restoreSnapshot K vm snap h = Some (cr, cs, h')"
  shows "cr = ok_code \<and> cs = ok_code \<and> V h' = set_cpu (v_fd v) b (V h)"
proof -
  note l = session_lawsD [OF laws]
  obtain h1 h2 where s: "VCpu_setRegs K v (c_regs b) h = (cr, h1)" "VCpu_setSregs K v (c_sregs b) h1 = (cs, h2)"
    and m: "restore_regions (vm_memoryRegions vm) (snap_memoryRegions snap) h2 = Some h'"
    using r v snap by (auto simp: VirtualMachine_restoreSnapshot_def boot_snapshot_def split: prod.splits Option.bind_splits)
  obtain h0 where h0: "ksregs K (v_fd v) h0 = Some (c_sregs b)" and b: "bit (rflags (c_regs b)) 1" "c_pending b = None"
    using snap by (auto simp: boot_snapshot_def booted_def fetching_def)
  from set_view(1) [OF laws w s(1) b(1)] have v1: "cr = ok_code" "V h1 = set_cpu (v_fd v) ((kv_cpu (V h) (v_fd v))\<lparr>c_regs := c_regs b\<rparr>) (V h)"
    by simp_all
  have "kv_vm (V h1) (v_fd v) \<noteq> None" "c_pending (kv_cpu (V h1) (v_fd v)) = None" using w v1(2) by simp_all
  from set_view(2) [OF laws this s(2)] h0 have "cs = ok_code" "V h2 = set_cpu (v_fd v) ((kv_cpu (V h1) (v_fd v))\<lparr>c_sregs := c_sregs b\<rparr>) (V h1)"
    by blast+
  moreover have "(kv_cpu (V h) (v_fd v))\<lparr>c_regs := c_regs b, c_sregs := c_sregs b\<rparr> = b"
    using w(2) b(2) by (intro cpu.equality) simp_all
  ultimately show ?thesis using v1 restored_regions_view [OF l(8) m] by simp
qed

lemma session_prepared:
  assumes laws: "session_laws K V af" and s: "in_session K V vm v r t e c data ram dev log n"
    and vm: "machine_ok vm v" "vm_memoryRegions vm = [r]" and snap: "boot_snapshot K v b ram0 snap" "snap_fits vm snap"
    and c: "c_pending c = None" "i = 0 \<Longrightarrow> c = b \<and> ram = ram0"
  shows "\<exists>h'. fuzz_prepare K vm snap i (e_host e) = Some (ok_code, ok_code, h') \<and>
    in_session K V vm v r t (e\<lparr>e_host := h'\<rparr>) b data (ram0[0x2000 := fuzzInput ! (i mod 3)]) dev log n"
proof -
  note l = session_lawsD [OF laws]
  obtain vs where v: "vm_vcpus vm = v # vs" using vm(1) by (auto simp: machine_ok_def)
  have ready: "env_ready (main_inv vm) (v_runPage v) e" using s by (simp add: in_session_def)
  from fuzz_prepare_ready [OF l(1) vm(1) ready snap(2), of i] obtain cr cs h1 h' where
    p: "fuzz_prepare K vm snap i (e_host e) = Some (cr, cs, h')" "env_ready (main_inv vm) (v_runPage v) (e\<lparr>e_host := h'\<rparr>)"
    "i > 0 \<longrightarrow> map (region_bytes h1) (vm_memoryRegions vm) = snap_memoryRegions snap" "i = 0 \<longrightarrow> h1 = e_host e"
    "region_bytes h' (hd (vm_memoryRegions vm)) =
      (region_bytes h1 (hd (vm_memoryRegions vm)))[0x2000 := fuzzInput ! (i mod length fuzzInput)]" by blast
  have w: "kv_vm (V (e_host e)) (v_fd v) \<noteq> None" "kv_cpu (V (e_host e)) (v_fd v) = c"
    using s by (auto simp: in_session_def attached_def)
  have bytes: "region_bytes h' r = ram0[0x2000 := fuzzInput ! (i mod 3)]"
    using p(3-5) c(2) snap(1) s by (cases "i = 0") (auto simp: vm(2) boot_snapshot_def in_session_def fuzzInput_def)
  obtain hr x where hr: "(if i > 0 then VirtualMachine_restoreSnapshot K vm snap (e_host e) else Some (ok_code, ok_code, e_host e)) =
      Some (cr, cs, hr)" and st: "heap_store hr (m_hostAddr r) 0x2000 [x] = Some h'"
    using p(1) by (auto simp: fuzz_prepare_def first_region_def vm(2) split: Option.bind_splits)
  have "cr = ok_code \<and> cs = ok_code \<and> V hr = set_cpu (v_fd v) b (V (e_host e))"
  proof (cases "i = 0")
    case True
    with hr c(2) w(2) show ?thesis by auto
  next
    case False
    with hr have "VirtualMachine_restoreSnapshot K vm snap (e_host e) = Some (cr, cs, hr)" by simp
    from restored_view [OF laws v snap(1) w(1) _ this] w(2) c(1) show ?thesis by simp
  qed
  moreover have "V h' = V hr" using st view_frameD(7) [OF l(8)] by (auto simp: heap_store_def)
  moreover have "h_runs h' = h_runs (e_host e)"
  proof -
    have "h_runs hr = h_runs (e_host e)"
      using hr v setRegs_ok(2) [OF l(1)] setSregs_ok(2) [OF l(1)]
      by (fastforce simp: VirtualMachine_restoreSnapshot_def dest!: restore_regions_shape split: if_splits prod.splits Option.bind_splits)
    with st heap_store_block(3) show ?thesis by metis
  qed
  moreover have "region_live h' r" using main_inv_live [OF p(2)] vm(2) by simp
  ultimately show ?thesis
    using p(1,2) s bytes unfolding in_session_def attached_def by (intro exI [of _ h']) (simp add: log_of_def)
qed

lemma session_runs:
  assumes laws: "session_laws (K :: 'k kernel) V af" and vm: "machine_ok vm v" "vm_memoryRegions vm = [r]"
    and snap: "boot_snapshot K v b ram0 snap" "snap_fits vm snap"
    and "in_session K V vm v r t e c data ram dev log n" and "c_pending c = None" and "i = 0 \<Longrightarrow> c = b \<and> ram = ram0"
  shows "\<exists>t' e' c' data' ram'. fuzz_runs K message vm snap k i t e = Some (True, t', e') \<and>
    in_session K V vm v r t' e' c' data' ram' ((dev_written 0x42 ^^ k) dev) (log @ concat (replicate k run_events)) (n + 4 * of_nat k)"
  using assms(6-8)
proof (induction k arbitrary: i t e c data ram dev log n)
  case 0
  then show ?case by auto
next
  case (Suc k)
  have I: "ignores_printing (main_inv vm :: 'k main_app app_inv)" by (rule main_inv_user)
  let ?ram = "ram0[0x2000 := fuzzInput ! (i mod 3)]"
  from session_prepared [OF laws Suc.prems(1) vm snap Suc.prems(2,3)] obtain h1 where
    h1: "fuzz_prepare K vm snap i (e_host e) = Some (ok_code, ok_code, h1)"
    and s1: "in_session K V vm v r t (e\<lparr>e_host := h1\<rparr>) b data ?ram dev log n" by auto
  have ready1: "env_ready (main_inv vm) (v_runPage v) (e\<lparr>e_host := h1\<rparr>)" using s1 by (simp add: in_session_def)
  obtain e1 where e1: "say_prepared message vm ok_code ok_code i (e\<lparr>e_host := h1\<rparr>) = Some e1" "env_ready (main_inv vm) (v_runPage v) e1"
    using say_prepared_ready [OF I vm(1) ready1 main_inv_live [OF ready1]] by blast
  have s2: "in_session K V vm v r t e1 b data ?ram dev log n"
    using in_session_printed [OF s1 _ _ _ e1(2)] say_prepared_same [OF e1(1)] by simp
  have "booted b" "holds_guest ?ram" using snap(1) holds_guest_update by (simp_all add: boot_snapshot_def)
  from session_run [OF laws s2 this] obtain t2 e2 c2 data2 where
    l: "InstructionTrapper_runLoop K 0 t e1 = Some (RR_Halt, t2, e2)"
    and s3: "in_session K V vm v r t2 e2 c2 data2 ?ram (dev_written 0x42 dev) (log @ run_events) (n + 4)"
    and c2: "c_pending c2 = None" by blast
  let ?e3 = "say_result RR_Halt (say (exits_line t2) e2)"
  have "env_ready (main_inv vm) (v_runPage v) ?e3"
    using s3 by (simp add: in_session_def say_result_ready(1) [OF I] say_exits_ready [OF I])
  then have s4: "in_session K V vm v r t2 ?e3 c2 data2 ?ram (dev_written 0x42 dev) (log @ run_events) (n + 4)"
    using in_session_printed [OF s3] say_result_same by blast
  from Suc.IH [OF s4 c2, of "i + 1"] obtain t' e' c' data' ram' where
    f: "fuzz_runs K message vm snap k (i + 1) t2 ?e3 = Some (True, t', e')"
    and s5: "in_session K V vm v r t' e' c' data' ram' ((dev_written 0x42 ^^ k) (dev_written 0x42 dev))
      ((log @ run_events) @ concat (replicate k run_events)) (n + 4 + 4 * of_nat k)" by auto
  from f have "fuzz_runs K message vm snap (Suc k) i t e = Some (True, t', e')"
    by (simp add: h1 e1(1) l Let_def)
  with s5 show ?case by (auto simp: funpow_swap1 algebra_simps)
qed

end
