(* ===== verification/Session_Main.thy ===== *)
theory Session_Main
  imports Guest_Session
begin

text \<open>
  The whole program with its guest: what the loader leaves for the processor, the snapshot of it, the three
  runs, and what is reported of them.
\<close>

section \<open>From the loader to the first run\<close>

lemma view_regsD:
  assumes "view_regs K V" and "kv_vm (V h) fd \<noteq> None" "c_pending (kv_cpu (V h) fd) = None"
  shows "kregs K fd h = Some (c_regs (kv_cpu (V h) fd))" and "ksregs K fd h = Some (c_sregs (kv_cpu (V h) fd))"
  using assms(1) [unfolded view_regs_def, rule_format, OF assms(2,3)] by blast+

lemma region_created_view:
  assumes laws: "view_frame K V" "view_create K V" and c: "MemoryRegion_create K fd slot gpa n flags h = (Inr r, h')"
    and new: "kv_slots (V h) fd = []" and n: "n \<noteq> 0"
  shows "kv_slots (V h') fd = [(gpa, n, m_hostAddr r)]"
proof -
  obtain p h1 where mm: "sys_mmap K n h = (p, h1)" by fastforce
  obtain rc2 h2 where adv: "sys_madvise K p n h1 = (rc2, h2)" by fastforce
  let ?u = "\<lparr>umr_slot = slot, umr_flags = flags, umr_guest_phys_addr = gpa, umr_memory_size = n, umr_userspace_addr = p\<rparr>"
  obtain rc h3 where io: "sys_ioctl K fd (KVM_SET_USER_MEMORY_REGION ?u) h2 = (rc, h3)" by fastforce
  have "V h2 = V h" using view_frameD(4) [OF laws(1) mm] view_frameD(5) [OF laws(1) adv] by simp
  then have "0 \<le> rc \<Longrightarrow> kv_slots (V h3) fd = [(umr_guest_phys_addr ?u, umr_memory_size ?u, umr_userspace_addr ?u)]"
    using laws(2) io new n unfolding view_create_def by simp
  then show ?thesis
    using c mm adv io by (auto simp: MemoryRegion_create_def Let_def split: if_splits prod.splits)
qed

lemma vcpu_created_view:
  assumes laws: "view_create K V" and c: "VCpu_create K fd i n h = (Inr v, h')"
  shows "kv_slots (V h') = kv_slots (V h)" "kv_vm (V h') (v_fd v) = Some fd" "kv_page (V h') (v_fd v) = Some (v_runPage v)"
    "c_pending (kv_cpu (V h') (v_fd v)) = None"
proof -
  obtain f h1 where io: "sys_ioctl K fd (KVM_CREATE_VCPU (ucast i)) h = (f, h1)" by fastforce
  obtain p h2 where mm: "sys_mmap_vcpu K f (of_int n) h1 = (p, h2)" by fastforce
  have ok: "0 \<le> f" "p \<noteq> MAP_FAILED" "h' = h2" "v_fd v = f" "v_runPage v = p"
    using c io mm by (auto simp: VCpu_create_def Let_def split: if_splits prod.splits)
  have "kv_slots (V h1) = kv_slots (V h) \<and> kv_vm (V h1) f = Some fd \<and> c_pending (kv_cpu (V h1) f) = None"
    using laws io ok(1) unfolding view_create_def by blast
  moreover have "V h2 = (V h1)\<lparr>kv_page := (kv_page (V h1))(f \<mapsto> p)\<rparr>"
    using laws mm ok(2) unfolding view_create_def by blast
  ultimately show "kv_slots (V h') = kv_slots (V h)" "kv_vm (V h') (v_fd v) = Some fd" "kv_page (V h') (v_fd v) = Some (v_runPage v)"
    "c_pending (kv_cpu (V h') (v_fd v)) = None" by (simp_all add: ok)
qed

lemma boot_view:
  assumes laws: "view_frame K V" "view_create K V" and new: "kv_slots (V h) fd = []" and n: "n \<noteq> 0"
    and b: "boot K (VirtualMachine_new fd k) code addr n h = Some (Inr (r, v, vm, h'))"
  shows "kv_vm (V h') (v_fd v) = Some fd" "kv_slots (V h') fd = [(0, n, m_hostAddr r)]"
    "kv_page (V h') (v_fd v) = Some (v_runPage v)" "c_pending (kv_cpu (V h') (v_fd v)) = None"
proof -
  obtain h1 h2 where c: "MemoryRegion_create K fd 0 0 n 0 h = (Inr r, h1)" and w: "MemoryRegion_write r addr code h1 = Some h2"
    and v: "VCpu_create K fd 0 k h2 = (Inr v, h')"
    using b by (auto simp: boot_def VirtualMachine_addMemoryRegion_def VirtualMachine_addVCpu_def VirtualMachine_new_def Let_def
        split: prod.splits sum.splits if_splits Option.bind_splits)
  have "V h2 = V h1" using region_write_heap [OF w] view_frameD(7) [OF laws(1)] by (auto simp: heap_store_def)
  with vcpu_created_view [OF laws(2) v] region_created_view [OF laws c new n]
  show "kv_vm (V h') (v_fd v) = Some fd" "kv_slots (V h') fd = [(0, n, m_hostAddr r)]"
    "kv_page (V h') (v_fd v) = Some (v_runPage v)" "c_pending (kv_cpu (V h') (v_fd v)) = None" by simp_all
qed

text \<open>Setting up the registers keeps the rest.\<close>

lemma setup_view:
  assumes laws: "session_laws K V af" and v: "kv_vm (V h) (v_fd v) \<noteq> None" "c_pending (kv_cpu (V h) (v_fd v)) = None"
    and su: "GuestLoader_setupRealModeVCpu K v ip h = (ok_code, h')"
  shows "\<exists>c. V h' = set_cpu (v_fd v) c (V h) \<and> c_pending c = None"
proof -
  note l = session_lawsD [OF laws]
  obtain sr h1 where g: "VCpu_getSregs K v h = (sr, h1)" by fastforce
  have V1: "V h1 = V h" using g view_frameD(3) [OF l(8)] by (auto simp: VCpu_getSregs_def split: prod.splits if_splits)
  obtain s s' h2 where sr: "sr = Inr s" and s2: "VCpu_setSregs K v s' h1 = (ok_code, h2)"
    and s3: "VCpu_setRegs K v (kvm_regs0\<lparr>rip := ucast ip, rsp := 0xFFF0, rflags := 2\<rparr>) h2 = (ok_code, h')"
    using su g getSregs_errno [OF l(7)] by (auto simp: GuestLoader_setupRealModeVCpu_def Let_def split: sum.splits prod.splits if_splits)
  from set_view(2) [OF laws _ _ s2] v V1 have V2: "V h2 = set_cpu (v_fd v) ((kv_cpu (V h) (v_fd v))\<lparr>c_sregs := s'\<rparr>) (V h)" by simp
  have "bit (2 :: u64) 1" by (simp add: bit_iff_odd)
  with set_view(1) [OF laws _ _ s3] v V2 show ?thesis by auto
qed

lemma holds_image: "holds_guest (image_at 0x80000 0x1000 (assemble simpleGuest))"
proof -
  have at: "take (length code) (drop n (replicate n 0 @ code @ x)) = code" for n and code x :: "byte list" by simp
  have len: "length (image_at n addr code) = unat n" if "unat addr + length code \<le> unat n" for n addr and code :: "byte list"
    using that by (simp add: image_at_def)
  have "length (image_at 0x80000 0x1000 (assemble simpleGuest)) = 0x80000"
    by (subst len) (simp_all add: assemble_simpleGuest)
  moreover have "unat (0x1000 :: u64) = 0x1000" by simp
  ultimately show ?thesis
    unfolding holds_guest_def using at [where n = "0x1000"] by (simp only: image_at_def simp_thms)
qed

lemma session_loaded:
  assumes laws: "session_laws K V af" and new: "kv_slots (V h) fd = []"
    and ld: "GuestLoader_loadBytes K (VirtualMachine_new fd k) (assemble simpleGuest) 0x1000 0x80000 h = Some (ok_code, vm, h')"
  shows "\<exists>v r. vm_memoryRegions vm = [r] \<and> machine_ok vm v \<and> attached V v r h' \<and> page_ready (v_runPage v) h' \<and>
    booted (kv_cpu (V h') (v_fd v)) \<and> holds_guest (region_bytes h' r)"
proof -
  note l = session_lawsD [OF laws]
  have len: "length (assemble simpleGuest) = 19" by (simp add: assemble_simpleGuest)
  have wrap: "unat (0x1000 :: u64) + length (assemble simpleGuest) < 2 ^ 64" by (simp add: len)
  from l(4-6) wrap show ?thesis
  proof (cases rule: boot_cases [where vm = "VirtualMachine_new fd k" and n = "0x80000" and h = h])
    case (early ec vm1 h1)
    with ld show ?thesis by (simp add: loadBytes_boot)
  next
    case (booted r v vm2 h3)
    obtain ec h4 where su4: "GuestLoader_setupRealModeVCpu K v (ucast (0x1000 AND 0xFFFF :: u64)) h3 = (ec, h4)" by fastforce
    with ld booted(1) have "ec = ok_code" "h4 = h'" and vm: "vm2 = vm" by (simp_all add: loadBytes_boot)
    with su4 have su: "GuestLoader_setupRealModeVCpu K v (ucast (0x1000 AND 0xFFFF :: u64)) h3 = (ok_code, h')" by (simp only:)
    have "(0x80000 :: u64) \<noteq> 0" by simp
    note v3 = boot_view [OF l(8,9) new this booted(1)]
    have "kv_vm (V h3) (v_fd v) \<noteq> None" using v3(1) by simp
    from setup_view [OF laws this v3(4) su] obtain c where c: "V h' = set_cpu (v_fd v) c (V h3)" "c_pending c = None" by blast
    note up = setupRealMode_spec [OF l(1,6,7) su]
    have runs: "h_runs h' = h_runs h3" by (rule setupRealMode_runs [OF l(1) su])
    have live: "region_live h' r" using booted(5) region_live_cong [OF up(1)] by simp
    have att: "attached V v r h'" using v3 c(1) live booted(4) by (simp add: attached_def)
    have "kv_vm (V h') (v_fd v) \<noteq> None" "c_pending (kv_cpu (V h') (v_fd v)) = None" using c v3(1) by simp_all
    from view_regsD [OF l(10) this] have "kregs K (v_fd v) h' = Some (c_regs c)" "ksregs K (v_fd v) h' = Some (c_sregs c)"
      by (simp_all add: c(1))
    with up(2) have regs: "c_regs c = kvm_regs0\<lparr>rip := ucast (ucast (0x1000 AND 0xFFFF :: u64) :: u16), rsp := 0xFFF0, rflags := 2\<rparr>"
      and rm: "real_mode (c_sregs c)" by auto
    have two: "bit (2 :: u64) 1" by (simp add: bit_iff_odd)
    have "Guest_Session.booted c"
      using c(2) rm regs two by (simp add: Guest_Session.booted_def fetching_def real_mode_def)
    moreover have "holds_guest (region_bytes h' r)"
      using holds_image unfolding booted(6) region_bytes_cong [OF up(1)] .
    moreover have "machine_ok vm v"
      using booted(4,9,10) vm by (simp add: machine_ok_def VirtualMachine_new_def)
    moreover have "vm_memoryRegions vm = [r]" using booted(9) vm by (simp add: VirtualMachine_new_def)
    moreover have "page_ready (v_runPage v) h'" using booted(8) runs by (simp add: page_ready_def)
    ultimately show ?thesis using att c(1) by (intro exI [of _ v] exI [of _ r]) simp
  qed
qed

lemma build_cpuid_view:
  assumes "build_cpuid K leaves es d s = Some (es', d', s')" and "agent_subscribed K d" "listeners_keep (view_kept K V) d"
  shows "view_kept K V s s' \<and> agent_subscribed K d' \<and> listeners_keep (view_kept K V) d' \<and>
    (\<exists>evs. log_of s' = log_of s @ evs \<and> length evs = length leaves \<and> (\<forall>ev \<in> set evs. ev_type ev = ET_CpuidAccess))"
  using assms
proof (induction leaves arbitrary: es d s)
  case Nil
  then show ?case using unseen.same by auto
next
  case (Cons leaf leaves)
  obtain e now ce s1 es1 d1 s2 where c: "on_host (clock_now K) (say (cpuid_line e) s) = (now, s1)"
    and p: "EventDispatcher_publish d \<lparr>ev_type = ET_CpuidAccess, ev_vcpu_id = 0, ev_rip = 0, ev_timestamp = now,
          ev_payload = PL_Cpuid ce\<rparr> s1 = Some (d1, s2)"
    and rest: "build_cpuid K leaves es1 d1 s2 = Some (es', d', s')"
    by (rule build_cpuid_round [of K s leaf leaves es d]) (use Cons.prems(1) in \<open>auto split: Option.bind_splits\<close>)
  have k1: "view_kept K V s s1" by (rule unseen.compose [OF view_kept_print(1) unseen.on_host_clock [OF c]])
  have log1: "log_of s1 = log_of s" using on_hostD(2) [OF c] by (simp add: log_of_def)
  note q = publish_logs [OF Cons.prems(2) p] unseen.publish [OF Cons.prems(3) p]
  from Cons.IH [OF rest] q obtain evs where r: "view_kept K V s2 s'" "agent_subscribed K d'" "listeners_keep (view_kept K V) d'"
    "log_of s' = log_of s2 @ evs" "length evs = length leaves" "\<forall>ev \<in> set evs. ev_type ev = ET_CpuidAccess" by blast
  have "view_kept K V s s'" using unseen.compose [OF k1 unseen.compose [OF _ r(1)]] q(2) by blast
  then show ?case using r q(1) log1
    by (intro conjI exI [of _ "\<lparr>ev_type = ET_CpuidAccess, ev_vcpu_id = 0, ev_rip = 0, ev_timestamp = now, ev_payload = PL_Cpuid ce\<rparr> # evs"]) simp_all
qed

text \<open>The snapshot has the processor's registers and the memory.\<close>

lemma boot_snapshot_taken:
  assumes laws: "session_laws K V af" and v: "vm_vcpus vm = v # vs" "vm_memoryRegions vm = [r]"
    and w: "attached V v r h" "kv_cpu (V h) (v_fd v) = b" "booted b" "holds_guest (region_bytes h r)"
    and s: "VirtualMachine_takeSnapShot K vm h = Some (snap, h')"
  shows "boot_snapshot K v b (region_bytes h r) snap" and "V h' = V h" and "h_heap h' = h_heap h" and "h_runs h' = h_runs h"
proof -
  note l = session_lawsD [OF laws]
  obtain g h1 where g: "VCpu_getRegs K v h = (g, h1)" by fastforce
  obtain g' h2 where g': "VCpu_getSregs K v h1 = (g', h2)" by fastforce
  note k = getRegs_kregs [OF l(1) g] getSregs_ksregs [OF l(1) g']
  have "kv_vm (V h) (v_fd v) \<noteq> None" "c_pending (kv_cpu (V h) (v_fd v)) = None"
    using w by (auto simp: attached_def booted_def fetching_def)
  from view_regsD [OF l(10) this] w(2) have r: "kregs K (v_fd v) h = Some (c_regs b)" "ksregs K (v_fd v) h = Some (c_sregs b)"
    by simp_all
  with k have gg: "g = Inr (c_regs b)" "g' = Inr (c_sregs b)" by (auto split: sum.splits)
  have heap: "h_heap h2 = h_heap h" "h_runs h2 = h_runs h" using k by simp_all
  have "\<forall>q \<in> set (vm_memoryRegions vm). region_live h2 q"
    using w(1) v(2) region_live_cong [OF heap(1)] by (simp add: attached_def)
  from snapshot_regions_live [OF this] have m: "snapshot_regions (vm_memoryRegions vm) h2 = Some [region_bytes h r]"
    using v(2) region_bytes_cong [OF heap(1)] by simp
  have h': "h' = h2" and sn: "snap_regs snap = c_regs b" "snap_sregs snap = c_sregs b" "snap_memoryRegions snap = [region_bytes h r]"
    using s v(1) g g' gg m by (auto simp: VirtualMachine_takeSnapShot_def)
  show "boot_snapshot K v b (region_bytes h r) snap" using sn w r(2) by (auto simp: boot_snapshot_def)
  have "V h1 = V h" using g view_frameD(2) [OF l(8)] by (auto simp: VCpu_getRegs_def split: prod.splits if_splits)
  moreover have "V h2 = V h1" using g' view_frameD(3) [OF l(8)] by (auto simp: VCpu_getSregs_def split: prod.splits if_splits)
  ultimately show "V h' = V h" and "h_heap h' = h_heap h" and "h_runs h' = h_runs h" using heap h' by simp_all
qed

section \<open>The session\<close>

text \<open>What the program reports of a session: nine events of the CPUID table, then three times those of a run.\<close>

definition session_log :: "IntrospectionEvent list \<Rightarrow> bool" where
  "session_log log \<longleftrightarrow> (\<exists>cpuid. map (event_of \<circ> ie_base) log = cpuid @ concat (replicate 3 run_events) \<and>
     length cpuid = length cpuid_leaves \<and> (\<forall>x \<in> set cpuid. fst x = ET_CpuidAccess))"

definition twelve_exits :: "stream \<times> string" where
  "twelve_exits = (Stdout, ''[+] Guest stopped after 12 exits.'' @ [nl])"

definition session_report :: "console \<Rightarrow> bool" where
  "session_report out \<longleftrightarrow> twelve_exits \<in> set out \<and> last out = total_line 21 \<and>
     (\<exists>log. tagged vmi_tag out = map vmi_line log \<and> session_log log)"

lemma session_log_length:
  assumes "session_log log"
  shows "length log = 21"
proof -
  from assms obtain cpuid where "map (event_of \<circ> ie_base) log = cpuid @ concat (replicate 3 run_events)"
    "length cpuid = length cpuid_leaves" by (auto simp: session_log_def)
  then have "length log = length cpuid_leaves + length (concat (replicate 3 run_events))" by (metis length_append length_map)
  then show ?thesis by (simp add: cpuid_leaves_def run_events_def length_concat sum_list_replicate)
qed

lemma twelve_exits_line: "it_exitCount t = 12 \<Longrightarrow> (Stdout, exits_line t @ [nl]) = twelve_exits"
  by (simp add: exits_line_def twelve_exits_def dec_word_def dec_nat.simps digit_char_def digit_chars_def)

lemma main_finish_prints:
  assumes "main_finish K L s vm t e = Some (code, out, h')"
  shows "code = 0" "tagged vmi_tag out = tagged vmi_tag (printed e)" "(Stdout, exits_line t @ [nl]) \<in> set out"
proof -
  from assms obtain d where "it_dispatch t = Some d" by (cases "it_dispatch t") (auto simp: main_finish_def Let_def)
  with assms have out: "out = println_on Stdout (''[+] Total events dispatched: '' @ dec_word (d_publishedCount d))
    (println_on Stdout ''[+] VMI event log written to vmi_events.json'' (println_on Stdout (exits_line t) (printed e)))"
    and code: "code = 0"
    by (auto simp: main_finish_def main_exit_def user_println_def Let_def)
  from code show "code = 0" .
  show "tagged vmi_tag out = tagged vmi_tag (printed e)" by (simp add: out tagged_println exits_line_def)
  show "(Stdout, exits_line t @ [nl]) \<in> set out" by (simp add: out println_on_def print_on_def)
qed

text \<open>The CPUID table and its installation leave the machine alone.\<close>

lemma table_unseen:
  assumes laws: "session_laws K V af" and up: "set_up K vm v out h d es d1 e1 ec h1 snap e2"
  shows "V h1 = V h" "h_heap h1 = h_heap h" "h_runs h1 = h_runs h" "ms_mmio (aa_user (e_app e1)) = MmioDeviceState0"
    and "wired_trapper K V (main_trapper K v d1)"
    and "\<exists>evs. log_of e1 = evs \<and> length evs = length cpuid_leaves \<and> (\<forall>ev \<in> set evs. ev_type ev = ET_CpuidAccess)"
proof -
  note w = session_lawsD [OF laws] and u = set_upD [OF up]
  let ?w = "wired K vm out h"
  from build_cpuid_view [OF u(2) main_listeners_ok(2) [OF w(1,2) u(1)] main_listeners_unseen [OF u(1)]] obtain evs where
    k: "view_kept K V ?w e1" "agent_subscribed K d1" "listeners_keep (view_kept K V) d1"
    and evs: "log_of e1 = log_of ?w @ evs" "length evs = length cpuid_leaves" "\<forall>ev \<in> set evs. ev_type ev = ET_CpuidAccess" by blast
  have "prints_only (e_app ?w)" by (simp add: prints_only_def wired_def main_listeners_eq)
  then have e1: "V (e_host e1) = V h" "h_heap (e_host e1) = h_heap h" "h_runs (e_host e1) = h_runs h"
    "ms_mmio (aa_user (e_app e1)) = MmioDeviceState0"
    using k(1) w(1,2,8) by (simp_all add: view_kept_def wired_def)
  show "ms_mmio (aa_user (e_app e1)) = MmioDeviceState0" by (rule e1(4))
  show "V h1 = V h" "h_heap h1 = h_heap h" "h_runs h1 = h_runs h"
    using installCpuid_frame [OF w(4) u(3)] u(3) e1 view_frameD(6) [OF w(8)]
    by (auto simp: VCpu_installCpuid_def Let_def split: prod.splits if_splits)
  show "wired_trapper K V (main_trapper K v d1)"
    using k(2,3) by (simp add: wired_trapper_def main_trapper_def InstructionTrapper_new_def)
  show "\<exists>evs. log_of e1 = evs \<and> length evs = length cpuid_leaves \<and> (\<forall>ev \<in> set evs. ev_type ev = ET_CpuidAccess)"
    using evs by simp
qed

lemma session_started:
  assumes laws: "session_laws (K :: 'k kernel) V af" and vm: "machine_ok vm v" "vm_memoryRegions vm = [r]" and att: "attached V v r h"
    and page: "page_ready (v_runPage v) h" and c: "booted (kv_cpu (V h) (v_fd v))" "holds_guest (region_bytes h r)"
    and up: "set_up K vm v out h d es d1 e1 ec h1 snap e2"
  shows "\<exists>data cpuid. in_session K V vm v r (main_trapper K v d1) e2 (kv_cpu (V h) (v_fd v)) data (region_bytes h r) MmioDeviceState0 cpuid 0 \<and>
    boot_snapshot K v (kv_cpu (V h) (v_fd v)) (region_bytes h r) snap \<and>
    length cpuid = length cpuid_leaves \<and> (\<forall>x \<in> set cpuid. fst x = ET_CpuidAccess)"
proof -
  note w = session_lawsD [OF laws] and u = set_upD [OF up] and t = table_unseen [OF laws up]
  obtain vs where v: "vm_vcpus vm = v # vs" using vm(1) by (auto simp: machine_ok_def)
  have att1: "attached V v r h1" using att t(1-3) region_live_cong [OF t(2)] by (simp add: attached_def)
  have same1: "kv_cpu (V h1) (v_fd v) = kv_cpu (V h) (v_fd v)" "region_bytes h1 r = region_bytes h r"
    using t(1) region_bytes_cong [OF t(2)] by simp_all
  note sn = boot_snapshot_taken [OF laws v vm(2) att1 same1(1) c(1) _ u(4)]
  have snap: "boot_snapshot K v (kv_cpu (V h) (v_fd v)) (region_bytes h r) snap"
    and h2: "V (e_host e2) = V h" "h_heap (e_host e2) = h_heap h" "h_runs (e_host e2) = h_runs h"
    using sn c(2) t(1-3) same1(2) by simp_all
  obtain run where run: "h_runs h (v_runPage v) = Some run" using page by (auto simp: page_ready_def)
  from t(6) obtain evs where evs: "log_of e1 = evs" "length evs = length cpuid_leaves" "\<forall>ev \<in> set evs. ev_type ev = ET_CpuidAccess" by blast
  have log: "map event_of (log_of e2) = map event_of evs" using evs(1) u(5) by (simp add: log_of_def)
  have "attached V v r (e_host e2)" "region_bytes (e_host e2) r = region_bytes h r"
    using att h2 region_live_cong [OF h2(2)] region_bytes_cong [OF h2(2)] by (simp_all add: attached_def)
  moreover have "it_exitCount (main_trapper K v d1) = 0" by (simp add: main_trapper_def InstructionTrapper_new_def)
  ultimately have "in_session K V vm v r (main_trapper K v d1) e2 (kv_cpu (V h) (v_fd v)) (take 2 (mmio_data (run_mmio run)))
      (region_bytes h r) MmioDeviceState0 (map event_of evs) 0"
    unfolding in_session_def using main_trapper_safe [OF w(1) u(7)] u(6,10) t(4,5) h2 run log by simp
  moreover have "\<forall>x \<in> set (map event_of evs). fst x = ET_CpuidAccess" using evs(3) by (simp add: event_of_def)
  ultimately show ?thesis using snap evs(2) by (metis length_map)
qed

text \<open>The end of a session that had these events.\<close>

lemma session_finish:
  assumes s: "in_session K V vm v r t e c data ram dev (cpuid @ concat (replicate 3 run_events)) 12"
    and cpuid: "length cpuid = length cpuid_leaves" "\<forall>x \<in> set cpuid. fst x = ET_CpuidAccess"
    and r: "\<And>res. main_finish K L kvm_sys vm t e = Some res \<Longrightarrow> \<exists>log. reported K L kvm_sys vm res log"
  shows "\<exists>out h'. main_finish K L kvm_sys vm t e = Some (0, out, h') \<and> session_report out"
proof -
  obtain d where "it_dispatch t = Some d" using s by (auto simp: in_session_def wired_trapper_def)
  then obtain out h' where fin: "main_finish K L kvm_sys vm t e = Some (0, out, h')"
    by (simp add: main_finish_def main_exit_def Let_def)
  let ?log = "vmi_eventLog (aa_agent (e_app e))"
  have log: "session_log ?log" using s cpuid by (auto simp: session_log_def in_session_def log_of_def comp_def)
  have tags: "tagged vmi_tag (printed e) = map vmi_line ?log" using s ready_tags by (auto simp: in_session_def)
  have "it_exitCount t = 12" using s by (simp add: in_session_def)
  note line = twelve_exits_line [OF this] and p = main_finish_prints [OF fin]
  from r [OF fin] obtain log' where r': "tagged vmi_tag out = map vmi_line log'" "last out = total_line (length log')"
    by (auto simp: reported_def)
  have "length log' = length ?log" using r'(1) p(2) tags by (metis length_map)
  then have "session_report out"
    unfolding session_report_def using r'(2) p(2,3) tags log line session_log_length [OF log] by metis
  with fin show ?thesis by blast
qed

lemma session_guest:
  assumes laws: "session_laws (K :: 'k kernel) V af" and vm: "machine_ok vm v" "vm_memoryRegions vm = [r]" and att: "attached V v r h"
    and page: "page_ready (v_runPage v) h" and c: "booted (kv_cpu (V h) (v_fd v))" "holds_guest (region_bytes h r)"
    and out: "tagged vmi_tag out = []"
  shows "\<exists>code out' h'. main_guest K L s vm out h = Some (code, out', h') \<and> code \<in> {0, 1} \<and> (code = 0 \<longrightarrow> session_report out') \<and>
    (code = 1 \<longrightarrow> (\<exists>c h0. fst (sys_ioctl K (v_fd v) (KVM_SET_CPUID2 c) h0) < 0))"
proof -
  note w = session_lawsD [OF laws]
  have live: "\<forall>r \<in> set (vm_memoryRegions vm). region_live h r" using att vm(2) by (simp add: attached_def)
  show ?thesis
  proof (rule main_guest_start [OF w(1,2,4) vm(1) live page out, where L = L and kvm_sys = s])
    fix d es d1 e1 ec h1 snap e2
    assume up: "set_up K vm v out h d es d1 e1 ec h1 snap e2"
      and eq: "main_guest K L s vm out h = after_setup K L s vm ec h1 e1 snap (main_trapper K v d1) e2"
    note u = set_upD [OF up]
    show ?thesis
    proof (cases "ec = ok_code")
      case False
      then have "fst (sys_ioctl K (v_fd v) (KVM_SET_CPUID2 \<lparr>c2_nent = of_nat (length es), c2_entries = es\<rparr>) (e_host e1)) < 0"
        using u(3) by (auto simp: VCpu_installCpuid_def Let_def split: prod.splits if_splits)
      with False show ?thesis by (auto simp: eq after_setup_def main_exit_def)
    next
      case True
      from session_started [OF laws vm att page c up] obtain data cpuid where
        st: "in_session K V vm v r (main_trapper K v d1) e2 (kv_cpu (V h) (v_fd v)) data (region_bytes h r) MmioDeviceState0 cpuid 0"
        and snap: "boot_snapshot K v (kv_cpu (V h) (v_fd v)) (region_bytes h r) snap"
        and cpuid: "length cpuid = length cpuid_leaves" "\<forall>x \<in> set cpuid. fst x = ET_CpuidAccess" by blast
      have "c_pending (kv_cpu (V h) (v_fd v)) = None" using c(1) by (simp add: booted_def fetching_def)
      from session_runs [OF laws vm snap u(8) st this, of 0 "ec_message L" 3] obtain t' e' c' data' ram' where
        f: "fuzz_runs K (ec_message L) vm snap 3 0 (main_trapper K v d1) e2 = Some (True, t', e')"
        and s': "in_session K V vm v r t' e' c' data' ram' ((dev_written 0x42 ^^ 3) MmioDeviceState0)
          (cpuid @ concat (replicate 3 run_events)) 12" by auto
      have g: "main_guest K L s vm out h = main_finish K L s vm t' e'" by (simp add: eq after_setup_def True f)
      have "\<exists>log. reported K L s vm res log" if "main_finish K L s vm t' e' = Some res" for res
        using main_guest_reported [OF w(1-4) vm(1) live page out, of L s res] g that by simp
      from session_finish [OF s' cpuid this] g show ?thesis by auto
    qed
  qed
qed

text \<open>The new machine has no memory when the guest is loaded.\<close>

lemma machine_unmapped:
  assumes laws: "session_laws K V af" and c: "KvmSystem_createVm K s h2 = (Inr (VirtualMachine_new fd n), h3)"
    and x: "KvmSystem_checkExtension K s cap h3 = (ext, h4)"
    and e: "(if ext then VirtualMachine_enableEmulationExits K (VirtualMachine_new fd n) h4 else (ok_code, h4)) = (ec, h1)"
  shows "kv_slots (V h1) fd = []"
proof -
  note l = session_lawsD [OF laws]
  obtain rc h5 where io: "sys_ioctl K (s_fd s) KVM_CREATE_VM h2 = (rc, h5)" by fastforce
  have "0 \<le> rc" "rc = fd" "h3 = h5"
    using c io by (auto simp: KvmSystem_createVm_def VirtualMachine_new_def Let_def split: if_splits prod.splits)
  moreover have "0 \<le> rc \<Longrightarrow> kv_slots (V h5) rc = []" using l(9) io unfolding view_create_def by blast
  moreover have "V h4 = V h3"
    using x view_frameD(6) [OF l(8)] by (auto simp: KvmSystem_checkExtension_def split: prod.splits)
  moreover have "V h1 = V h4"
    using e view_frameD(6) [OF l(8)] by (auto simp: VirtualMachine_enableEmulationExits_def Let_def split: prod.splits if_splits)
  ultimately show ?thesis by simp
qed

definition guest_image :: "'k kernel \<Rightarrow> bool" where
  "guest_image K \<longleftrightarrow> (\<forall>h. file_bytes K ''simpleGuest.bin'' h = Some (assemble simpleGuest))"

lemma main_session:
  assumes laws: "session_laws (K :: 'k kernel) V af" and image: "guest_image K"
  shows "\<exists>code out h'. main K L h = Some (code, out, h') \<and> code \<in> {0, 1} \<and> (code = 0 \<longrightarrow> session_report out)"
proof (cases rule: main_cases [of K L h])
  case (early out h')
  then show ?thesis by simp
next
  case (loading s fd n out code h0 h1 h2 h3 h4 ext ec)
  note l = session_lawsD [OF laws]
  have code: "code = assemble simpleGuest" using image loading(3) by (simp add: guest_image_def)
  note new = machine_unmapped [OF laws loading(4-6)]
  have len: "length (assemble simpleGuest) < 2 ^ 63" by (simp add: assemble_simpleGuest)
  from loadBytes_machine [OF l(4-6,1,7) len, of fd n h1] obtain ec1 vm h5 where
    ld: "GuestLoader_loadBytes K (VirtualMachine_new fd n) (assemble simpleGuest) 0x1000 0x80000 h1 = Some (ec1, vm, h5)" by blast
  show ?thesis
  proof (cases "ec1 = ok_code")
    case False
    with loading(1) show ?thesis by (simp add: main_load_def code ld main_exit_def)
  next
    case True
    from session_loaded [OF laws new ld [unfolded True]] obtain v r where vm: "machine_ok vm v" "vm_memoryRegions vm = [r]"
      "attached V v r h5" "page_ready (v_runPage v) h5" "booted (kv_cpu (V h5) (v_fd v))" "holds_guest (region_bytes h5 r)" by blast
    have "tagged vmi_tag (println_on Stdout ''[+] Guest code loaded at GPA 0x1000'' out) = []"
      by (simp add: tagged_println loading(2))
    from session_guest [OF laws vm this, of L s] loading(1) True show ?thesis by (auto simp: main_load_def code ld)
  qed
qed

end
