(* ===== verification/X86_Kernel.thy ===== *)
theory X86_Kernel
  imports Session_Main
begin

text \<open>
  A kernel that runs guests on the processor of theory \<open>Guest_Program\<close>, for the closed instance of the
  theorem about a whole session. Its state is what KVM knows of the machines and the next free descriptor
  and address. It satisfies every law that the session relies on. It models no source file.
\<close>

section \<open>The kernel\<close>

record x86 =
  x_view :: kvm_view
  x_next_fd :: nat
  x_next_addr :: u64

abbreviation upd_view :: "(kvm_view \<Rightarrow> kvm_view) \<Rightarrow> x86 host \<Rightarrow> x86 host" where
  "upd_view f h \<equiv> h\<lparr>h_kern := (h_kern h)\<lparr>x_view := f (x_view (h_kern h))\<rparr>\<rparr>"

abbreviation x86_view :: "x86 host \<Rightarrow> kvm_view" where
  "x86_view h \<equiv> x_view (h_kern h)"

definition x86_new_fd :: "(int \<Rightarrow> kvm_view \<Rightarrow> kvm_view) \<Rightarrow> x86 host \<Rightarrow> int \<times> x86 host" where
  "x86_new_fd f h =
     (let fd = int (x_next_fd (h_kern h)) in
      (fd, h\<lparr>h_kern := (h_kern h)\<lparr>x_next_fd := x_next_fd (h_kern h) + 1, x_view := f fd (x86_view h)\<rparr>\<rparr>))"

definition x86_reset :: cpu where
  "x86_reset = \<lparr>c_regs = kvm_regs0\<lparr>rflags := 2\<rparr>, c_sregs = kvm_sregs0, c_pending = None\<rparr>"

fun exit_page :: "guest_exit \<Rightarrow> kvm_run" where
  "exit_page GX_Halt = kvm_run0\<lparr>exit_reason := 5\<rparr>"
| "exit_page (GX_Read addr) = kvm_run0\<lparr>exit_reason := 6,
     run_mmio := \<lparr>mmio_phys_addr = addr, mmio_data = replicate 8 0, mmio_len = 2, mmio_is_write = 0\<rparr>\<rparr>"
| "exit_page (GX_Write addr w) = kvm_run0\<lparr>exit_reason := 6,
     run_mmio := \<lparr>mmio_phys_addr = addr, mmio_data = le_bytes 2 w @ replicate 6 0, mmio_len = 2, mmio_is_write = 1\<rparr>\<rparr>"

text \<open>Entering the guest, if the machine is complete and the guest leaves again.\<close>

definition x86_enter :: "int \<Rightarrow> x86 host \<Rightarrow> x86 host option" where
  "x86_enter fd h = do {
     m \<leftarrow> kv_vm (x86_view h) fd;
     p \<leftarrow> kv_page (x86_view h) fd;
     run \<leftarrow> h_runs h p;
     a \<leftarrow> (case kv_slots (x86_view h) m of [(g, n, a)] \<Rightarrow> Some a | _ \<Rightarrow> None);
     ram \<leftarrow> h_heap h a;
     (ex, c, ram') \<leftarrow> run_cpu (\<lambda>_. False) (complete_read (mmio_data (run_mmio run)) (kv_cpu (x86_view h) fd)) ram;
     Some (upd_view (set_cpu fd c) (h\<lparr>h_heap := (h_heap h)(a \<mapsto> ram'), h_runs := (h_runs h)(p \<mapsto> exit_page ex)\<rparr>))
   }"

definition x86_ioctl :: "int \<Rightarrow> kvm_request \<Rightarrow> x86 host \<Rightarrow> int \<times> x86 host" where
  "x86_ioctl fd q h =
     (case q of
        KVM_GET_API_VERSION \<Rightarrow> (KVM_API_VERSION, h)
      | KVM_CREATE_VM \<Rightarrow> x86_new_fd (\<lambda>vm. kv_slots_update (\<lambda>s. s(vm := []))) h
      | KVM_CHECK_EXTENSION _ \<Rightarrow> (1, h)
      | KVM_GET_VCPU_MMAP_SIZE \<Rightarrow> (16, h)
      | KVM_SET_USER_MEMORY_REGION u \<Rightarrow>
          (0, upd_view (kv_slots_update (\<lambda>s. s(fd := s fd @ [(umr_guest_phys_addr u, umr_memory_size u, umr_userspace_addr u)]))) h)
      | KVM_CREATE_VCPU _ \<Rightarrow>
          x86_new_fd (\<lambda>v w. w\<lparr>kv_vm := (kv_vm w)(v \<mapsto> fd), kv_cpu := (kv_cpu w)(v := x86_reset)\<rparr>) h
      | KVM_SET_REGS r \<Rightarrow> (0, upd_view (\<lambda>w. set_cpu fd ((kv_cpu w fd)\<lparr>c_regs := r\<rparr>) w) h)
      | KVM_SET_SREGS s \<Rightarrow> (0, upd_view (\<lambda>w. set_cpu fd ((kv_cpu w fd)\<lparr>c_sregs := s\<rparr>) w) h)
      | KVM_RUN \<Rightarrow> (case x86_enter fd h of None \<Rightarrow> (- 1, h\<lparr>h_errno := EINTR\<rparr>) | Some h' \<Rightarrow> (0, h'))
      | _ \<Rightarrow> (0, h))"

text \<open>The next address, if nothing is mapped there.\<close>

definition x86_mmap :: "(u64 \<Rightarrow> x86 host \<Rightarrow> x86 host) \<Rightarrow> x86 host \<Rightarrow> u64 \<times> x86 host" where
  "x86_mmap put h =
     (let p = x_next_addr (h_kern h) in
      if p = 0 \<or> p = MAP_FAILED \<or> h_heap h p \<noteq> None then (MAP_FAILED, h\<lparr>h_errno := ENOMEM\<rparr>)
      else (p, put p (h\<lparr>h_kern := (h_kern h)\<lparr>x_next_addr := p + 0x10000000\<rparr>\<rparr>)))"

definition x86_kernel :: "x86 kernel" where
  "x86_kernel =
     \<lparr>sys_open = (\<lambda>path. x86_new_fd (\<lambda>_ w. w)),
      sys_close = (\<lambda>fd h. (0, h)),
      sys_mmap = (\<lambda>n. x86_mmap (\<lambda>p h. h\<lparr>h_heap := (h_heap h)(p \<mapsto> replicate (unat n) 0)\<rparr>)),
      sys_mmap_vcpu = (\<lambda>fd n. x86_mmap (\<lambda>p h. upd_view (kv_page_update (\<lambda>m. m(fd \<mapsto> p))) (h\<lparr>h_runs := (h_runs h)(p \<mapsto> kvm_run0)\<rparr>))),
      sys_munmap = (\<lambda>p n h. (0, h\<lparr>h_heap := (h_heap h)(p := None)\<rparr>)),
      sys_madvise = (\<lambda>p n h. (0, h)),
      sys_ioctl = x86_ioctl,
      sys_get_regs = (\<lambda>fd h. (0, c_regs (kv_cpu (x86_view h) fd), h)),
      sys_get_sregs = (\<lambda>fd h. (0, c_sregs (kv_cpu (x86_view h) fd), h)),
      clock_now = (\<lambda>h. (0, h)),
      cpu_cpuid = (\<lambda>leaf sub h. (0, 0, 0, 0)),
      file_bytes = (\<lambda>path h. Some (assemble simpleGuest))\<rparr>"

lemma x86_kernel_simps [simp]:
  "sys_open x86_kernel path h = x86_new_fd (\<lambda>_ w. w) h"
  "sys_close x86_kernel fd h = (0, h)"
  "sys_mmap x86_kernel n h = x86_mmap (\<lambda>p h. h\<lparr>h_heap := (h_heap h)(p \<mapsto> replicate (unat n) 0)\<rparr>) h"
  "sys_mmap_vcpu x86_kernel fd n h =
     x86_mmap (\<lambda>p h. upd_view (kv_page_update (\<lambda>m. m(fd \<mapsto> p))) (h\<lparr>h_runs := (h_runs h)(p \<mapsto> kvm_run0)\<rparr>)) h"
  "sys_munmap x86_kernel p n h = (0, h\<lparr>h_heap := (h_heap h)(p := None)\<rparr>)"
  "sys_madvise x86_kernel p n h = (0, h)"
  "sys_ioctl x86_kernel fd q h = x86_ioctl fd q h"
  "sys_get_regs x86_kernel fd h = (0, c_regs (kv_cpu (x86_view h) fd), h)"
  "sys_get_sregs x86_kernel fd h = (0, c_sregs (kv_cpu (x86_view h) fd), h)"
  "clock_now x86_kernel h = (0, h)"
  "file_bytes x86_kernel path h = Some (assemble simpleGuest)"
  by (simp_all add: x86_kernel_def)

section \<open>Its laws\<close>

lemma x86_regs [simp]:
  "kregs x86_kernel fd h = Some (c_regs (kv_cpu (x86_view h) fd))" "ksregs x86_kernel fd h = Some (c_sregs (kv_cpu (x86_view h) fd))"
  by (simp_all add: kregs_def ksregs_def)

lemma x86_ioctl_simps:
  "x86_ioctl fd (KVM_SET_REGS r) h = (0, upd_view (\<lambda>w. set_cpu fd ((kv_cpu w fd)\<lparr>c_regs := r\<rparr>) w) h)"
  "x86_ioctl fd (KVM_SET_SREGS s) h = (0, upd_view (\<lambda>w. set_cpu fd ((kv_cpu w fd)\<lparr>c_sregs := s\<rparr>) w) h)"
  "x86_ioctl fd KVM_RUN h = (case x86_enter fd h of None \<Rightarrow> (- 1, h\<lparr>h_errno := EINTR\<rparr>) | Some h' \<Rightarrow> (0, h'))"
  "x86_ioctl fd KVM_CREATE_VM h = x86_new_fd (\<lambda>vm. kv_slots_update (\<lambda>s. s(vm := []))) h"
  "x86_ioctl fd (KVM_CREATE_VCPU i) h =
     x86_new_fd (\<lambda>v w. w\<lparr>kv_vm := (kv_vm w)(v \<mapsto> fd), kv_cpu := (kv_cpu w)(v := x86_reset)\<rparr>) h"
  "x86_ioctl fd (KVM_SET_USER_MEMORY_REGION u) h =
     (0, upd_view (kv_slots_update (\<lambda>s. s(fd := s fd @ [(umr_guest_phys_addr u, umr_memory_size u, umr_userspace_addr u)]))) h)"
  by (simp_all add: x86_ioctl_def)

lemma x86_ioctl_frame: "x86_ioctl fd q h = (rc, h') \<Longrightarrow> q \<noteq> KVM_RUN \<Longrightarrow> h_heap h' = h_heap h \<and> h_runs h' = h_runs h \<and> 0 \<le> rc"
  by (cases q) (auto simp: x86_ioctl_def x86_new_fd_def KVM_API_VERSION_def Let_def)

lemma x86_reg_laws: "reg_laws x86_kernel"
  by (simp add: reg_laws_def get_frame_def set_regs_law_def set_sregs_law_def regs_not_in_heap_def x86_ioctl_simps)

lemma x86_mem_laws: "mem_laws x86_kernel"
proof -
  have "mmap_law x86_kernel" by (simp add: mmap_law_def x86_mmap_def Let_def)
  moreover have "ioctl_frame x86_kernel" unfolding ioctl_frame_def using x86_ioctl_frame by auto
  ultimately show ?thesis by (auto simp: mem_laws_def madvise_law_def munmap_law_def close_frame_def)
qed

lemma exit_page_fits: "run_fits (exit_page ex)" and exit_page_shows: "shows_exit ex (exit_page ex)"
  by (cases ex; simp add: run_fits_def run_wf_def io_width_def kvm_run0_def le_bytes2)+

lemma cpu_step_length:
  "cpu_step f c ram = Next c' ram' \<Longrightarrow> length ram' = length ram" "cpu_step f c ram = Leave ex c' ram' \<Longrightarrow> length ram' = length ram"
  by (auto simp: cpu_step_def execute_def locate_def Let_def le_bytes2 split: if_splits option.splits instr.splits place.splits)

lemma run_cpu_length:
  assumes "run_cpu af c ram = Some y"
  shows "length (snd (snd y)) = length ram"
proof (rule run_cpu.raw_induct [OF _ assms, where P = "\<lambda>af c ram y. length (snd (snd y)) = length ram"])
  fix run af c ram y
  assume IH: "\<And>af c ram y. run af c ram = Some y \<Longrightarrow> length (snd (snd y)) = length ram"
    and s: "(case cpu_step (af c) c ram of Next c' ram' \<Rightarrow> run af c' ram' | Leave ex c' ram' \<Rightarrow> Some (ex, c', ram') | Stuck \<Rightarrow> None) = Some y"
  show "length (snd (snd y)) = length ram"
  proof (cases "cpu_step (af c) c ram")
    case (Next c' ram')
    with s IH [of af c' ram' y] cpu_step_length(1) [OF Next] show ?thesis by simp
  next
    case (Leave ex c' ram')
    with s cpu_step_length(2) [OF Leave] show ?thesis by auto
  qed (use s in simp)
qed

lemma x86_enterD:
  assumes "x86_enter fd h = Some h'"
  shows "heap_shape h' = heap_shape h" "page_ready p h \<Longrightarrow> page_ready p h'"
  using assms exit_page_fits
  by (auto simp: x86_enter_def heap_shape_def page_ready_def dest!: run_cpu_length split: Option.bind_splits)

lemma x86_run_law: "run_law x86_kernel"
  unfolding run_law_def using x86_enterD
  by (auto simp: x86_ioctl_simps page_ready_def heap_shape_def split: option.splits)

lemma x86_other_laws: "clock_frame x86_kernel" "mapping_law x86_kernel" "errno_law x86_kernel" "get_errno_law x86_kernel"
proof -
  show "clock_frame x86_kernel" "get_errno_law x86_kernel" by (simp_all add: clock_frame_def get_errno_law_def)
  show "mapping_law x86_kernel"
    by (simp add: mapping_law_def x86_mmap_def page_ready_def run_fits_def run_wf_def io_width_def kvm_run0_def errno_defs Let_def)
  show "errno_law x86_kernel"
    unfolding errno_law_def
  proof (intro allI impI)
    fix fd q h rc h'
    assume "sys_ioctl x86_kernel fd q h = (rc, h')" "rc < 0"
    then show "h_errno h' \<noteq> 0"
      using x86_ioctl_frame [of fd q h rc h'] by (cases "q = KVM_RUN") (auto simp: x86_ioctl_simps errno_defs split: option.splits)
  qed
qed

lemma x86_view_frame: "view_frame x86_kernel x86_view"
  unfolding view_frame_def
proof (intro conjI)
  show "\<forall>fd q h rc h'. sys_ioctl x86_kernel fd q h = (rc, h') \<longrightarrow> view_quiet q \<longrightarrow> x86_view h' = x86_view h"
  proof (intro allI impI)
    fix fd q h rc h'
    assume "sys_ioctl x86_kernel fd q h = (rc, h')" "view_quiet q"
    then show "x86_view h' = x86_view h" by (cases q) (auto simp: x86_ioctl_def)
  qed
qed (simp_all add: x86_mmap_def Let_def)

lemma x86_view_create: "view_create x86_kernel x86_view"
  by (simp add: view_create_def x86_ioctl_simps x86_new_fd_def x86_mmap_def x86_reset_def Let_def)

lemma x86_view_regs: "view_regs x86_kernel x86_view"
  by (simp add: view_regs_def x86_ioctl_simps)

lemma x86_view_run: "view_run x86_kernel x86_view (\<lambda>_. False)"
  unfolding view_run_def
proof (intro allI impI)
  fix fd m n a p ram run ex c' ram' h rc h'
  assume "kv_vm (x86_view h) fd = Some m" "kv_slots (x86_view h) m = [(0, n, a)]" "kv_page (x86_view h) fd = Some p"
    "h_heap h a = Some ram" "h_runs h p = Some run"
    "run_cpu (\<lambda>_. False) (complete_read (mmio_data (run_mmio run)) (kv_cpu (x86_view h) fd)) ram = Some (ex, c', ram')"
  then have "x86_enter fd h =
      Some (upd_view (set_cpu fd c') (h\<lparr>h_heap := (h_heap h)(a \<mapsto> ram'), h_runs := (h_runs h)(p \<mapsto> exit_page ex)\<rparr>))"
    by (simp add: x86_enter_def)
  moreover assume "sys_ioctl x86_kernel fd KVM_RUN h = (rc, h')"
  ultimately show "0 \<le> rc \<and> x86_view h' = set_cpu fd c' (x86_view h) \<and> h_heap h' = (h_heap h)(a \<mapsto> ram') \<and>
      (\<exists>run'. h_runs h' = (h_runs h)(p \<mapsto> run') \<and> shows_exit ex run')"
    using exit_page_shows by (auto simp: x86_ioctl_simps)
qed

lemma x86_session_laws: "session_laws x86_kernel x86_view (\<lambda>_. False)"
  unfolding session_laws_def
  using x86_reg_laws x86_mem_laws x86_run_law x86_other_laws x86_view_frame x86_view_create x86_view_regs x86_view_run by blast

lemma x86_guest_image: "guest_image x86_kernel"
  by (simp add: guest_image_def)

section \<open>Nothing fails on it\<close>

definition x86_host :: "x86 host" where
  "x86_host = \<lparr>h_errno = 0, h_heap = Map.empty, h_runs = Map.empty,
     h_kern = \<lparr>x_view = \<lparr>kv_slots = (\<lambda>_. []), kv_vm = Map.empty, kv_page = Map.empty, kv_cpu = (\<lambda>_. x86_reset)\<rparr>,
       x_next_fd = 3, x_next_addr = 0x10000000\<rparr>\<rparr>"

lemma x86_loads:
  assumes "x_next_addr (h_kern h) = 0x10000000" "h_heap h = Map.empty"
  shows "\<exists>vm h'. GuestLoader_loadBytes x86_kernel (VirtualMachine_new fd n) (assemble simpleGuest) 0x1000 0x80000 h = Some (ok_code, vm, h')"
proof -
  have free: "(0x10000000 :: u64) \<noteq> 0" "0x10000000 \<noteq> MAP_FAILED" "(0x20000000 :: u64) \<noteq> 0" "0x20000000 \<noteq> MAP_FAILED"
    by (simp_all add: MAP_FAILED_def)
  let ?u = "\<lparr>umr_slot = 0, umr_flags = 0, umr_guest_phys_addr = 0, umr_memory_size = 0x80000, umr_userspace_addr = 0x10000000\<rparr>"
  let ?r = "\<lparr>m_vmFd = fd, m_slot = 0, m_guestPhysAddr = 0, m_size = 0x80000, m_hostAddr = 0x10000000\<rparr>"
  define ram where "ram = replicate (unat (0x80000 :: u64)) (0 :: byte)"
  define h1 where "h1 = snd (x86_ioctl fd (KVM_SET_USER_MEMORY_REGION ?u)
    (h\<lparr>h_kern := (h_kern h)\<lparr>x_next_addr := 0x20000000\<rparr>, h_heap := [0x10000000 \<mapsto> ram]\<rparr>))"
  have m: "MemoryRegion_create x86_kernel fd 0 0 0x80000 0 h = (Inr ?r, h1)"
    using assms free by (simp add: MemoryRegion_create_def x86_mmap_def x86_ioctl_simps h1_def ram_def Let_def)
  have h1: "h_heap h1 = [0x10000000 \<mapsto> ram]" "x_next_addr (h_kern h1) = 0x20000000" by (simp_all add: h1_def x86_ioctl_simps)
  have len: "length (assemble simpleGuest) = 19" by (simp add: assemble_simpleGuest)
  have "unat (0x1000 :: u64) + length (assemble simpleGuest) \<le> length (block h1 0x10000000)"
    by (simp add: block_def h1 ram_def len)
  then obtain h2 where w: "heap_store h1 0x10000000 (unat (0x1000 :: u64)) (assemble simpleGuest) = Some h2"
    using hb.st_iff by blast
  have "h_heap h2 0x20000000 = None" "x_next_addr (h_kern h2) = 0x20000000"
    using heap_store_block(2) [OF w, of "0x20000000"] heap_store_block(4) [OF w] h1 by simp_all
  then obtain v h3 where v: "VCpu_create x86_kernel fd 0 n h2 = (Inr v, h3)"
    using free by (simp add: VCpu_create_def x86_ioctl_simps x86_new_fd_def x86_mmap_def Let_def)
  have "fst (GuestLoader_setupRealModeVCpu x86_kernel v ip h3) = ok_code" for ip
    by (simp add: GuestLoader_setupRealModeVCpu_def VCpu_getSregs_def VCpu_setSregs_def VCpu_setRegs_def x86_ioctl_simps Let_def)
  then show ?thesis
    using m w v len
    by (simp add: loadBytes_boot boot_def VirtualMachine_addMemoryRegion_def VirtualMachine_addVCpu_def VirtualMachine_new_def
        MemoryRegion_write_def Let_def split_beta del: split_paired_Ex)
qed

lemma x86_exit_code: "main x86_kernel L x86_host = Some (code, out, h') \<Longrightarrow> code = 0"
proof -
  assume m: "main x86_kernel L x86_host = Some (code, out, h')"
  let ?s = "\<lparr>s_fd = 3, s_apiVersion = KVM_API_VERSION, s_vcpuMmapSize = 16\<rparr>"
  define h1 where "h1 = x86_host\<lparr>h_kern := (h_kern x86_host)\<lparr>x_next_fd := 4\<rparr>\<rparr>"
  define h2 where "h2 = snd (x86_ioctl 3 KVM_CREATE_VM h1)"
  have o: "KvmSystem_open x86_kernel ''/dev/kvm'' x86_host = (Inr ?s, h1)"
    by (simp add: KvmSystem_open_def x86_new_fd_def x86_ioctl_def x86_host_def h1_def KVM_API_VERSION_def Let_def)
  have c: "KvmSystem_createVm x86_kernel ?s h1 = (Inr (VirtualMachine_new 4 16), h2)"
    by (simp add: KvmSystem_createVm_def x86_ioctl_simps x86_new_fd_def x86_host_def h1_def h2_def Let_def)
  have h2: "x_next_addr (h_kern h2) = 0x10000000" "h_heap h2 = Map.empty" "kv_slots (x86_view h2) 4 = []"
    by (simp_all add: h1_def h2_def x86_ioctl_simps x86_new_fd_def x86_host_def Let_def)
  have x: "KvmSystem_checkExtension x86_kernel ?s cap h2 = (True, h2)"
    "VirtualMachine_enableEmulationExits x86_kernel (VirtualMachine_new 4 16) h2 = (ok_code, h2)" for cap
    by (simp_all add: KvmSystem_checkExtension_def VirtualMachine_enableEmulationExits_def x86_ioctl_def Let_def)
  obtain vm h3 where ld: "GuestLoader_loadBytes x86_kernel (VirtualMachine_new 4 16) (assemble simpleGuest) 0x1000 0x80000 h2 = Some (ok_code, vm, h3)"
    using x86_loads [OF h2(1,2)] by blast
  have ne: "assemble simpleGuest \<noteq> []" by (simp add: assemble_simpleGuest)
  let ?out = "println_on Stdout ''[+] Guest code loaded at GPA 0x1000'' (say_extension (ec_message L) True ok_code
    (println_on Stdout (''[+] VM created (fd='' @ dec_int (vm_fd (VirtualMachine_new 4 16)) @ '')'')
      (println_on Stdout (''[+] KVM API version: '' @ dec_int KVM_API_VERSION) [])))"
  have g: "main x86_kernel L x86_host = main_guest x86_kernel L ?s vm ?out h3"
    using ne by (simp add: main_def o c x main_load_def ld)
  from session_loaded [OF x86_session_laws h2(3) ld] obtain v r where v: "machine_ok vm v" "vm_memoryRegions vm = [r]"
    "attached x86_view v r h3" "page_ready (v_runPage v) h3" "booted (kv_cpu (x86_view h3) (v_fd v))" "holds_guest (region_bytes h3 r)" by blast
  have t: "tagged vmi_tag ?out = []" by (simp add: tagged_println say_extension_untagged) (simp add: tagged_def)
  have "fst (sys_ioctl x86_kernel fd (KVM_SET_CPUID2 q) h0) = 0" for fd q h0 by (simp add: x86_ioctl_def)
  with session_guest [OF x86_session_laws v t, of L ?s] g m show ?thesis by auto
qed

end
