(* ===== verification/Hv_Tests.thy ===== *)
theory Hv_Tests
  imports Event_Dispatcher Cpuid_Handler Mmio_Handler
begin

text \<open>
  The test programs of tests/testHypervisor.cpp, one definition each. The variables that a test's callbacks
  capture are the record of the application's objects; the result is whether all expectations hold, and
  \<^const>\<open>None\<close> would be undefined behaviour. The clock and the processor's CPUID instruction are the
  kernel parameter's; the address of a test's local \<^verbatim>\<open>kvm_run\<close> is an argument.
\<close>

section \<open>Tests of the event dispatcher\<close>

record counters =
  n_ioReads :: int
  n_catchAll :: int

definition test_PublishRoutes :: "'k kernel \<Rightarrow> 'k host \<Rightarrow> bool option" where
  "test_PublishRoutes K h = do {
     let dispatcher = EventDispatcher0;
     let (ioId, dispatcher) = EventDispatcher_subscribe ET_IoRead
       (\<lambda>_ e. Some (e\<lparr>e_app := (e_app e)\<lparr>n_ioReads := n_ioReads (e_app e) + 1\<rparr>\<rparr>)) dispatcher;
     let (allId, dispatcher) = EventDispatcher_subscribeAll
       (\<lambda>_ e. Some (e\<lparr>e_app := (e_app e)\<lparr>n_catchAll := n_catchAll (e_app e) + 1\<rparr>\<rparr>)) dispatcher;
     let (now, h) = clock_now K h;
     let ioEvent = \<lparr>ev_type = ET_IoRead, ev_vcpu_id = 0, ev_rip = 0x1000, ev_timestamp = now,
       ev_payload = PL_Io \<lparr>ioe_port = 0x60, ioe_size = 1, ioe_value = 0x41, ioe_isWrite = False\<rparr>\<rparr>;
     let (now, h) = clock_now K h;
     let msrEvent = \<lparr>ev_type = ET_MsrWrite, ev_vcpu_id = 0, ev_rip = 0x2000, ev_timestamp = now,
       ev_payload = PL_Msr \<lparr>mse_index = 0xC0000080, mse_value = 0, mse_isWrite = True\<rparr>\<rparr>;
     (dispatcher, e) \<leftarrow> EventDispatcher_publish dispatcher ioEvent \<lparr>e_host = h, e_app = \<lparr>n_ioReads = 0, n_catchAll = 0\<rparr>\<rparr>;
     (dispatcher, e) \<leftarrow> EventDispatcher_publish dispatcher msrEvent e;
     Some (n_ioReads (e_app e) = 1 \<and> n_catchAll (e_app e) = 2 \<and> d_publishedCount dispatcher = 2)
   }"

definition test_UnsubscribeStops :: "'k kernel \<Rightarrow> 'k host \<Rightarrow> bool option" where
  "test_UnsubscribeStops K h = do {
     let dispatcher = EventDispatcher0;
     let (i, dispatcher) = EventDispatcher_subscribe ET_GuestHalt (\<lambda>_ e. Some (e\<lparr>e_app := e_app e + (1 :: int)\<rparr>)) dispatcher;
     let dispatcher = EventDispatcher_unsubscribe i dispatcher;
     let (now, h) = clock_now K h;
     (dispatcher, e) \<leftarrow> EventDispatcher_publish dispatcher
       \<lparr>ev_type = ET_GuestHalt, ev_vcpu_id = 0, ev_rip = 0, ev_timestamp = now, ev_payload = PL_Monostate\<rparr> \<lparr>e_host = h, e_app = 0\<rparr>;
     Some (e_app e = 0 \<and> d_publishedCount dispatcher = 1)
   }"

section \<open>Test of the CPUID handler\<close>

definition test_ExecuteHostCpuid :: "'k kernel \<Rightarrow> 'k host \<Rightarrow> bool option" where
  "test_ExecuteHostCpuid K h =
     (let leaf0 = CpuidHandler_executeHostCpuid K 0 0 h in
      Some (lr_eax leaf0 > 0 \<and> lr_ebx leaf0 \<noteq> 0 \<and> lr_ecx leaf0 \<noteq> 0 \<and> lr_edx leaf0 \<noteq> 0))"

section \<open>Tests of the MMIO handler\<close>

text \<open>The expectations inside the read callback are collected in the application's object.\<close>

definition test_ReadCallback :: "u64 \<Rightarrow> 'k host \<Rightarrow> bool option" where
  "test_ReadCallback p h = do {
     let mmio = MmioHandler_registerRead 0xFEE00030
       (\<lambda>ctx e. (0x11223344, e\<lparr>e_app := e_app e \<and> rc_addr ctx = 0xFEE00030 \<and> rc_size ctx = 4\<rparr>)) MmioHandler0;
     let run = kvm_run0\<lparr>exit_reason := 6, run_mmio := (run_mmio kvm_run0)\<lparr>mmio_phys_addr := 0xFEE00030,
       mmio_len := 4, mmio_is_write := 0\<rparr>\<rparr>;
     (ok, mmio, e) \<leftarrow> MmioHandler_handle p mmio \<lparr>e_host = h\<lparr>h_runs := (h_runs h)(p \<mapsto> run)\<rparr>, e_app = True\<rparr>;
     run \<leftarrow> h_runs (e_host e) p;
     bytes \<leftarrow> load_at (mmio_data (run_mmio run)) 0 4;
     let val = (le_word bytes :: u32);
     Some (ok \<and> e_app e \<and> val = 0x11223344 \<and> mh_readCount mmio = 1 \<and> mh_writeCount mmio = 0)
   }"

record captured =
  cap_addr :: u64
  cap_size :: u8
  cap_value :: u64

definition test_WriteCallback :: "u64 \<Rightarrow> 'k host \<Rightarrow> bool option" where
  "test_WriteCallback p h = do {
     let mmio = MmioHandler_registerWrite 0xFEE00040
       (\<lambda>ctx e. e\<lparr>e_app := \<lparr>cap_addr = wc_addr ctx, cap_size = wc_size ctx, cap_value = wc_value ctx\<rparr>\<rparr>) MmioHandler0;
     let run = kvm_run0\<lparr>exit_reason := 6, run_mmio := (run_mmio kvm_run0)\<lparr>mmio_phys_addr := 0xFEE00040,
       mmio_len := 8, mmio_is_write := 1\<rparr>\<rparr>;
     let writeValue = (0xAABBCCDD11223344 :: u64);
     bytes \<leftarrow> store_at (mmio_data (run_mmio run)) 0 (le_bytes 8 writeValue);
     let run = run\<lparr>run_mmio := (run_mmio run)\<lparr>mmio_data := bytes\<rparr>\<rparr>;
     (ok, mmio, e) \<leftarrow> MmioHandler_handle p mmio
       \<lparr>e_host = h\<lparr>h_runs := (h_runs h)(p \<mapsto> run)\<rparr>, e_app = \<lparr>cap_addr = 0, cap_size = 0, cap_value = 0\<rparr>\<rparr>;
     Some (ok \<and> cap_addr (e_app e) = 0xFEE00040 \<and> cap_size (e_app e) = 8 \<and> cap_value (e_app e) = writeValue \<and>
       mh_readCount mmio = 0 \<and> mh_writeCount mmio = 1)
   }"

section \<open>Their expectations\<close>

lemma test_PublishRoutes_passes: "test_PublishRoutes K h = Some True"
  by (simp add: test_PublishRoutes_def EventDispatcher0_def EventDispatcher_subscribe_def EventDispatcher_subscribeAll_def
      EventDispatcher_publish_def Let_def split_beta)

lemma test_UnsubscribeStops_passes: "test_UnsubscribeStops K h = Some True"
  by (simp add: test_UnsubscribeStops_def EventDispatcher0_def EventDispatcher_subscribe_def EventDispatcher_unsubscribe_def
      EventDispatcher_publish_def Let_def split_beta)

text \<open>
  Leaf 0 of CPUID: the highest leaf, which is at least 1, and a vendor name of twelve printable
  characters in EBX, EDX and ECX.
\<close>

definition vendor_law :: "'k kernel \<Rightarrow> bool" where
  "vendor_law K \<longleftrightarrow> (\<forall>h. \<exists>top name. 1 \<le> top \<and> length name = 12 \<and> (\<forall>c \<in> set name. 0x20 \<le> c \<and> c < 0x7F) \<and>
     cpu_cpuid K 0 0 h = (top, le_word (take 4 name), le_word (drop 8 name), le_word (take 4 (drop 4 name))))"

lemma le_word_printable:
  assumes "length bs = 4" and "\<forall>c \<in> set bs. 0x20 \<le> c"
  shows "(le_word bs :: u32) \<noteq> 0"
proof
  assume "(le_word bs :: u32) = 0"
  moreover have "le_bytes 4 (le_word bs :: u32) = bs" using assms(1) by (simp add: le_bytes_word)
  ultimately have "bs = le_bytes 4 (0 :: u32)" by simp
  then have "0 \<in> set bs" by (simp add: le_bytes_def)
  with assms(2) show False by auto
qed

lemma test_ExecuteHostCpuid_passes:
  assumes "vendor_law K"
  shows "test_ExecuteHostCpuid K h = Some True"
proof -
  from assms obtain top name where v: "1 \<le> top" "length name = 12" "\<forall>c \<in> set name. 0x20 \<le> c"
    and c: "cpu_cpuid K 0 0 h = (top, le_word (take 4 name), le_word (drop 8 name), le_word (take 4 (drop 4 name)))"
    unfolding vendor_law_def by blast
  have "0 < top" using v(1) by (simp add: word_less_nat_alt word_le_nat_alt)
  moreover have "(le_word (take 4 name) :: u32) \<noteq> 0" "(le_word (drop 8 name) :: u32) \<noteq> 0" "(le_word (take 4 (drop 4 name)) :: u32) \<noteq> 0"
    using v(2,3) by (intro le_word_printable; force dest: in_set_takeD in_set_dropD)+
  ultimately show ?thesis by (simp add: test_ExecuteHostCpuid_def CpuidHandler_executeHostCpuid_def c)
qed

lemma read_value: "(le_word (le_bytes 4 (0x11223344 :: u64)) :: u32) = 0x11223344"
  by code_simp

lemma test_ReadCallback_passes: "test_ReadCallback p h = Some True"
  by (simp add: read_value test_ReadCallback_def MmioHandler_handle_def MmioHandler_registerRead_def MmioHandler0_def kvm_run0_def
      store_at_def load_at_def take_le_bytes le_word_bytes Let_def)

lemma test_WriteCallback_passes: "test_WriteCallback p h = Some True"
  by (simp add: test_WriteCallback_def MmioHandler_handle_def MmioHandler_registerWrite_def MmioHandler0_def kvm_run0_def
      store_at_def load_at_def le_word_bytes le_word_take_zero Let_def)


definition vendor_kernel :: "sim kernel" where
  "vendor_kernel = sim_kernel\<lparr>cpu_cpuid := (\<lambda>leaf sub h. (0xD, le_word [0x47, 0x65, 0x6E, 0x75], le_word [0x6E, 0x74, 0x65, 0x6C],
     le_word [0x69, 0x6E, 0x65, 0x49]))\<rparr>"

lemma vendor_kernel_law: "vendor_law vendor_kernel"
  unfolding vendor_law_def
  by (intro allI exI [of _ "0xD"] exI [of _ "[0x47, 0x65, 0x6E, 0x75, 0x69, 0x6E, 0x65, 0x49, 0x6E, 0x74, 0x65, 0x6C]"])
    (simp add: vendor_kernel_def)


end
