(* ===== verification/Spec2Isabelle.thy ===== *)
theory Spec2Isabelle
  imports Kvm_System Instruction_Trapper Guest_Boot Vmi_Log Hv_Leak X86_Kernel Hv_Tests
begin

text \<open>
  A verification development of a minimal KVM hypervisor (C++, directories \<^verbatim>\<open>src\<close> and \<^verbatim>\<open>include/hv\<close>), of the guest it
  runs (\<^verbatim>\<open>guests\<close>) and of its tests (\<^verbatim>\<open>tests\<close>).

  \<^bold>\<open>The program.\<close> \<^verbatim>\<open>KvmSystem\<close> owns the descriptor of \<^verbatim>\<open>/dev/kvm\<close> and creates a \<^verbatim>\<open>VirtualMachine\<close>, which owns memory regions
  (\<^verbatim>\<open>MemoryRegion\<close>, one host mapping and one KVM slot each) and vCPUs (\<^verbatim>\<open>VCpu\<close>, a descriptor with its mapped
  \<^verbatim>\<open>kvm_run\<close> page). \<^verbatim>\<open>GuestLoader\<close> places an image in guest memory and sets up the registers for real mode or long
  mode. \<^verbatim>\<open>InstructionTrapper\<close> enters the guest, classifies each exit, hands it to the handler for CPUID, port I/O or MMIO
  and publishes an event on the \<^verbatim>\<open>EventDispatcher\<close>. \<^verbatim>\<open>VmiAgent\<close> listens there, adds registers, a memory dump and a summary to
  each event, keeps the log and writes it as JSON. \<^verbatim>\<open>main\<close> wires all of it up, takes a snapshot and runs
  the guest three times from it, printing what happens. The guest reads and writes the registers of a device that
  \<^verbatim>\<open>main\<close> emulates, and halts.

  \<^bold>\<open>What stands for the world outside.\<close> The system calls, KVM, the clock, the CPUID instruction and the
  contents of files are the functions of the record \<open>'k kernel\<close> (theory \<open>Host_Kernel\<close>), an argument of every
  definition that uses them. They act on \<open>'k host\<close>: \<^verbatim>\<open>errno\<close>, the mapped memory by address, the \<^verbatim>\<open>kvm_run\<close> pages by
  address, and the kernel's own state \<open>'k\<close>, about which nothing is known. A theorem that needs more of them has
  one of the named laws as a hypothesis (\<open>reg_laws\<close>, \<open>mem_laws\<close>, \<open>fd_law\<close>, \<open>errno_law\<close>, \<open>run_law\<close> and the others of that
  theory), each a documented behaviour. \<open>Kvm_Abi\<close> has the structures and constants of the KVM interface.
  The record \<open>'k library\<close> has what \<open>main\<close> needs of the C++ library besides: the text of an error code, and opening
  and writing the log's file; \<open>stream_law\<close> says that a file stream gives back what it takes. For the theorem about the
  guest, \<open>session_laws\<close> (theory \<open>Guest_Session\<close>) says what KVM promises of memory slots, vCPU registers and \<^verbatim>\<open>KVM_RUN\<close>
  when the processor executes instructions as theory \<open>Guest_Program\<close> does. \<open>Sim_Kernel\<close>, its variant \<open>halt_kernel\<close> and
  \<open>X86_Kernel\<close> are executable kernels that satisfy these laws; only the closed instances (theorems named \<open>_witness\<close>)
  use them.

  \<^bold>\<open>How code is modelled.\<close> A class is a record of its members, a method a function that takes the object, the
  arguments and the host and returns what the method returns with the changed object and host. Machine
  integers are words of their width. Console output is the list of the pieces written, each with its stream, in
  order, and part of what \<open>main\<close> returns. \<^verbatim>\<open>std::expected\<close> is a sum type with the error code on the left; error
  code 0 is success. A pointer into a vector is an index; an object behind a pointer that its user never sees
  change is part of the user's record; a null pointer is \<^const>\<open>None\<close>. A registered callback is a
  function on the host and the application's objects (record \<open>env\<close>). The result \<^const>\<open>None\<close> stands for what has
  no result: an access outside a mapping, an empty vector's first element, a failed assertion, or a run loop
  that does not end. Destructors are the definitions named \<open>_release\<close>, moves those named \<open>_move\<close> and \<open>_assign\<close>.

  \<^bold>\<open>Theories and sources.\<close>
  \<^item> \<open>Hv_Prelude\<close>: words, bounded byte blocks, the little-endian representation that \<^verbatim>\<open>memcpy\<close> moves, and the
    interfaces \<open>byte_store\<close>, \<open>le_codec\<close>, \<open>callback_table\<close> and \<open>rw_tables\<close>; \<open>Text_Format\<close>: printing of numbers, and the console.
  \<^item> \<open>Memory_Region\<close>, \<open>Vcpu_Model\<close>, \<open>Virtual_Machine\<close>, \<open>Kvm_System\<close>: the classes of MemoryRegion.cpp, VCpu.cpp,
    VirtualMachine.cpp and KvmSystem.cpp. The interface \<open>raii\<close> says what moving and destroying owners promise;
    all four classes are instances. Shown: creation on every branch, bounded byte access, the machine's
    well-formedness, exact restoring of snapshots, no leaked descriptor, what a destroyed machine leaves.
  \<^item> \<open>Event_Dispatcher\<close>: EventDispatcher.cpp and the event records. The interface \<open>event_bus\<close>, routing in
    subscription order, unique identifiers as an invariant of all reachable dispatchers.
  \<^item> \<open>Exit_Interface\<close>, \<open>Io_Port_Handler\<close>, \<open>Mmio_Handler\<close>, \<open>Cpuid_Handler\<close>, \<open>Msr_Handler\<close>: the handlers of the same names.
    The interface \<open>exit_handler\<close> is what the run loop relies on; the values that guest and device see, on every
    branch; the MSR filter that is installed.
  \<^item> \<open>Instruction_Trapper\<close>: InstructionTrapper.cpp. The run loop is a partial function, shown equivalent to a
    step relation (\<open>trap_steps\<close>); with a limit it always returns; one event for each reported exit; contents of
    the events.
  \<^item> \<open>Guest_Loader\<close>, \<open>Guest_Boot\<close>: GuestLoader.cpp. The page tables, read by a model of the processor's table walk,
    map the first GiB identically; what memory and registers hold after loading; the bounds that the size
    checks miss.
  \<^item> \<open>Vmi_Agent\<close>, \<open>Vmi_Log\<close>: VmiAgent.cpp. Enriched events, completeness of the log, introspective reads, and the
    JSON text against a tokenizer and a reader of its fields.
  \<^item> \<open>Hv_Main\<close>: main.cpp, with its devices, the CPUID table, the three runs and all it prints.
  \<^item> \<open>Hv_Safety\<close>, \<open>Hv_Report\<close>: the invariant of the objects that \<open>main\<close> wires together, that every callback and listener
    keeps it, and that the program returns; that every published event is well typed and ends up in the log, on
    the console and in the file.
  \<^item> \<open>Host_Frame\<close>, \<open>Hv_Leak\<close>: what running the guest leaves alone. The interfaces \<open>host_view\<close>, \<open>host_frame\<close> and \<open>guest_frame\<close> lift
    a relation between states from the single system calls to handlers, listeners, the run loop and snapshots;
    with the process's descriptors and mappings as the relation, \<open>main\<close> leaks nothing.
  \<^item> \<open>Guest_Program\<close>: guests/simpleGuest.asm as a list of instructions, with an assembler and a real-mode processor for the
    instructions it uses (decoding is inverse to encoding); the guest's run from exit to exit.
  \<^item> \<open>Guest_Session\<close>, \<open>Session_Main\<close>: program and guest together, from the loader over the snapshot to the report of three
    runs. \<open>X86_Kernel\<close>: a kernel on which such a session takes place.
  \<^item> \<open>Hv_Tests\<close>: tests/testHypervisor.cpp, one definition for each test, and that its expectations hold.
  \<^item> This theory: the properties of the whole program.

  \<^bold>\<open>Bounds.\<close> No definition has fuel. Loops over vectors are structural; the limit of the run loop is the
  program's own 64-bit counter; the unlimited loop of \<open>main\<close> is a \<open>partial_function\<close>, and the theorem that the program
  returns has as its hypothesis that the guest does not run forever (\<open>guest_stops\<close>). For the guest in the repository
  this is proved (\<open>simple_guest_session\<close>). Theorems on addresses say where 64-bit sums may not wrap around; what happens
  when they do is stated separately.

  \<^bold>\<open>Not modelled.\<close> The signal handler, whose flag is never read: a signal shows only as an interrupted
  \<^verbatim>\<open>KVM_RUN\<close>, which the kernel parameter allows; exceptions for exhausted memory; the self-move of a \<^verbatim>\<open>VmiAgent\<close>
  and the state of an agent that was assigned from, which C++ leaves unspecified. Accessor methods are the selectors of
  the records, and the private constructors are the record terms where they are called. What remains of the
  headers is declarations of operations that are modelled at their definitions. The processor is modelled for the
  seven kinds of instruction that the guest has, in real mode, and KVM only by the laws.
\<close>

section \<open>The program\<close>



text \<open>C10: every run starts from the memory of the snapshot, whatever earlier runs did: preparing run \<open>i\<close> is
  defined, the first region has the bytes it had when the snapshot was taken, except that the byte at
  address \<open>0x2000\<close> is the run's input, and every other region has exactly the bytes of the snapshot.\<close>

theorem fuzz_run_start:
  fixes e e0 :: "('k, 'k main_app) env"
  assumes laws: "reg_laws K" and vm: "machine_ok vm v"
    and ready: "env_ready (main_inv vm) p e0" "env_ready (main_inv vm) p e"
    and snap: "VirtualMachine_takeSnapShot K vm (e_host e0) = Some (snap, h0)"
    and first: "i = 0 \<longrightarrow> h_heap (e_host e) = h_heap (e_host e0)"
  shows "\<exists>cr cs h'. fuzz_prepare K vm snap i (e_host e) = Some (cr, cs, h') \<and>
    region_bytes h' (hd (vm_memoryRegions vm)) =
      (region_bytes (e_host e0) (hd (vm_memoryRegions vm)))[0x2000 := fuzzInput ! (i mod 3)] \<and>
    (\<forall>q \<in> set (tl (vm_memoryRegions vm)). region_bytes h' q = region_bytes (e_host e0) q)"
proof -
  from vm obtain vs r rs where v: "vm_vcpus vm = v # vs" and r: "vm_memoryRegions vm = r # rs"
    and dist: "distinct (map m_hostAddr (vm_memoryRegions vm))" unfolding machine_ok_def by blast
  have fits: "snap_fits vm snap" "snap_memoryRegions snap = map (region_bytes (e_host e0)) (vm_memoryRegions vm)"
    using takeSnapShot_ready [OF laws v ready(1)] snap by auto
  from fuzz_prepare_ready [OF laws vm ready(2) fits(1), of i] obtain cr cs h1 h' where
    p: "fuzz_prepare K vm snap i (e_host e) = Some (cr, cs, h')"
    and h1: "i > 0 \<longrightarrow> map (region_bytes h1) (vm_memoryRegions vm) = snap_memoryRegions snap" "i = 0 \<longrightarrow> h1 = e_host e"
    and h': "region_bytes h' r = (region_bytes h1 r)[0x2000 := fuzzInput ! (i mod length fuzzInput)]"
      "\<forall>q. q \<noteq> m_hostAddr r \<longrightarrow> h_heap h' q = h_heap h1 q"
    by (auto simp: r)
  have bytes: "region_bytes h1 q = region_bytes (e_host e0) q" if "q \<in> set (vm_memoryRegions vm)" for q
    using h1 first fits(2) that region_bytes_cong [of "e_host e" "e_host e0"] by (cases "i = 0") auto
  have "region_bytes h' q = region_bytes h1 q" if q: "q \<in> set rs" for q
  proof -
    have "m_hostAddr r \<notin> m_hostAddr ` set rs" using dist by (simp add: r)
    then have "m_hostAddr q \<noteq> m_hostAddr r" using q by (metis imageI)
    with h'(2) show ?thesis by (simp add: region_bytes_def block_def)
  qed
  with p h'(1) bytes show ?thesis by (simp add: r fuzzInput_def)
qed

theorem fuzz_run_start_witness:
  "\<exists>snap h0 cr cs h'. VirtualMachine_takeSnapShot sim_kernel demo_machine (e_host (demo_main_env 0)) = Some (snap, h0) \<and>
     fuzz_prepare sim_kernel demo_machine snap 1 (e_host (demo_main_env 7)) = Some (cr, cs, h') \<and>
     region_bytes h' demo_ram = (replicate 0x8000 0)[0x2000 := 0x42]"
proof -
  obtain snap h0 where s: "VirtualMachine_takeSnapShot sim_kernel demo_machine (e_host (demo_main_env 0)) = Some (snap, h0)"
    using takeSnapShot_ready [OF sim_reg_laws demo_machine_simps(2) demo_main_ready] by blast
  have "region_bytes (e_host (demo_main_env 0)) demo_ram = replicate 0x8000 0"
    by (simp add: region_bytes_def block_def demo_main_env_def demo_ram_def)
  with fuzz_run_start [OF sim_reg_laws demo_machine_ok demo_main_ready demo_main_ready s, of 1 7] s
  show ?thesis by (auto simp: demo_machine_simps fuzzInput_def)
qed

text \<open>C8: the program's three reports agree. Whatever main returns, the lines printed with the tag of the
  agent are, in order, the summaries of one log of events. When it ends with status 0, this log is what
  was handed to the writer of \<^verbatim>\<open>vmi_events.json\<close> before machine and KVM handle were destroyed, and the
  total printed last is the number of its entries, modulo \<open>2\<^sup>6\<^sup>4\<close>: no event published by the CPUID table or
  by any of the three runs is missing from log, file or console.\<close>

theorem all_events_logged:
  fixes K :: "'k kernel"
  assumes laws: "reg_laws K" "clock_frame K" "run_law K" "mem_laws K" "mapping_law K" "errno_law K" "get_errno_law K"
    and image: "image_fits K"
    and m: "main K L h = Some (code, out, h')"
  shows "\<exists>log. tagged vmi_tag out = map vmi_line log \<and>
    (code = 0 \<longrightarrow> last out = (Stdout, ''[+] Total events dispatched: '' @ dec_word (of_nat (length log) :: u64) @ [nl]) \<and>
      (\<exists>kvm_sys vm a h1. vmi_eventLog a = log \<and> h' = KvmSystem_release K kvm_sys (VirtualMachine_release K vm
         (VmiAgent_dumpEventLog (open_out L) (write_out L) (a :: ('k, main_state) VmiAgent) ''vmi_events.json'' h1))))"
proof -
  from main_reported [OF laws image m] obtain log kvm_sys vm where r: "reported K L kvm_sys vm (code, out, h') log" by blast
  let ?a = "(fst (main_listeners K vm))\<lparr>vmi_eventLog := log\<rparr>"
  have "vmi_eventLog ?a = log" by simp
  with r show ?thesis unfolding reported_def prod.case total_line_def by blast
qed

theorem all_events_logged_witness:
  "\<exists>code out h' log. main halt_kernel demo_library (sim_host sim0) = Some (code, out, h') \<and>
     tagged vmi_tag out = map vmi_line log \<and>
     (code = 0 \<longrightarrow> last out = (Stdout, ''[+] Total events dispatched: '' @ dec_word (of_nat (length log) :: u64) @ [nl]))"
proof -
  obtain code out h' where m: "main halt_kernel demo_library (sim_host sim0) = Some (code, out, h')"
    using main_terminates [OF halt_laws halt_guest_stops halt_image] by blast
  from all_events_logged [OF halt_laws halt_image m] m show ?thesis by blast
qed



section \<open>The program and its guest\<close>





end
